(* ===== verification/Go_Prelude.thy ===== *)
theory Go_Prelude
  imports Complex_Main "HOL-Library.Sublist" "HOL-Library.Product_Lexorder"
begin

text \<open>
  The vocabulary every component theory shares: the parts of Go and of its standard library that
  the program uses, and generic facts about them.

  \<^item> A Go string is a list of characters. The model's characters are the code points U+0000 to
    U+00FF, one list element each; \<^verbatim>\<open>unicode.IsSpace\<close> is modelled on the whole of that range (it
    includes the no-break space the upstream feed uses), upper and lower case on the ASCII letters.
  \<^item> An error is its message; a fallible Go function returns a sum, \<^verbatim>\<open>Inl\<close> for the error.
  \<^item> A time is a count of nanoseconds since the Unix epoch, a duration a count of nanoseconds.
    \<^verbatim>\<open>Time.Sub\<close> saturates at the ends of the signed 64-bit range, as Go's does.
  \<^item> A \<^verbatim>\<open>float64\<close> is a rational, an infinity or NaN, compared as IEEE 754 compares; rounding of
    arithmetic is not modelled.
\<close>

type_synonym error = string
type_synonym time = int
type_synonym duration = int
type_synonym source_name = string

section \<open>Strings\<close>

definition is_space :: "char \<Rightarrow> bool" where
  "is_space c \<longleftrightarrow>
     c = CHR '' '' \<or> c = CHR 0x09 \<or> c = CHR 0x0A \<or> c = CHR 0x0B \<or> c = CHR 0x0C \<or>
     c = CHR 0x0D \<or> c = CHR 0x85 \<or> c = CHR 0xA0"

definition TrimLeft :: "string \<Rightarrow> string \<Rightarrow> string" where
  "TrimLeft cutset s = dropWhile (\<lambda>c. c \<in> set cutset) s"

definition trim_by :: "(char \<Rightarrow> bool) \<Rightarrow> string \<Rightarrow> string" where
  "trim_by p s = rev (dropWhile p (rev (dropWhile p s)))"

definition Trim :: "string \<Rightarrow> string \<Rightarrow> string" where
  "Trim cutset s = trim_by (\<lambda>c. c \<in> set cutset) s"

definition TrimSpace :: "string \<Rightarrow> string" where
  "TrimSpace s = trim_by is_space s"

fun split_by :: "(char \<Rightarrow> bool) \<Rightarrow> string \<Rightarrow> string list" where
  "split_by p [] = [[]]"
| "split_by p (c # cs) =
     (if p c then [] # split_by p cs
      else (case split_by p cs of [] \<Rightarrow> [[c]] | w # ws \<Rightarrow> (c # w) # ws))"

definition Split :: "string \<Rightarrow> char \<Rightarrow> string list" where
  "Split s sep = split_by (\<lambda>c. c = sep) s"

definition Fields :: "string \<Rightarrow> string list" where
  "Fields s = filter (\<lambda>w. w \<noteq> []) (split_by is_space s)"

fun Join :: "string list \<Rightarrow> string \<Rightarrow> string" where
  "Join [] sep = []"
| "Join [w] sep = w"
| "Join (w # ws) sep = w @ sep @ Join ws sep"

definition HasPrefix :: "string \<Rightarrow> string \<Rightarrow> bool" where
  "HasPrefix s p = prefix p s"

definition HasSuffix :: "string \<Rightarrow> string \<Rightarrow> bool" where
  "HasSuffix s p = suffix p s"

definition TrimSuffix :: "string \<Rightarrow> string \<Rightarrow> string" where
  "TrimSuffix s p = (if suffix p s then take (length s - length p) s else s)"

definition TrimPrefix :: "string \<Rightarrow> string \<Rightarrow> string" where
  "TrimPrefix s p = (if prefix p s then drop (length p) s else s)"

fun Index :: "string \<Rightarrow> string \<Rightarrow> nat option" where
  "Index [] n = (if n = [] then Some 0 else None)"
| "Index (c # cs) n = (if prefix n (c # cs) then Some 0 else map_option Suc (Index cs n))"

definition Contains :: "string \<Rightarrow> string \<Rightarrow> bool" where
  "Contains s n \<longleftrightarrow> Index s n \<noteq> None"

fun IndexAny :: "string \<Rightarrow> string \<Rightarrow> nat option" where
  "IndexAny [] chars = None"
| "IndexAny (c # cs) chars = (if c \<in> set chars then Some 0 else map_option Suc (IndexAny cs chars))"

definition ContainsAny :: "string \<Rightarrow> string \<Rightarrow> bool" where
  "ContainsAny s chars \<longleftrightarrow> IndexAny s chars \<noteq> None"

definition code_of :: "char \<Rightarrow> nat" where
  "code_of c = of_char c"

definition is_digit :: "char \<Rightarrow> bool" where
  "is_digit c \<longleftrightarrow> 48 \<le> code_of c \<and> code_of c \<le> 57"

definition is_lower :: "char \<Rightarrow> bool" where
  "is_lower c \<longleftrightarrow> 97 \<le> code_of c \<and> code_of c \<le> 122"

definition is_upper :: "char \<Rightarrow> bool" where
  "is_upper c \<longleftrightarrow> 65 \<le> code_of c \<and> code_of c \<le> 90"

definition upper_char :: "char \<Rightarrow> char" where
  "upper_char c = (if is_lower c then char_of (code_of c - 32) else c)"

definition lower_char :: "char \<Rightarrow> char" where
  "lower_char c = (if is_upper c then char_of (code_of c + 32) else c)"

definition ToUpper :: "string \<Rightarrow> string" where
  "ToUpper s = map upper_char s"

definition ToLower :: "string \<Rightarrow> string" where
  "ToLower s = map lower_char s"

subsection \<open>Decimal integers: \<^verbatim>\<open>strconv.Itoa\<close> and \<^verbatim>\<open>strconv.Atoi\<close>\<close>

fun dec_digits :: "nat \<Rightarrow> string" where
  "dec_digits n =
     (if n < 10 then [char_of (48 + n)] else dec_digits (n div 10) @ [char_of (48 + n mod 10)])"

declare dec_digits.simps [simp del]

definition Itoa :: "int \<Rightarrow> string" where
  "Itoa i = (if i < 0 then CHR ''-'' # dec_digits (nat (- i)) else dec_digits (nat i))"

definition digits_val :: "string \<Rightarrow> nat" where
  "digits_val s = foldl (\<lambda>v c. 10 * v + (code_of c - 48)) 0 s"

definition Atoi :: "string \<Rightarrow> int option" where
  "Atoi s =
     (let neg = prefix ''-'' s;
          ds = (if prefix ''-'' s \<or> prefix ''+'' s then tl s else s);
          v = (if neg then - int (digits_val ds) else int (digits_val ds))
      in if ds \<noteq> [] \<and> list_all is_digit ds \<and> - (2 ^ 63) \<le> v \<and> v < 2 ^ 63 then Some v else None)"

section \<open>Times and durations\<close>

definition nanosecond :: duration where "nanosecond = 1"
definition millisecond :: duration where "millisecond = 1000000"
definition second :: duration where "second = 1000000000"
definition minute :: duration where "minute = 60 * second"
definition hour :: duration where "hour = 60 * minute"

definition max_duration :: duration where "max_duration = 2 ^ 63 - 1"
definition min_duration :: duration where "min_duration = - (2 ^ 63)"

text \<open>\<^verbatim>\<open>time.Time{}\<close>, 0001-01-01T00:00:00Z.\<close>

definition zero_time :: time where "zero_time = - 62135596800 * second"

definition Sub :: "time \<Rightarrow> time \<Rightarrow> duration" where
  "Sub t u = max min_duration (min max_duration (t - u))"

definition Milliseconds :: "duration \<Rightarrow> int" where
  "Milliseconds d = sgn d * (\<bar>d\<bar> div millisecond)"

text \<open>
  \<^verbatim>\<open>int(d.Seconds())\<close> truncates towards zero; \<^verbatim>\<open>int(math.Ceil(d.Seconds()))\<close> rounds up.
\<close>

definition whole_seconds :: "duration \<Rightarrow> int" where
  "whole_seconds d = sgn d * (\<bar>d\<bar> div second)"

definition ceil_seconds :: "duration \<Rightarrow> int" where
  "ceil_seconds d = - ((- d) div second)"

lemmas duration_defs = nanosecond_def millisecond_def second_def minute_def hour_def

section \<open>Floating point\<close>

datatype float64 = Fin rat | PosInf | NegInf | NaN

fun fless :: "float64 \<Rightarrow> float64 \<Rightarrow> bool" where
  "fless (Fin x) (Fin y) = (x < y)"
| "fless (Fin x) PosInf = True"
| "fless NegInf (Fin y) = True"
| "fless NegInf PosInf = True"
| "fless _ _ = False"

fun feq :: "float64 \<Rightarrow> float64 \<Rightarrow> bool" where
  "feq (Fin x) (Fin y) = (x = y)"
| "feq PosInf PosInf = True"
| "feq NegInf NegInf = True"
| "feq _ _ = False"

definition fle :: "float64 \<Rightarrow> float64 \<Rightarrow> bool" where
  "fle x y \<longleftrightarrow> fless x y \<or> feq x y"

section \<open>Rows of a table\<close>

text \<open>
  \<^verbatim>\<open>ORDER BY f DESC LIMIT 1\<close> over the rows of a table, and the rows of a table in a given order.
  When several rows have the greatest key, the first inserted is taken.
\<close>

fun max_by :: "('a \<Rightarrow> 'k::linorder) \<Rightarrow> 'a list \<Rightarrow> 'a option" where
  "max_by f [] = None"
| "max_by f (x # xs) =
     (case max_by f xs of None \<Rightarrow> Some x | Some y \<Rightarrow> if f x < f y then Some y else Some x)"

definition update_where :: "('a \<Rightarrow> bool) \<Rightarrow> ('a \<Rightarrow> 'a) \<Rightarrow> 'a list \<Rightarrow> 'a list" where
  "update_where p f rows = map (\<lambda>r. if p r then f r else r) rows"

lemma max_by_None [simp]: "max_by f xs = None \<longleftrightarrow> xs = []"
  by (cases xs) (auto split: option.splits)

lemma max_by_SomeD: "max_by f xs = Some y \<Longrightarrow> y \<in> set xs \<and> (\<forall>x \<in> set xs. f x \<le> f y)"
  by (induction xs arbitrary: y) (fastforce split: option.splits if_splits)+

lemma max_by_unique:
  assumes "y \<in> set xs" "\<And>x. x \<in> set xs \<Longrightarrow> x = y \<or> f x < f y"
  shows "max_by f xs = Some y"
proof -
  obtain z where z: "max_by f xs = Some z"
    using assms(1) by (cases "max_by f xs") auto
  then have "z \<in> set xs" "f y \<le> f z" using max_by_SomeD [OF z] assms(1) by auto
  then show ?thesis using z assms(2) [of z] by auto
qed

lemma set_update_where: "set (update_where p f rows) = (\<lambda>r. if p r then f r else r) ` set rows"
  by (simp add: update_where_def)

lemma length_update_where [simp]: "length (update_where p f rows) = length rows"
  by (simp add: update_where_def)

lemma map_update_where:
  "(\<And>r. p r \<Longrightarrow> g (f r) = g r) \<Longrightarrow> map g (update_where p f rows) = map g rows"
  by (auto simp: update_where_def)

lemma list_all_update_where:
  "(\<And>r. p r \<Longrightarrow> Q (f r) = Q r) \<Longrightarrow> list_all Q (update_where p f rows) = list_all Q rows"
  by (induction rows) (auto simp: update_where_def)

lemma filter_update_where:
  "(\<And>r. q (f r) = q r) \<Longrightarrow> filter q (update_where p f rows) = update_where p f (filter q rows)"
  by (induction rows) (auto simp: update_where_def)

lemma update_where_cong:
  "(\<And>r. r \<in> set rows \<Longrightarrow> p r = q r) \<Longrightarrow> update_where p f rows = update_where q f rows"
  by (auto simp: update_where_def)

lemma update_where_none: "(\<And>r. r \<in> set rows \<Longrightarrow> \<not> p r) \<Longrightarrow> update_where p f rows = rows"
  by (auto simp: update_where_def intro: map_idI)

lemma find_unique:
  assumes "distinct (map k rows)" "r \<in> set rows"
  shows "List.find (\<lambda>x. k x = k r) rows = Some r"
  using assms by (induction rows) auto

lemma find_SomeD: "List.find p rows = Some r \<Longrightarrow> r \<in> set rows \<and> p r"
  by (auto simp: find_Some_iff)

lemma find_None_set: "List.find p rows = None \<longleftrightarrow> (\<forall>r \<in> set rows. \<not> p r)"
  by (auto simp: find_None_iff)

lemma find_append: "List.find p (xs @ ys) = (case List.find p xs of None \<Rightarrow> List.find p ys | Some x \<Rightarrow> Some x)"
  by (induction xs) auto

lemma find_update_where:
  "(\<And>r. q (f r) = q r) \<Longrightarrow>
   List.find q (update_where p f rows) = map_option (\<lambda>r. if p r then f r else r) (List.find q rows)"
  by (induction rows) (auto simp: update_where_def)

lemma find_update_matched:
  "(\<And>r. q r \<Longrightarrow> q (f r)) \<Longrightarrow> List.find q (update_where q f rows) = map_option f (List.find q rows)"
  by (induction rows) (auto simp: update_where_def)

lemma update_where_guard: "update_where q f rows = update_where q (\<lambda>r. if q r then f r else r) rows"
  by (auto simp: update_where_def)

section \<open>Facts about strings\<close>

lemma dropWhile_head_neg: "dropWhile p s \<noteq> [] \<Longrightarrow> \<not> p (hd (dropWhile p s))"
  by (rule hd_dropWhile) (auto simp: dropWhile_eq_Nil_conv)

lemma dropWhile_fixed: "s = [] \<or> \<not> p (hd s) \<Longrightarrow> dropWhile p s = s"
  by (auto simp: dropWhile_eq_self_iff)

lemma trim_right_prefix: "prefix (rev (dropWhile p (rev s))) s"
  using suffix_dropWhile [of p "rev s"] by (simp add: suffix_to_prefix)

lemma trim_by_head: "trim_by p s \<noteq> [] \<Longrightarrow> \<not> p (hd (trim_by p s))"
proof -
  assume ne: "trim_by p s \<noteq> []"
  let ?d = "dropWhile p s"
  have pre: "prefix (trim_by p s) ?d" by (simp add: trim_by_def trim_right_prefix)
  with ne have "hd (trim_by p s) = hd ?d" by (auto simp: prefix_def hd_append)
  moreover from pre ne have "?d \<noteq> []" by (metis prefix_bot.extremum_uniqueI)
  ultimately show ?thesis using dropWhile_head_neg [of p s] by simp
qed

lemma trim_by_last: "trim_by p s \<noteq> [] \<Longrightarrow> \<not> p (last (trim_by p s))"
  by (simp add: trim_by_def last_rev dropWhile_head_neg)

lemma trim_by_fixed: "s = [] \<or> (\<not> p (hd s) \<and> \<not> p (last s)) \<Longrightarrow> trim_by p s = s"
  by (cases "s = []") (auto simp: trim_by_def dropWhile_fixed hd_rev)

lemma trim_by_idem [simp]: "trim_by p (trim_by p s) = trim_by p s"
  by (rule trim_by_fixed) (use trim_by_head [of p s] trim_by_last [of p s] in blast)

lemma trim_by_set: "set (trim_by p s) \<subseteq> set s"
  unfolding trim_by_def by (auto dest!: set_dropWhileD)

lemma trim_by_Nil_iff: "trim_by p s = [] \<longleftrightarrow> (\<forall>c \<in> set s. p c)"
proof -
  have "trim_by p s = [] \<longleftrightarrow> (\<forall>c \<in> set (dropWhile p s). p c)"
    by (simp add: trim_by_def dropWhile_eq_Nil_conv)
  also have "\<dots> \<longleftrightarrow> (\<forall>c \<in> set s. p c)"
  proof (cases "dropWhile p s = []")
    case True
    then show ?thesis by (metis dropWhile_eq_Nil_conv list.set(1) empty_iff)
  next
    case False
    then have "\<not> p (hd (dropWhile p s))" "hd (dropWhile p s) \<in> set (dropWhile p s)"
      by (auto simp: dropWhile_head_neg)
    then show ?thesis by (meson set_dropWhileD)
  qed
  finally show ?thesis .
qed

lemma trim_by_Nil [simp]: "trim_by p [] = []"
  by (simp add: trim_by_def)

lemma TrimSpace_Nil [simp]: "TrimSpace [] = []"
  by (simp add: TrimSpace_def)

lemma TrimSpace_idem [simp]: "TrimSpace (TrimSpace s) = TrimSpace s"
  by (simp add: TrimSpace_def)

lemma TrimSpace_fixed: "\<forall>c \<in> set s. \<not> is_space c \<Longrightarrow> TrimSpace s = s"
  unfolding TrimSpace_def by (rule trim_by_fixed) (metis hd_in_set last_in_set)

lemma Trim_idem [simp]: "Trim cutset (Trim cutset s) = Trim cutset s"
  by (simp add: Trim_def)

subsection \<open>Splitting and joining\<close>

lemma split_by_ne [simp]: "split_by p s \<noteq> []"
  by (induction s) (auto split: list.splits)

lemma split_by_pieces: "w \<in> set (split_by p s) \<Longrightarrow> \<forall>c \<in> set w. \<not> p c"
proof (induction s arbitrary: w)
  case Nil
  then show ?case by simp
next
  case (Cons c cs)
  then show ?case
    by (cases "split_by p cs") (fastforce split: if_splits)+
qed

lemma split_by_none: "\<forall>c \<in> set s. \<not> p c \<Longrightarrow> split_by p s = [s]"
  by (induction s) auto

lemma split_by_append_sep:
  "\<forall>c \<in> set w. \<not> p c \<Longrightarrow> p c' \<Longrightarrow> split_by p (w @ c' # s) = w # split_by p s"
  by (induction w) auto

lemma Fields_pieces: "w \<in> set (Fields s) \<Longrightarrow> w \<noteq> [] \<and> (\<forall>c \<in> set w. \<not> is_space c)"
  by (auto simp: Fields_def dest: split_by_pieces)

lemma Fields_Nil [simp]: "Fields [] = []"
  by (simp add: Fields_def)

definition word :: "string \<Rightarrow> bool" where
  "word w \<longleftrightarrow> w \<noteq> [] \<and> list_all (\<lambda>c. \<not> is_space c) w"

lemma is_space_blank [simp]: "is_space CHR '' ''"
  by (simp add: is_space_def)

lemma Fields_word: "word w \<Longrightarrow> Fields w = [w]"
  by (simp add: Fields_def word_def list_all_iff split_by_none)

lemma Fields_word_blank: "word w \<Longrightarrow> Fields (w @ CHR '' '' # s) = w # Fields s"
  by (simp add: Fields_def word_def list_all_iff split_by_append_sep)

lemma Fields_Join: "list_all word ws \<Longrightarrow> Fields (Join ws '' '') = ws"
  by (induction ws "'' ''" rule: Join.induct) (auto simp: Fields_word Fields_word_blank)

lemma Fields_words: "list_all word (Fields s)"
  by (auto simp: list_all_iff word_def dest: Fields_pieces)

lemma TrimSpace_word: "word w \<Longrightarrow> TrimSpace w = w"
  by (simp add: word_def list_all_iff TrimSpace_fixed)

subsection \<open>Case mapping\<close>

lemma code_of_char_of: "n < 256 \<Longrightarrow> code_of (char_of n) = n"
  by (simp add: code_of_def)

lemma upper_char_idem [simp]: "upper_char (upper_char c) = upper_char c"
  by (auto simp: upper_char_def is_lower_def code_of_char_of)

lemma lower_char_idem [simp]: "lower_char (lower_char c) = lower_char c"
  by (auto simp: lower_char_def is_upper_def code_of_char_of)

lemma ToUpper_idem [simp]: "ToUpper (ToUpper s) = ToUpper s"
  by (simp add: ToUpper_def)

lemma ToLower_idem [simp]: "ToLower (ToLower s) = ToLower s"
  by (simp add: ToLower_def)

lemma ToUpper_Nil_iff [simp]: "ToUpper s = [] \<longleftrightarrow> s = []"
  by (simp add: ToUpper_def)

lemma is_space_upper [simp]: "is_space (upper_char c) = is_space c"
proof (cases "is_lower c")
  case True
  then have "code_of c \<in> {97..122}" by (simp add: is_lower_def)
  moreover have sp: "is_space d \<Longrightarrow> code_of d \<in> {9,10,11,12,13,32,133,160}" for d
    by (auto simp: is_space_def code_of_def)
  moreover have "code_of (upper_char c) = code_of c - 32"
    using True by (auto simp: upper_char_def is_lower_def code_of_char_of)
  ultimately show ?thesis using sp [of c] sp [of "upper_char c"] by fastforce
next
  case False
  then show ?thesis by (simp add: upper_char_def)
qed

lemma dropWhile_map_inv: "(\<And>c. p (f c) = p c) \<Longrightarrow> dropWhile p (map f s) = map f (dropWhile p s)"
  by (induction s) auto

lemma TrimSpace_ToUpper: "TrimSpace (ToUpper s) = ToUpper (TrimSpace s)"
  by (simp add: TrimSpace_def trim_by_def ToUpper_def dropWhile_map_inv rev_map)

subsection \<open>Fast evaluation of the character classes\<close>

text \<open>
  Code equations that read the bits of a character, so that a concrete string is evaluated inside
  the kernel without counting in unary.
\<close>

definition letter_bits :: "bool \<Rightarrow> bool \<Rightarrow> bool \<Rightarrow> bool \<Rightarrow> bool \<Rightarrow> bool" where
  "letter_bits b0 b1 b2 b3 b4 \<longleftrightarrow>
     (b0 \<or> b1 \<or> b2 \<or> b3 \<or> b4) \<and> \<not> (b4 \<and> b3 \<and> (b2 \<or> (b1 \<and> b0)))"

lemma is_lower_code [code]:
  "is_lower (Char b0 b1 b2 b3 b4 b5 b6 b7) \<longleftrightarrow> \<not> b7 \<and> b6 \<and> b5 \<and> letter_bits b0 b1 b2 b3 b4"
  by (cases b0; cases b1; cases b2; cases b3; cases b4; cases b5; cases b6; cases b7;
      simp add: is_lower_def code_of_def letter_bits_def)

lemma is_upper_code [code]:
  "is_upper (Char b0 b1 b2 b3 b4 b5 b6 b7) \<longleftrightarrow> \<not> b7 \<and> b6 \<and> \<not> b5 \<and> letter_bits b0 b1 b2 b3 b4"
  by (cases b0; cases b1; cases b2; cases b3; cases b4; cases b5; cases b6; cases b7;
      simp add: is_upper_def code_of_def letter_bits_def)

lemma is_digit_code [code]:
  "is_digit (Char b0 b1 b2 b3 b4 b5 b6 b7) \<longleftrightarrow>
     \<not> b7 \<and> \<not> b6 \<and> b5 \<and> b4 \<and> \<not> (b3 \<and> (b2 \<or> b1))"
  by (cases b0; cases b1; cases b2; cases b3; cases b4; cases b5; cases b6; cases b7;
      simp add: is_digit_def code_of_def)

lemma upper_char_code [code]:
  "upper_char (Char b0 b1 b2 b3 b4 b5 b6 b7) =
     (if \<not> b7 \<and> b6 \<and> b5 \<and> letter_bits b0 b1 b2 b3 b4
      then Char b0 b1 b2 b3 b4 False b6 b7 else Char b0 b1 b2 b3 b4 b5 b6 b7)"
  unfolding upper_char_def is_lower_code
  by (cases b0; cases b1; cases b2; cases b3; cases b4; cases b5; cases b6; cases b7;
      simp add: code_of_def letter_bits_def char_of_def bit_iff_odd)

lemma lower_char_code [code]:
  "lower_char (Char b0 b1 b2 b3 b4 b5 b6 b7) =
     (if \<not> b7 \<and> b6 \<and> \<not> b5 \<and> letter_bits b0 b1 b2 b3 b4
      then Char b0 b1 b2 b3 b4 True b6 b7 else Char b0 b1 b2 b3 b4 b5 b6 b7)"
  unfolding lower_char_def is_upper_code
  by (cases b0; cases b1; cases b2; cases b3; cases b4; cases b5; cases b6; cases b7;
      simp add: code_of_def letter_bits_def char_of_def bit_iff_odd)

end
