(* ===== verification/Feed_Model.thy ===== *)
theory Feed_Model
  imports Go_Prelude
begin

text \<open>
  The cross-package types of \<^verbatim>\<open>internal/model/incident.go\<close>: what flows from a source adapter
  through the lifecycle layer into the store. The classification is a Go string type with three
  named values; its zero value, the empty string, is a fourth constructor because
  \<^verbatim>\<open>PollResult.Success\<close> accepts it.
\<close>

datatype PollClassification =
    PollUnclassified
  | PollAuthoritativeSuccess
  | PollDegradedSnapshot
  | PollFailure

record Unit =
  unit_Unit :: string
  unit_Status :: string
  unit_UnitType :: string

record Incident =
  inc_Source :: string
  inc_IncidentID :: string
  inc_NatureCode :: string
  inc_NatureDesc :: string
  inc_Units :: "Unit list"
  inc_Channel :: string
  inc_SymbolCode :: string
  inc_LocationText :: string
  inc_Lon :: rat
  inc_Lat :: rat
  inc_IncidentDate :: time
  inc_Raw :: string

record PollResult =
  res_Source :: string
  res_RequestURL :: string
  res_StartedAt :: time
  res_FinishedAt :: time
  res_StatusCode :: int
  res_LatencyMS :: int
  res_Incidents :: "Incident list"
  res_PayloadSHA256 :: string
  res_ParserVersion :: string
  res_Classification :: PollClassification
  res_Reason :: string
  res_UnchangedSince :: "time option"
  res_Err :: "error option"

definition Success :: "PollResult \<Rightarrow> bool" where
  "Success r =
     (if res_Err r \<noteq> None \<or> res_StatusCode r < 200 \<or> res_StatusCode r \<ge> 300 then False
      else res_Classification r = PollUnclassified \<or>
           res_Classification r = PollAuthoritativeSuccess)"

lemma Success_no_error: "Success r \<Longrightarrow> res_Err r = None \<and> res_StatusCode r \<in> {200..<300}"
  by (auto simp: Success_def split: if_splits)

lemma not_Success_degraded: "res_Classification r = PollDegradedSnapshot \<Longrightarrow> \<not> Success r"
  by (simp add: Success_def)

lemma not_Success_failure: "res_Classification r = PollFailure \<Longrightarrow> \<not> Success r"
  by (simp add: Success_def)

end
