(* ===== verification/Delta.thy ===== *)
theory Delta
  imports Feed_Model
begin

text \<open>
  Structured differences between two observations of an incident
  (\<^verbatim>\<open>internal/store/delta.go\<close>, \<^verbatim>\<open>buildIncidentDelta\<close> in
  \<^verbatim>\<open>internal/store/incident_history.go\<close>).

  Go ranges over a map in an unspecified order, so the unit lists of a delta are in no particular
  order: they are sets here. The changed fields are appended in a fixed order: they are a list.
\<close>

section \<open>Definitions\<close>

record UnitStatusChange =
  usc_Unit :: string
  usc_FromStatus :: string
  usc_ToStatus :: string

record FieldChange =
  fc_Field :: string
  fc_From :: string
  fc_To :: string

record incidentDelta =
  UnitsAdded :: "Unit set"
  UnitsRemoved :: "Unit set"
  UnitsChanged :: "UnitStatusChange set"
  FieldsChanged :: "FieldChange list"

definition delta_Empty :: "incidentDelta \<Rightarrow> bool" where
  "delta_Empty d \<longleftrightarrow>
     UnitsAdded d = {} \<and> UnitsRemoved d = {} \<and> UnitsChanged d = {} \<and> FieldsChanged d = []"

fun add_unit :: "(string \<rightharpoonup> Unit) \<Rightarrow> Unit \<Rightarrow> (string \<rightharpoonup> Unit)" where
  "add_unit m u = (if unit_Unit u = [] then m else m(unit_Unit u \<mapsto> u))"

definition unitsByName :: "Unit list \<Rightarrow> (string \<rightharpoonup> Unit)" where
  "unitsByName units = foldl add_unit Map.empty units"

definition map_units :: "Unit list \<Rightarrow> Unit list" where
  "map_units units = filter (\<lambda>u. unitsByName units (unit_Unit u) = Some u) units"

definition diffUnits :: "Unit list \<Rightarrow> Unit list \<Rightarrow> incidentDelta" where
  "diffUnits prior next =
     (let priorByUnit = unitsByName prior;
          nextByUnit = unitsByName next
      in \<lparr>UnitsAdded = set (filter (\<lambda>u. priorByUnit (unit_Unit u) = None) (map_units next)),
          UnitsRemoved = set (filter (\<lambda>u. nextByUnit (unit_Unit u) = None) (map_units prior)),
          UnitsChanged =
            set (concat (map (\<lambda>u.
              (case priorByUnit (unit_Unit u) of
                 None \<Rightarrow> []
               | Some p \<Rightarrow>
                   if unit_Status p \<noteq> unit_Status u
                   then [\<lparr>usc_Unit = unit_Unit u, usc_FromStatus = unit_Status p,
                          usc_ToStatus = unit_Status u\<rparr>]
                   else [])) (map_units next))),
          FieldsChanged = []\<rparr>)"

definition appendFieldChange :: "string \<Rightarrow> string \<Rightarrow> string \<Rightarrow> incidentDelta \<Rightarrow> incidentDelta" where
  "appendFieldChange field prior next d =
     (if prior \<noteq> next
      then d\<lparr>FieldsChanged := FieldsChanged d @ [\<lparr>fc_Field = field, fc_From = prior, fc_To = next\<rparr>]\<rparr>
      else d)"

text \<open>
  \<^verbatim>\<open>fmt.Sprintf("%.6f", x)\<close>: six decimals, the exact value rounded to the nearest, ties to even.
\<close>

definition round_half_even :: "rat \<Rightarrow> int" where
  "round_half_even r =
     (let f = \<lfloor>r\<rfloor>; d = r - of_int f
      in if d < 1/2 then f else if d > 1/2 then f + 1 else if even f then f else f + 1)"

definition pad6 :: "nat \<Rightarrow> string" where
  "pad6 n = (let ds = dec_digits n in replicate (6 - length ds) CHR ''0'' @ ds)"

definition fixed6 :: "rat \<Rightarrow> string" where
  "fixed6 r =
     (let n = nat (round_half_even (\<bar>r\<bar> * 1000000))
      in (if r < 0 then ''-'' else []) @ dec_digits (n div 1000000) @ ''.'' @ pad6 (n mod 1000000))"

definition appendFloatFieldChange :: "string \<Rightarrow> rat \<Rightarrow> rat \<Rightarrow> incidentDelta \<Rightarrow> incidentDelta" where
  "appendFloatFieldChange field prior next d =
     (if \<bar>prior - next\<bar> > 1/1000000 then appendFieldChange field (fixed6 prior) (fixed6 next) d else d)"

record priorIncident =
  prior_NatureCode :: string
  prior_NatureDesc :: string
  prior_Units :: "Unit list"
  prior_Channel :: string
  prior_SymbolCode :: string
  prior_LocationText :: string
  prior_Lon :: rat
  prior_Lat :: rat
  prior_ClearedAt :: "time option"

definition buildIncidentDelta :: "priorIncident option \<Rightarrow> Incident \<Rightarrow> incidentDelta" where
  "buildIncidentDelta prior inc =
     (case prior of
        None \<Rightarrow> diffUnits [] (inc_Units inc)
      | Some p \<Rightarrow>
          appendFloatFieldChange ''lat'' (prior_Lat p) (inc_Lat inc)
            (appendFloatFieldChange ''lon'' (prior_Lon p) (inc_Lon inc)
              (appendFieldChange ''location_text'' (prior_LocationText p) (inc_LocationText inc)
                (appendFieldChange ''symbol_code'' (prior_SymbolCode p) (inc_SymbolCode inc)
                  (appendFieldChange ''channel'' (prior_Channel p) (inc_Channel inc)
                    (appendFieldChange ''nature_desc'' (prior_NatureDesc p) (inc_NatureDesc inc)
                      (appendFieldChange ''nature_code'' (prior_NatureCode p) (inc_NatureCode inc)
                        (diffUnits (prior_Units p) (inc_Units inc)))))))))"

section \<open>Units by name\<close>

lemma foldl_add_unit:
  "foldl add_unit m us n = Some u \<longleftrightarrow> (foldl add_unit Map.empty us n = Some u \<or>
     (foldl add_unit Map.empty us n = None \<and> m n = Some u))"
proof (induction us rule: rev_induct)
  case Nil
  then show ?case by simp
next
  case (snoc v us)
  then show ?case by simp
qed

lemma unitsByName_Nil [simp]: "unitsByName [] = Map.empty"
  by (simp add: unitsByName_def)

lemma unitsByName_snoc: "unitsByName (us @ [u]) = add_unit (unitsByName us) u"
  by (simp add: unitsByName_def)

lemma unitsByName_SomeD:
  "unitsByName us n = Some u \<Longrightarrow> unit_Unit u = n \<and> n \<noteq> [] \<and> u \<in> set us"
  by (induction us rule: rev_induct) (auto simp: unitsByName_snoc split: if_splits)

lemma unitsByName_None: "unitsByName us n = None \<longleftrightarrow> n = [] \<or> n \<notin> unit_Unit ` set us"
  by (induction us rule: rev_induct) (auto simp: unitsByName_snoc)

lemma map_units_iff: "u \<in> set (map_units us) \<longleftrightarrow> unitsByName us (unit_Unit u) = Some u"
  by (auto simp: map_units_def dest: unitsByName_SomeD)

definition status_by_name :: "Unit list \<Rightarrow> (string \<rightharpoonup> string)" where
  "status_by_name us n = map_option unit_Status (unitsByName us n)"

section \<open>A delta is a patch\<close>

text \<open>What a reader of the event does with a delta: the unit statuses after it, from those before.\<close>

definition patch_units :: "incidentDelta \<Rightarrow> (string \<rightharpoonup> string) \<Rightarrow> string \<Rightarrow> string set" where
  "patch_units d before n =
     unit_Status ` {u \<in> UnitsAdded d. unit_Unit u = n} \<union>
     usc_ToStatus ` {c \<in> UnitsChanged d. usc_Unit c = n \<and> before n = Some (usc_FromStatus c)} \<union>
     (if n \<in> unit_Unit ` UnitsRemoved d \<or> n \<in> usc_Unit ` UnitsChanged d then {} else set_option (before n))"

lemma added_iff:
  "u \<in> UnitsAdded (diffUnits prior next) \<longleftrightarrow>
   unitsByName next (unit_Unit u) = Some u \<and> unitsByName prior (unit_Unit u) = None"
  by (auto simp: diffUnits_def Let_def map_units_iff)

lemma removed_iff:
  "u \<in> UnitsRemoved (diffUnits prior next) \<longleftrightarrow>
   unitsByName prior (unit_Unit u) = Some u \<and> unitsByName next (unit_Unit u) = None"
  by (auto simp: diffUnits_def Let_def map_units_iff)

lemma changed_iff:
  "c \<in> UnitsChanged (diffUnits prior next) \<longleftrightarrow>
   (\<exists>p u. unitsByName prior (usc_Unit c) = Some p \<and> unitsByName next (usc_Unit c) = Some u \<and>
      unit_Status p \<noteq> unit_Status u \<and> usc_FromStatus c = unit_Status p \<and> usc_ToStatus c = unit_Status u)"
proof -
  have "c \<in> UnitsChanged (diffUnits prior next) \<longleftrightarrow>
    (\<exists>u p. u \<in> set (map_units next) \<and> unitsByName prior (unit_Unit u) = Some p \<and>
       unit_Status p \<noteq> unit_Status u \<and>
       c = \<lparr>usc_Unit = unit_Unit u, usc_FromStatus = unit_Status p, usc_ToStatus = unit_Status u\<rparr>)"
    by (auto simp: diffUnits_def Let_def split: option.splits if_splits; metis)
  also have "\<dots> \<longleftrightarrow> (\<exists>p u. unitsByName prior (usc_Unit c) = Some p \<and> unitsByName next (usc_Unit c) = Some u \<and>
      unit_Status p \<noteq> unit_Status u \<and> usc_FromStatus c = unit_Status p \<and> usc_ToStatus c = unit_Status u)"
    by (cases c) (auto simp: map_units_iff dest: unitsByName_SomeD)
  finally show ?thesis .
qed

lemma diffUnits_fields [simp]: "FieldsChanged (diffUnits prior next) = []"
  by (simp add: diffUnits_def Let_def)

lemma patch_diffUnits: "patch_units (diffUnits prior next) (status_by_name prior) n = set_option (status_by_name next n)"
proof -
  have rem: "n \<in> unit_Unit ` UnitsRemoved (diffUnits prior next) \<longleftrightarrow>
      unitsByName prior n \<noteq> None \<and> unitsByName next n = None"
    (is "?l \<longleftrightarrow> ?r")
  proof
    assume ?l
    then show ?r using removed_iff by auto
  next
    assume ?r
    then obtain p where p: "unitsByName prior n = Some p" "unitsByName next n = None" by auto
    then have "unit_Unit p = n" using unitsByName_SomeD by blast
    with p show ?l using removed_iff [of p prior "next"] by force
  qed
  have add: "{u \<in> UnitsAdded (diffUnits prior next). unit_Unit u = n} =
      (if unitsByName prior n = None then set_option (unitsByName next n) else {})"
    by (auto simp: added_iff dest: unitsByName_SomeD)
  have chg: "{c \<in> UnitsChanged (diffUnits prior next). usc_Unit c = n} =
      (case (unitsByName prior n, unitsByName next n) of
         (Some p, Some u) \<Rightarrow> if unit_Status p \<noteq> unit_Status u
            then {\<lparr>usc_Unit = n, usc_FromStatus = unit_Status p, usc_ToStatus = unit_Status u\<rparr>} else {}
       | _ \<Rightarrow> {})"
    by (auto simp: changed_iff split: option.splits)
  have usc: "n \<in> usc_Unit ` UnitsChanged (diffUnits prior next) \<longleftrightarrow>
      {c \<in> UnitsChanged (diffUnits prior next). usc_Unit c = n} \<noteq> {}"
    by auto
  have chg': "{c \<in> UnitsChanged (diffUnits prior next). usc_Unit c = n \<and> status_by_name prior n = Some (usc_FromStatus c)} =
      {c \<in> UnitsChanged (diffUnits prior next). usc_Unit c = n}"
    by (auto simp: changed_iff status_by_name_def)
  show ?thesis
    unfolding patch_units_def rem add usc chg chg'
    by (auto simp: status_by_name_def split: option.splits)
qed

lemma appendFieldChange_units [simp]:
  "UnitsAdded (appendFieldChange f a b d) = UnitsAdded d"
  "UnitsRemoved (appendFieldChange f a b d) = UnitsRemoved d"
  "UnitsChanged (appendFieldChange f a b d) = UnitsChanged d"
  by (simp_all add: appendFieldChange_def)

lemma appendFloatFieldChange_units [simp]:
  "UnitsAdded (appendFloatFieldChange f x y d) = UnitsAdded d"
  "UnitsRemoved (appendFloatFieldChange f x y d) = UnitsRemoved d"
  "UnitsChanged (appendFloatFieldChange f x y d) = UnitsChanged d"
  by (simp_all add: appendFloatFieldChange_def)

lemma appendFieldChange_none:
  "FieldsChanged (appendFieldChange f a b d) = [] \<longleftrightarrow> a = b \<and> FieldsChanged d = []"
  by (simp add: appendFieldChange_def)

definition same_coordinate :: "rat \<Rightarrow> rat \<Rightarrow> bool" where
  "same_coordinate x y \<longleftrightarrow> \<bar>x - y\<bar> \<le> 1/1000000 \<or> fixed6 x = fixed6 y"

lemma appendFloatFieldChange_none:
  "FieldsChanged (appendFloatFieldChange f x y d) = [] \<longleftrightarrow> same_coordinate x y \<and> FieldsChanged d = []"
  by (auto simp: appendFloatFieldChange_def same_coordinate_def appendFieldChange_none not_less)

lemma diffUnits_Empty: "delta_Empty (diffUnits prior next) \<longleftrightarrow> status_by_name prior = status_by_name next"
proof
  assume e: "delta_Empty (diffUnits prior next)"
  have "set_option (status_by_name next n) = set_option (status_by_name prior n)" for n
    using patch_diffUnits [of prior "next" n] e
    by (simp add: patch_units_def delta_Empty_def)
  then show "status_by_name prior = status_by_name next"
    by (metis ext option.set_sel elem_set set_empty_eq option.exhaust_sel)
next
  assume eq: "status_by_name prior = status_by_name next"
  have "(unitsByName prior n = None) = (unitsByName next n = None)" for n
    using fun_cong [OF eq, of n] by (auto simp: status_by_name_def)
  moreover have "unitsByName prior n = Some p \<Longrightarrow> unitsByName next n = Some u \<Longrightarrow> unit_Status p = unit_Status u" for n p u
    using fun_cong [OF eq, of n] by (simp add: status_by_name_def)
  ultimately show "delta_Empty (diffUnits prior next)"
    unfolding delta_Empty_def
    using added_iff [of _ prior "next"] removed_iff [of _ prior "next"] changed_iff [of _ prior "next"]
    by (metis diffUnits_fields equals0I option.distinct(1))
qed

definition prior_status :: "priorIncident option \<Rightarrow> (string \<rightharpoonup> string)" where
  "prior_status prior = (case prior of None \<Rightarrow> Map.empty | Some p \<Rightarrow> status_by_name (prior_Units p))"

definition unchanged_incident :: "priorIncident \<Rightarrow> Incident \<Rightarrow> bool" where
  "unchanged_incident p inc \<longleftrightarrow>
     status_by_name (prior_Units p) = status_by_name (inc_Units inc) \<and>
     prior_NatureCode p = inc_NatureCode inc \<and> prior_NatureDesc p = inc_NatureDesc inc \<and>
     prior_Channel p = inc_Channel inc \<and> prior_SymbolCode p = inc_SymbolCode inc \<and>
     prior_LocationText p = inc_LocationText inc \<and>
     same_coordinate (prior_Lon p) (inc_Lon inc) \<and> same_coordinate (prior_Lat p) (inc_Lat inc)"

lemma buildIncidentDelta_Empty:
  "delta_Empty (buildIncidentDelta (Some p) inc) \<longleftrightarrow> unchanged_incident p inc"
proof -
  have "delta_Empty (buildIncidentDelta (Some p) inc) \<longleftrightarrow>
    delta_Empty (diffUnits (prior_Units p) (inc_Units inc)) \<and> FieldsChanged (buildIncidentDelta (Some p) inc) = []"
    by (auto simp: delta_Empty_def buildIncidentDelta_def)
  then show ?thesis
    by (auto simp: diffUnits_Empty unchanged_incident_def buildIncidentDelta_def
        appendFieldChange_none appendFloatFieldChange_none)
qed

text \<open>
  C21. The delta an event carries is a patch: applied to the unit statuses of the prior observation
  it gives exactly those of the new one, and it is empty exactly when no unit status, text field or
  coordinate changed.
\<close>

theorem buildIncidentDelta_patch:
  "patch_units (buildIncidentDelta prior inc) (prior_status prior) n =
     set_option (status_by_name (inc_Units inc) n) \<and>
   delta_Empty (buildIncidentDelta prior inc) =
     (case prior of
        None \<Rightarrow> status_by_name (inc_Units inc) = Map.empty
      | Some p \<Rightarrow> unchanged_incident p inc)"
proof (cases prior)
  case None
  have "status_by_name [] = Map.empty" by (simp add: status_by_name_def fun_eq_iff)
  then show ?thesis
    using patch_diffUnits [of "[]" "inc_Units inc" n] diffUnits_Empty [of "[]" "inc_Units inc"]
    by (auto simp: None prior_status_def buildIncidentDelta_def)
next
  case (Some p)
  have "patch_units (buildIncidentDelta prior inc) (prior_status prior) n =
    patch_units (diffUnits (prior_Units p) (inc_Units inc)) (status_by_name (prior_Units p)) n"
    by (simp add: Some prior_status_def patch_units_def buildIncidentDelta_def)
  then show ?thesis
    using buildIncidentDelta_Empty [of p inc] by (simp add: Some patch_diffUnits)
qed

end
