(* ===== verification/Database.thy ===== *)
theory Database
  imports Delta "HOL-Library.Multiset"
begin

text \<open>
  The tables of \<^verbatim>\<open>db/schema.sql\<close> and its migrations that the program reads and writes, as a
  record of row lists in insertion order, with the sequences behind their \<^verbatim>\<open>BIGSERIAL\<close> keys.

  Text columns that every writer of the program fills are strings; a column the program leaves
  NULL is an option. A statement that fails is a fault the environment chooses (\<^verbatim>\<open>faults\<close>): the
  statements themselves are total functions of the tables. A transaction that fails leaves the
  tables as they were; so does its sequence, where the real one may skip numbers.
\<close>

section \<open>Rows\<close>

record poll_notes =
  note_classification :: PollClassification
  note_reason :: string
  note_unchanged_since :: "time option"

record source_poll =
  sp_poll_id :: int
  sp_source :: string
  sp_request_url :: string
  sp_started_at :: time
  sp_finished_at :: time
  sp_status_code :: int
  sp_latency_ms :: int
  sp_feature_count :: int
  sp_payload_sha256 :: "string option"
  sp_parser_version :: string
  sp_success :: bool
  sp_error :: "string option"
  sp_notes :: "poll_notes option"

record incident_row =
  ir_id :: int
  ir_source :: string
  ir_incident_id :: string
  ir_nature_code :: string
  ir_nature_desc :: string
  ir_units :: "Unit list"
  ir_channel :: string
  ir_symbol_code :: string
  ir_location_text :: string
  ir_lon :: rat
  ir_lat :: rat
  ir_incident_date :: time
  ir_received_at :: time
  ir_last_seen_at :: time
  ir_last_seen_poll_id :: int
  ir_missing_since :: "time option"
  ir_cleared_at :: "time option"
  ir_reopen_count :: int
  ir_raw :: "string option"
  ir_raw_dropped_at :: "time option"

record incident_unit =
  iu_id :: int
  iu_source :: string
  iu_incident_id :: string
  iu_unit :: string
  iu_status :: string
  iu_first_observed_at :: time
  iu_last_observed_at :: time
  iu_first_poll_id :: int
  iu_last_poll_id :: int

datatype event_delta = NoDelta | UpsertDelta incidentDelta | ClearedDelta time

record incident_event =
  ev_id :: int
  ev_source :: string
  ev_incident_id :: string
  ev_event_type :: string
  ev_occurred_at :: time
  ev_poll_id :: int
  ev_delta :: event_delta

record contract_canary_row =
  cc_source :: string
  cc_checked_at :: time
  cc_expected_fields :: "string list"
  cc_actual_fields :: "string list"
  cc_output_sr :: "int option"
  cc_feature_count :: int
  cc_geom_plausible :: bool
  cc_drift :: "string option"
  cc_passed :: bool
  cc_parser_version :: string

record dispatch_transcript =
  dt_id :: int
  dt_wav_filename :: string
  dt_captured_at :: time
  dt_received_at :: time
  dt_audio_duration_s :: "float64 option"
  dt_display_text :: string
  dt_primary_text :: "string option"
  dt_secondary_text :: "string option"
  dt_primary_model :: "string option"
  dt_secondary_model :: "string option"
  dt_primary_avg_logprob :: "float64 option"
  dt_verification_confidence :: "float64 option"
  dt_verification_agreement :: "float64 option"
  dt_review_recommended :: bool
  dt_domain_keyword_matches :: "string list"
  dt_domain_keyword_ratio :: "float64 option"
  dt_raw_payload :: string
  dt_parsed_incident_id :: "int option"
  dt_parsed_at :: "time option"
  dt_geocode_attempts :: "int option"

record api_key =
  ak_id :: int
  ak_key_hash :: string
  ak_tier :: string
  ak_label :: string
  ak_created_at :: time
  ak_revoked_at :: "time option"
  ak_owner_email :: "string option"

record geocode_entry =
  gc_address :: string
  gc_lon :: "rat option"
  gc_lat :: "rat option"
  gc_geocoded_at :: time
  gc_success :: bool
  gc_hits :: int

record database =
  source_polls :: "source_poll list"
  incidents :: "incident_row list"
  incident_units :: "incident_unit list"
  incident_events :: "incident_event list"
  contract_canary :: "contract_canary_row list"
  dispatch_transcripts :: "dispatch_transcript list"
  api_keys :: "api_key list"
  geocode_cache :: "geocode_entry list"
  seq_poll :: int
  seq_incident :: int
  seq_unit :: int
  seq_event :: int
  seq_transcript :: int
  seq_key :: int

definition empty_db :: database where
  "empty_db =
     \<lparr>source_polls = [], incidents = [], incident_units = [], incident_events = [],
      contract_canary = [], dispatch_transcripts = [], api_keys = [], geocode_cache = [],
      seq_poll = 1, seq_incident = 1, seq_unit = 1, seq_event = 1, seq_transcript = 1, seq_key = 1\<rparr>"

section \<open>Faults\<close>

text \<open>
  The statements and transaction boundaries at which the database can return an error. A fault
  function says which of them fail, and may look at the tables to tell two executions of the same
  statement apart.
\<close>

datatype db_call =
    RecordPollStmt
  | MarkSucceededStmt int
  | MarkFailedStmt int
  | BeginUpsert string string
  | LoadPriorStmt string string
  | UpsertStmt string string
  | LatestUnitStmt string string string
  | ExtendUnitStmt string string string
  | InsertUnitStmt string string string
  | InsertEventStmt string string string
  | CommitUpsert string string
  | MarkMissingStmt
  | SweepStmt
  | BeginEvents
  | CommitEvents
  | BeginParse
  | LockTranscriptStmt
  | ParserPollStmt
  | SDRIncidentStmt string
  | SDRUnitStmt string string
  | MarkParsedStmt int
  | GeocodeAttemptStmt int
  | CommitParse
  | GeocodeLookupStmt string
  | GeocodeStoreStmt string
  | DropRawStmt
  | ClearStaleStmt
  | LookupKeyStmt string
  | CreateKeyStmt
  | ReadStmt string
  | RecordCanaryStmt
  | InsertTranscriptStmt string
  | BeginBackfill
  | BackfillStmt string string string
  | CommitBackfill

type_synonym faults = "db_call \<Rightarrow> database \<Rightarrow> error option"

definition no_faults :: faults where "no_faults c d = None"

section \<open>Integrity\<close>

definition incident_key :: "incident_row \<Rightarrow> string \<times> string" where
  "incident_key r = (ir_source r, ir_incident_id r)"

definition find_incident :: "string \<Rightarrow> string \<Rightarrow> database \<Rightarrow> incident_row option" where
  "find_incident src iid d =
     List.find (\<lambda>r. ir_source r = src \<and> ir_incident_id r = iid) (incidents d)"

text \<open>
  The primary keys, the unique index on \<^verbatim>\<open>incidents.id\<close>, the foreign keys, and the intervals of
  the unit history.
\<close>

definition keys_ok :: "database \<Rightarrow> bool" where
  "keys_ok d \<longleftrightarrow>
     0 < seq_poll d \<and> distinct (map sp_poll_id (source_polls d)) \<and> list_all (\<lambda>p. sp_poll_id p < seq_poll d) (source_polls d) \<and>
     distinct (map incident_key (incidents d)) \<and>
     distinct (map ir_id (incidents d)) \<and> list_all (\<lambda>r. ir_id r < seq_incident d) (incidents d) \<and>
     distinct (map iu_id (incident_units d)) \<and> list_all (\<lambda>u. iu_id u < seq_unit d) (incident_units d) \<and>
     distinct (map ev_id (incident_events d)) \<and> list_all (\<lambda>e. ev_id e < seq_event d) (incident_events d)"

definition refs_ok :: "database \<Rightarrow> bool" where
  "refs_ok d \<longleftrightarrow>
     list_all (\<lambda>r. ir_last_seen_poll_id r \<in> sp_poll_id ` set (source_polls d)) (incidents d) \<and>
     list_all (\<lambda>u. (iu_source u, iu_incident_id u) \<in> incident_key ` set (incidents d) \<and>
         iu_first_poll_id u \<in> sp_poll_id ` set (source_polls d) \<and>
         iu_last_poll_id u \<in> sp_poll_id ` set (source_polls d)) (incident_units d) \<and>
     list_all (\<lambda>e. (ev_source e, ev_incident_id e) \<in> incident_key ` set (incidents d) \<and>
         ev_poll_id e \<in> sp_poll_id ` set (source_polls d)) (incident_events d)"

definition db_ok :: "database \<Rightarrow> bool" where
  "db_ok d \<longleftrightarrow> keys_ok d \<and> refs_ok d"

lemma empty_db_ok: "db_ok empty_db"
  by (simp add: db_ok_def keys_ok_def refs_ok_def empty_db_def)

lemma find_incident_SomeD:
  "find_incident src iid d = Some r \<Longrightarrow> r \<in> set (incidents d) \<and> ir_source r = src \<and> ir_incident_id r = iid"
  by (auto simp: find_incident_def dest: find_SomeD)

lemma find_incident_None:
  "find_incident src iid d = None \<longleftrightarrow> (src, iid) \<notin> incident_key ` set (incidents d)"
  by (auto simp: find_incident_def find_None_set incident_key_def)

lemma find_incident_row:
  assumes "keys_ok d" "r \<in> set (incidents d)"
  shows "find_incident (ir_source r) (ir_incident_id r) d = Some r"
proof -
  have "List.find (\<lambda>x. incident_key x = incident_key r) (incidents d) = Some r"
    using assms by (intro find_unique) (auto simp: keys_ok_def)
  then show ?thesis by (simp add: find_incident_def incident_key_def)
qed

end
