(* ===== verification/Incident_Store.thy ===== *)
theory Incident_Store
  imports Database
begin

text \<open>
  The writes of \<^verbatim>\<open>internal/store\<close> that the ingester makes: the poll audit
  (\<^verbatim>\<open>store.go\<close>: \<^verbatim>\<open>recordPoll\<close>, \<^verbatim>\<open>MarkPollSucceeded\<close>, \<^verbatim>\<open>MarkPollFailed\<close>), the
  incident upsert with its unit history and events (\<^verbatim>\<open>incident_history.go\<close>), and the clearing
  statements (\<^verbatim>\<open>MarkMissing\<close>, \<^verbatim>\<open>SweepCleared\<close>, \<^verbatim>\<open>RecordClearedEvents\<close>).

  Each operation takes the faults, and returns its error, if any, and the database after it.
\<close>

section \<open>The poll audit\<close>

definition nullif_empty :: "string \<Rightarrow> string option" where
  "nullif_empty s = (if s = [] then None else Some s)"

definition pollErrorString :: "error option \<Rightarrow> string" where
  "pollErrorString e = (case e of None \<Rightarrow> [] | Some m \<Rightarrow> m)"

definition recordPoll :: "faults \<Rightarrow> PollResult \<Rightarrow> bool \<Rightarrow> string \<Rightarrow> database \<Rightarrow> (error + int) \<times> database" where
  "recordPoll fault r success errStr d =
     (case fault RecordPollStmt d of
        Some e \<Rightarrow> (Inl e, d)
      | None \<Rightarrow>
          (let notes = \<lparr>note_classification = res_Classification r, note_reason = res_Reason r,
                        note_unchanged_since = res_UnchangedSince r\<rparr>;
               row = \<lparr>sp_poll_id = seq_poll d, sp_source = res_Source r,
                      sp_request_url = res_RequestURL r, sp_started_at = res_StartedAt r,
                      sp_finished_at = res_FinishedAt r, sp_status_code = res_StatusCode r,
                      sp_latency_ms = res_LatencyMS r,
                      sp_feature_count = int (length (res_Incidents r)),
                      sp_payload_sha256 = nullif_empty (res_PayloadSHA256 r),
                      sp_parser_version = res_ParserVersion r, sp_success = success,
                      sp_error = nullif_empty errStr, sp_notes = Some notes\<rparr>
           in (Inr (seq_poll d),
               d\<lparr>source_polls := source_polls d @ [row], seq_poll := seq_poll d + 1\<rparr>)))"

definition RecordPoll :: "faults \<Rightarrow> PollResult \<Rightarrow> database \<Rightarrow> (error + int) \<times> database" where
  "RecordPoll fault r d = recordPoll fault r (Success r) (pollErrorString (res_Err r)) d"

definition pending_error :: string where
  "pending_error = ''poll apply pending''"

definition RecordPollPending :: "faults \<Rightarrow> PollResult \<Rightarrow> database \<Rightarrow> (error + int) \<times> database" where
  "RecordPollPending fault r d = recordPoll fault r False pending_error d"

definition MarkPollSucceeded :: "faults \<Rightarrow> int \<Rightarrow> database \<Rightarrow> error option \<times> database" where
  "MarkPollSucceeded fault pollID d =
     (case fault (MarkSucceededStmt pollID) d of
        Some e \<Rightarrow> (Some e, d)
      | None \<Rightarrow>
          (None, d\<lparr>source_polls := update_where (\<lambda>p. sp_poll_id p = pollID)
                     (\<lambda>p. p\<lparr>sp_success := True, sp_error := None\<rparr>) (source_polls d)\<rparr>))"

definition MarkPollFailed :: "faults \<Rightarrow> int \<Rightarrow> error \<Rightarrow> database \<Rightarrow> error option \<times> database" where
  "MarkPollFailed fault pollID applyErr d =
     (case fault (MarkFailedStmt pollID) d of
        Some e \<Rightarrow> (Some e, d)
      | None \<Rightarrow>
          (None, d\<lparr>source_polls := update_where (\<lambda>p. sp_poll_id p = pollID)
                     (\<lambda>p. p\<lparr>sp_success := False, sp_error := nullif_empty applyErr\<rparr>) (source_polls d)\<rparr>))"

section \<open>The upsert transaction\<close>

definition loadPriorIncident :: "string \<Rightarrow> string \<Rightarrow> database \<Rightarrow> priorIncident option" where
  "loadPriorIncident src iid d =
     map_option (\<lambda>r.
       \<lparr>prior_NatureCode = ir_nature_code r, prior_NatureDesc = ir_nature_desc r,
        prior_Units = ir_units r, prior_Channel = ir_channel r, prior_SymbolCode = ir_symbol_code r,
        prior_LocationText = ir_location_text r, prior_Lon = ir_lon r, prior_Lat = ir_lat r,
        prior_ClearedAt = ir_cleared_at r\<rparr>) (find_incident src iid d)"

definition inserted_row :: "int \<Rightarrow> Incident \<Rightarrow> int \<Rightarrow> time \<Rightarrow> incident_row" where
  "inserted_row i inc pollID observedAt =
     \<lparr>ir_id = i, ir_source = inc_Source inc, ir_incident_id = inc_IncidentID inc,
      ir_nature_code = inc_NatureCode inc, ir_nature_desc = inc_NatureDesc inc,
      ir_units = inc_Units inc, ir_channel = inc_Channel inc, ir_symbol_code = inc_SymbolCode inc,
      ir_location_text = inc_LocationText inc, ir_lon = inc_Lon inc, ir_lat = inc_Lat inc,
      ir_incident_date = inc_IncidentDate inc, ir_received_at = observedAt,
      ir_last_seen_at = observedAt, ir_last_seen_poll_id = pollID, ir_missing_since = None,
      ir_cleared_at = None, ir_reopen_count = 0, ir_raw = nullif_empty (inc_Raw inc),
      ir_raw_dropped_at = None\<rparr>"

definition conflict_row :: "Incident \<Rightarrow> int \<Rightarrow> time \<Rightarrow> incident_row \<Rightarrow> incident_row" where
  "conflict_row inc pollID observedAt r =
     r\<lparr>ir_nature_code := inc_NatureCode inc, ir_nature_desc := inc_NatureDesc inc,
       ir_units := inc_Units inc, ir_channel := inc_Channel inc, ir_symbol_code := inc_SymbolCode inc,
       ir_location_text := inc_LocationText inc, ir_lon := inc_Lon inc, ir_lat := inc_Lat inc,
       ir_incident_date := inc_IncidentDate inc, ir_last_seen_at := observedAt,
       ir_last_seen_poll_id := pollID, ir_missing_since := None, ir_cleared_at := None,
       ir_reopen_count :=
         (if ir_cleared_at r \<noteq> None then ir_reopen_count r + 1 else ir_reopen_count r),
       ir_raw := (if inc_Raw inc \<noteq> [] then Some (inc_Raw inc) else ir_raw r)\<rparr>"

definition upsertIncidentSnapshot :: "Incident \<Rightarrow> int \<Rightarrow> time \<Rightarrow> database \<Rightarrow> database" where
  "upsertIncidentSnapshot inc pollID observedAt d =
     (case find_incident (inc_Source inc) (inc_IncidentID inc) d of
        None \<Rightarrow>
          d\<lparr>incidents := incidents d @ [inserted_row (seq_incident d) inc pollID observedAt],
            seq_incident := seq_incident d + 1\<rparr>
      | Some _ \<Rightarrow>
          d\<lparr>incidents := update_where
               (\<lambda>r. ir_source r = inc_Source inc \<and> ir_incident_id r = inc_IncidentID inc)
               (conflict_row inc pollID observedAt) (incidents d)\<rparr>)"

definition latest_interval :: "string \<Rightarrow> string \<Rightarrow> string \<Rightarrow> database \<Rightarrow> incident_unit option" where
  "latest_interval src iid u d =
     max_by (\<lambda>r. (iu_last_observed_at r, iu_id r))
       (filter (\<lambda>r. iu_source r = src \<and> iu_incident_id r = iid \<and> iu_unit r = u) (incident_units d))"

definition insertUnitInterval :: "Incident \<Rightarrow> Unit \<Rightarrow> int \<Rightarrow> time \<Rightarrow> database \<Rightarrow> database" where
  "insertUnitInterval inc u pollID observedAt d =
     d\<lparr>incident_units := incident_units d @
         [\<lparr>iu_id = seq_unit d, iu_source = inc_Source inc, iu_incident_id = inc_IncidentID inc,
           iu_unit = unit_Unit u, iu_status = unit_Status u, iu_first_observed_at = observedAt,
           iu_last_observed_at = observedAt, iu_first_poll_id = pollID, iu_last_poll_id = pollID\<rparr>],
       seq_unit := seq_unit d + 1\<rparr>"

definition extend_interval :: "int \<Rightarrow> int \<Rightarrow> time \<Rightarrow> database \<Rightarrow> database" where
  "extend_interval i pollID observedAt d =
     d\<lparr>incident_units := update_where (\<lambda>r. iu_id r = i)
         (\<lambda>r. r\<lparr>iu_last_observed_at := observedAt, iu_last_poll_id := pollID\<rparr>) (incident_units d)\<rparr>"

definition sync_unit ::
  "faults \<Rightarrow> (string \<rightharpoonup> Unit) \<Rightarrow> Incident \<Rightarrow> int \<Rightarrow> time \<Rightarrow> Unit \<Rightarrow> database \<Rightarrow> error + database" where
  "sync_unit fault priorUnits inc pollID observedAt u d =
     (let src = inc_Source inc; iid = inc_IncidentID inc; n = unit_Unit u;
          key = src @ ''/'' @ iid @ ''/'' @ n;
          insert_unit =
            (case fault (InsertUnitStmt src iid n) d of
               Some e \<Rightarrow> Inl (''insert unit interval '' @ key @ '': '' @ e)
             | None \<Rightarrow> Inr (insertUnitInterval inc u pollID observedAt d))
      in if n = [] then Inr d
         else
           (case fault (LatestUnitStmt src iid n) d of
              Some e \<Rightarrow> Inl (''load latest unit interval '' @ key @ '': '' @ e)
            | None \<Rightarrow>
                (case latest_interval src iid n d of
                   None \<Rightarrow> insert_unit
                 | Some latest \<Rightarrow>
                     if priorUnits n \<noteq> None \<and> iu_status latest = unit_Status u
                     then (case fault (ExtendUnitStmt src iid n) d of
                             Some e \<Rightarrow> Inl (''extend unit interval '' @ key @ '': '' @ e)
                           | None \<Rightarrow> Inr (extend_interval (iu_id latest) pollID observedAt d))
                     else insert_unit)))"

fun sync_units ::
  "faults \<Rightarrow> (string \<rightharpoonup> Unit) \<Rightarrow> Incident \<Rightarrow> int \<Rightarrow> time \<Rightarrow> Unit list \<Rightarrow> database \<Rightarrow> error + database" where
  "sync_units fault priorUnits inc pollID observedAt [] d = Inr d"
| "sync_units fault priorUnits inc pollID observedAt (u # us) d =
     (case sync_unit fault priorUnits inc pollID observedAt u d of
        Inl e \<Rightarrow> Inl e
      | Inr d' \<Rightarrow> sync_units fault priorUnits inc pollID observedAt us d')"

definition syncUnitHistory ::
  "faults \<Rightarrow> priorIncident option \<Rightarrow> Incident \<Rightarrow> int \<Rightarrow> time \<Rightarrow> database \<Rightarrow> error + database" where
  "syncUnitHistory fault prior inc pollID observedAt d =
     (let priorUnits = (case prior of None \<Rightarrow> Map.empty | Some p \<Rightarrow> unitsByName (prior_Units p))
      in sync_units fault priorUnits inc pollID observedAt (inc_Units inc) d)"

definition encodeEventDelta :: "incidentDelta \<Rightarrow> event_delta" where
  "encodeEventDelta delta = (if delta_Empty delta then NoDelta else UpsertDelta delta)"

definition writeIncidentEventTx ::
  "faults \<Rightarrow> string \<Rightarrow> string \<Rightarrow> string \<Rightarrow> time \<Rightarrow> int \<Rightarrow> event_delta \<Rightarrow> database \<Rightarrow> error + database" where
  "writeIncidentEventTx fault src iid eventType occurredAt pollID delta d =
     (case fault (InsertEventStmt src iid eventType) d of
        Some e \<Rightarrow> Inl (''insert incident event '' @ src @ ''/'' @ iid @ ''/'' @ eventType @ '': '' @ e)
      | None \<Rightarrow>
          Inr (d\<lparr>incident_events := incident_events d @
                   [\<lparr>ev_id = seq_event d, ev_source = src, ev_incident_id = iid,
                     ev_event_type = eventType, ev_occurred_at = occurredAt, ev_poll_id = pollID,
                     ev_delta = delta\<rparr>],
                 seq_event := seq_event d + 1\<rparr>))"

definition writeUpsertEvent ::
  "faults \<Rightarrow> priorIncident option \<Rightarrow> Incident \<Rightarrow> int \<Rightarrow> time \<Rightarrow> database \<Rightarrow> error + database" where
  "writeUpsertEvent fault prior inc pollID observedAt d =
     (let delta = buildIncidentDelta prior inc;
          write = (\<lambda>eventType. writeIncidentEventTx fault (inc_Source inc) (inc_IncidentID inc)
                     eventType observedAt pollID (encodeEventDelta delta) d)
      in case prior of
           None \<Rightarrow> write ''created''
         | Some p \<Rightarrow>
             if prior_ClearedAt p \<noteq> None then write ''reopened''
             else if \<not> delta_Empty delta then write ''updated''
             else Inr d)"

definition upsertIncidentWithHistory ::
  "faults \<Rightarrow> Incident \<Rightarrow> int \<Rightarrow> time \<Rightarrow> database \<Rightarrow> error option \<times> database" where
  "upsertIncidentWithHistory fault inc pollID observedAt d =
     (let src = inc_Source inc; iid = inc_IncidentID inc
      in case fault (BeginUpsert src iid) d of
           Some e \<Rightarrow> (Some (''begin upsert incident: '' @ e), d)
         | None \<Rightarrow>
             (case fault (LoadPriorStmt src iid) d of
                Some e \<Rightarrow> (Some (''load prior incident '' @ src @ ''/'' @ iid @ '': '' @ e), d)
              | None \<Rightarrow>
                  (let prior = loadPriorIncident src iid d
                   in case fault (UpsertStmt src iid) d of
                        Some e \<Rightarrow> (Some (''upsert incident '' @ src @ ''/'' @ iid @ '': '' @ e), d)
                      | None \<Rightarrow>
                          (case syncUnitHistory fault prior inc pollID observedAt
                                  (upsertIncidentSnapshot inc pollID observedAt d) of
                             Inl e \<Rightarrow> (Some e, d)
                           | Inr d2 \<Rightarrow>
                               (case writeUpsertEvent fault prior inc pollID observedAt d2 of
                                  Inl e \<Rightarrow> (Some e, d)
                                | Inr d3 \<Rightarrow>
                                    (case fault (CommitUpsert src iid) d3 of
                                       Some e \<Rightarrow> (Some (''commit upsert incident: '' @ e), d)
                                     | None \<Rightarrow> (None, d3)))))))"

definition UpsertIncident ::
  "faults \<Rightarrow> Incident \<Rightarrow> int \<Rightarrow> time \<Rightarrow> database \<Rightarrow> error option \<times> database" where
  "UpsertIncident fault inc pollID observedAt d =
     upsertIncidentWithHistory fault inc pollID observedAt d"

section \<open>Clearing\<close>

definition MarkMissing ::
  "faults \<Rightarrow> string \<Rightarrow> time \<Rightarrow> string list \<Rightarrow> database \<Rightarrow> error option \<times> database" where
  "MarkMissing fault src observedAt observedIDs d =
     (case fault MarkMissingStmt d of
        Some e \<Rightarrow> (Some e, d)
      | None \<Rightarrow>
          (None, d\<lparr>incidents := update_where
             (\<lambda>r. ir_source r = src \<and> ir_cleared_at r = None \<and> ir_incident_id r \<notin> set observedIDs)
             (\<lambda>r. r\<lparr>ir_missing_since :=
                       (case ir_missing_since r of None \<Rightarrow> Some observedAt | Some t \<Rightarrow> Some t)\<rparr>)
             (incidents d)\<rparr>))"

record ClearedIncident =
  cl_Source :: string
  cl_IncidentID :: string
  cl_ClearedAt :: time

definition misses :: "database \<Rightarrow> string \<Rightarrow> time \<Rightarrow> nat" where
  "misses d src since =
     length (filter (\<lambda>p. sp_source p = src \<and> sp_success p \<and> sp_started_at p \<ge> since) (source_polls d))"

definition sweepable :: "database \<Rightarrow> string \<Rightarrow> int \<Rightarrow> incident_row \<Rightarrow> bool" where
  "sweepable d src minMisses r \<longleftrightarrow>
     ir_source r = src \<and> ir_cleared_at r = None \<and>
     (case ir_missing_since r of None \<Rightarrow> False | Some t \<Rightarrow> int (misses d src t) \<ge> minMisses)"

definition SweepCleared ::
  "faults \<Rightarrow> string \<Rightarrow> int \<Rightarrow> database \<Rightarrow> (error + ClearedIncident list) \<times> database" where
  "SweepCleared fault src minMisses d =
     (case fault SweepStmt d of
        Some e \<Rightarrow> (Inl e, d)
      | None \<Rightarrow>
          (let cleared = map (\<lambda>r. \<lparr>cl_Source = src, cl_IncidentID = ir_incident_id r,
                                   cl_ClearedAt = the (ir_missing_since r)\<rparr>)
                           (filter (sweepable d src minMisses) (incidents d))
           in (Inr cleared,
               d\<lparr>incidents := update_where (sweepable d src minMisses)
                   (\<lambda>r. r\<lparr>ir_cleared_at := ir_missing_since r\<rparr>) (incidents d)\<rparr>)))"

fun write_cleared :: "faults \<Rightarrow> ClearedIncident list \<Rightarrow> int \<Rightarrow> database \<Rightarrow> error + database" where
  "write_cleared fault [] pollID d = Inr d"
| "write_cleared fault (item # items) pollID d =
     (case writeIncidentEventTx fault (cl_Source item) (cl_IncidentID item) ''cleared''
             (cl_ClearedAt item) pollID (ClearedDelta (cl_ClearedAt item)) d of
        Inl e \<Rightarrow> Inl e
      | Inr d' \<Rightarrow> write_cleared fault items pollID d')"

definition RecordClearedEvents ::
  "faults \<Rightarrow> ClearedIncident list \<Rightarrow> int \<Rightarrow> database \<Rightarrow> error option \<times> database" where
  "RecordClearedEvents fault cleared pollID d =
     (if cleared = [] then (None, d)
      else
        (case fault BeginEvents d of
           Some e \<Rightarrow> (Some (''begin cleared events: '' @ e), d)
         | None \<Rightarrow>
             (case write_cleared fault cleared pollID d of
                Inl e \<Rightarrow> (Some e, d)
              | Inr d' \<Rightarrow>
                  (case fault CommitEvents d' of
                     Some e \<Rightarrow> (Some (''commit cleared events: '' @ e), d)
                   | None \<Rightarrow> (None, d')))))"

section \<open>What each statement leaves alone\<close>

lemma sync_unit_frame:
  "sync_unit fault pu inc pid ot u d = Inr d' \<Longrightarrow>
   \<exists>us n. d' = d\<lparr>incident_units := us, seq_unit := n\<rparr>"
proof -
  assume a: "sync_unit fault pu inc pid ot u d = Inr d'"
  have d: "\<exists>us n. d = d\<lparr>incident_units := us, seq_unit := n\<rparr>"
    by (rule exI [of _ "incident_units d"], rule exI [of _ "seq_unit d"]) simp
  have e: "\<exists>us n. extend_interval i pid ot d = d\<lparr>incident_units := us, seq_unit := n\<rparr>" for i
    unfolding extend_interval_def by (rule exI, rule exI [of _ "seq_unit d"]) simp
  show ?thesis
    using a d e by (auto simp: sync_unit_def Let_def insertUnitInterval_def split: option.splits if_splits)
qed

lemma sync_units_frame:
  "sync_units fault pu inc pid ot us d = Inr d' \<Longrightarrow>
   \<exists>vs n. d' = d\<lparr>incident_units := vs, seq_unit := n\<rparr>"
proof (induction us arbitrary: d)
  case Nil
  then show ?case
    by (intro exI [of _ "incident_units d"] exI [of _ "seq_unit d"]) simp
next
  case (Cons u us)
  then obtain d1 where d1: "sync_unit fault pu inc pid ot u d = Inr d1"
    "sync_units fault pu inc pid ot us d1 = Inr d'"
    by (auto split: sum.splits)
  obtain us' n where 1: "d1 = d\<lparr>incident_units := us', seq_unit := n\<rparr>"
    using sync_unit_frame [OF d1(1)] by blast
  obtain vs m where "d' = d1\<lparr>incident_units := vs, seq_unit := m\<rparr>"
    using Cons.IH [OF d1(2)] by blast
  then have "d' = d\<lparr>incident_units := vs, seq_unit := m\<rparr>" using 1 by simp
  then show ?case by blast
qed

lemma writeIncidentEventTx_frame:
  "writeIncidentEventTx fault src iid t ot pid delta d = Inr d' \<Longrightarrow>
   \<exists>e. d' = d\<lparr>incident_events := incident_events d @ [e], seq_event := seq_event d + 1\<rparr> \<and>
       ev_id e = seq_event d \<and> ev_source e = src \<and> ev_incident_id e = iid \<and> ev_event_type e = t \<and>
       ev_occurred_at e = ot \<and> ev_poll_id e = pid \<and> ev_delta e = delta"
  by (auto simp: writeIncidentEventTx_def split: option.splits)

definition upsert_event_type :: "priorIncident option \<Rightarrow> Incident \<Rightarrow> string option" where
  "upsert_event_type prior inc =
     (case prior of
        None \<Rightarrow> Some ''created''
      | Some p \<Rightarrow>
          if prior_ClearedAt p \<noteq> None then Some ''reopened''
          else if unchanged_incident p inc then None else Some ''updated'')"

lemma writeUpsertEvent_frame:
  assumes "writeUpsertEvent fault prior inc pid ot d = Inr d'"
  shows "case upsert_event_type prior inc of
      None \<Rightarrow> d' = d
    | Some t \<Rightarrow> (\<exists>e. d' = d\<lparr>incident_events := incident_events d @ [e], seq_event := seq_event d + 1\<rparr> \<and>
       ev_id e = seq_event d \<and> ev_source e = inc_Source inc \<and> ev_incident_id e = inc_IncidentID inc \<and>
       ev_event_type e = t \<and> ev_occurred_at e = ot \<and> ev_poll_id e = pid \<and>
       ev_delta e = encodeEventDelta (buildIncidentDelta prior inc))"
  using assms writeIncidentEventTx_frame
  by (auto simp: writeUpsertEvent_def upsert_event_type_def Let_def buildIncidentDelta_Empty
      split: option.splits if_splits)

text \<open>
  What a committed upsert does: the incident row, the units of that incident, at most one event.
\<close>

lemma UpsertIncident_failed: "UpsertIncident fault inc pid ot d = (Some e, d') \<Longrightarrow> d' = d"
  by (auto simp: UpsertIncident_def upsertIncidentWithHistory_def Let_def split: option.splits sum.splits)

lemma UpsertIncident_committed:
  assumes "UpsertIncident fault inc pid ot d = (None, d')"
  obtains d2 where
    "syncUnitHistory fault (loadPriorIncident (inc_Source inc) (inc_IncidentID inc) d) inc pid ot
       (upsertIncidentSnapshot inc pid ot d) = Inr d2"
    "writeUpsertEvent fault (loadPriorIncident (inc_Source inc) (inc_IncidentID inc) d) inc pid ot d2 = Inr d'"
  using assms
  by (auto simp: UpsertIncident_def upsertIncidentWithHistory_def Let_def split: option.splits sum.splits)

lemma upsertIncidentSnapshot_frame:
  "source_polls (upsertIncidentSnapshot inc pid ot d) = source_polls d"
  "incident_units (upsertIncidentSnapshot inc pid ot d) = incident_units d"
  "incident_events (upsertIncidentSnapshot inc pid ot d) = incident_events d"
  "seq_poll (upsertIncidentSnapshot inc pid ot d) = seq_poll d"
  "seq_unit (upsertIncidentSnapshot inc pid ot d) = seq_unit d"
  "seq_event (upsertIncidentSnapshot inc pid ot d) = seq_event d"
  "dispatch_transcripts (upsertIncidentSnapshot inc pid ot d) = dispatch_transcripts d"
  "contract_canary (upsertIncidentSnapshot inc pid ot d) = contract_canary d"
  "geocode_cache (upsertIncidentSnapshot inc pid ot d) = geocode_cache d"
  "api_keys (upsertIncidentSnapshot inc pid ot d) = api_keys d"
  by (simp_all add: upsertIncidentSnapshot_def split: option.split)

lemma conflict_row_key [simp]:
  "ir_source (conflict_row inc pid ot r) = ir_source r"
  "ir_incident_id (conflict_row inc pid ot r) = ir_incident_id r"
  "ir_id (conflict_row inc pid ot r) = ir_id r"
  "ir_missing_since (conflict_row inc pid ot r) = None"
  "ir_cleared_at (conflict_row inc pid ot r) = None"
  "ir_last_seen_poll_id (conflict_row inc pid ot r) = pid"
  "ir_units (conflict_row inc pid ot r) = inc_Units inc"
  "incident_key (conflict_row inc pid ot r) = incident_key r"
  by (simp_all add: conflict_row_def incident_key_def)

lemma inserted_row_key [simp]:
  "ir_source (inserted_row i inc pid ot) = inc_Source inc"
  "ir_incident_id (inserted_row i inc pid ot) = inc_IncidentID inc"
  "ir_id (inserted_row i inc pid ot) = i"
  "ir_missing_since (inserted_row i inc pid ot) = None"
  "ir_cleared_at (inserted_row i inc pid ot) = None"
  "ir_last_seen_poll_id (inserted_row i inc pid ot) = pid"
  "ir_units (inserted_row i inc pid ot) = inc_Units inc"
  "incident_key (inserted_row i inc pid ot) = (inc_Source inc, inc_IncidentID inc)"
  by (simp_all add: inserted_row_def incident_key_def)

lemma find_incident_upsert:
  "find_incident src iid (upsertIncidentSnapshot inc pid ot d) =
     (if src = inc_Source inc \<and> iid = inc_IncidentID inc
      then Some (case find_incident src iid d of
                   None \<Rightarrow> inserted_row (seq_incident d) inc pid ot
                 | Some r \<Rightarrow> conflict_row inc pid ot r)
      else find_incident src iid d)"
proof (cases "find_incident (inc_Source inc) (inc_IncidentID inc) d")
  case None
  then show ?thesis
    by (auto simp: upsertIncidentSnapshot_def find_incident_def find_append split: option.split)
next
  case (Some r)
  have "find_incident src iid (upsertIncidentSnapshot inc pid ot d) =
    map_option (\<lambda>r. if ir_source r = inc_Source inc \<and> ir_incident_id r = inc_IncidentID inc
       then conflict_row inc pid ot r else r) (find_incident src iid d)"
    using Some by (simp add: upsertIncidentSnapshot_def find_incident_def find_update_where)
  then show ?thesis
    using Some find_incident_SomeD [of src iid d] by (cases "find_incident src iid d") auto
qed

lemma find_incident_cong: "incidents d = incidents d' \<Longrightarrow> find_incident src iid d = find_incident src iid d'"
  by (simp add: find_incident_def)

lemma UpsertIncident_frame:
  assumes "UpsertIncident fault inc pid ot d = (None, d')"
  shows "\<exists>us n es m. d' = (upsertIncidentSnapshot inc pid ot d)
     \<lparr>incident_units := us, seq_unit := n, incident_events := es, seq_event := m\<rparr>"
proof -
  from assms obtain d2 where d2:
    "syncUnitHistory fault (loadPriorIncident (inc_Source inc) (inc_IncidentID inc) d) inc pid ot
       (upsertIncidentSnapshot inc pid ot d) = Inr d2"
    "writeUpsertEvent fault (loadPriorIncident (inc_Source inc) (inc_IncidentID inc) d) inc pid ot d2 = Inr d'"
    by (rule UpsertIncident_committed)
  obtain us n where s: "d2 = (upsertIncidentSnapshot inc pid ot d)\<lparr>incident_units := us, seq_unit := n\<rparr>"
    using sync_units_frame d2(1) unfolding syncUnitHistory_def Let_def by blast
  obtain es m where "d' = d2\<lparr>incident_events := es, seq_event := m\<rparr>"
  proof (cases "upsert_event_type (loadPriorIncident (inc_Source inc) (inc_IncidentID inc) d) inc")
    case None
    then have "d' = d2\<lparr>incident_events := incident_events d2, seq_event := seq_event d2\<rparr>"
      using writeUpsertEvent_frame [OF d2(2)] by simp
    then show ?thesis by (rule that)
  next
    case (Some t)
    then obtain e where "d' = d2\<lparr>incident_events := incident_events d2 @ [e], seq_event := seq_event d2 + 1\<rparr>"
      using writeUpsertEvent_frame [OF d2(2)] by auto
    then show ?thesis by (rule that)
  qed
  then have "d' = (upsertIncidentSnapshot inc pid ot d)
     \<lparr>incident_units := us, seq_unit := n, incident_events := es, seq_event := m\<rparr>"
    by (simp add: s)
  then show ?thesis by blast
qed

lemma UpsertIncident_effect:
  assumes "UpsertIncident fault inc pid ot d = (None, d')"
  shows "source_polls d' = source_polls d" "seq_poll d' = seq_poll d"
    "incidents d' = incidents (upsertIncidentSnapshot inc pid ot d)"
    "find_incident src iid d' = find_incident src iid (upsertIncidentSnapshot inc pid ot d)"
  using UpsertIncident_frame [OF assms]
  by (auto simp: upsertIncidentSnapshot_frame find_incident_def)

section \<open>Every statement keeps the integrity constraints\<close>

definition poll_known :: "int \<Rightarrow> database \<Rightarrow> bool" where
  "poll_known pid d \<longleftrightarrow> pid \<in> sp_poll_id ` set (source_polls d)"

definition incident_known :: "string \<Rightarrow> string \<Rightarrow> database \<Rightarrow> bool" where
  "incident_known src iid d \<longleftrightarrow> (src, iid) \<in> incident_key ` set (incidents d)"

lemmas db_ok_defs = db_ok_def keys_ok_def refs_ok_def poll_known_def incident_known_def

lemma recordPoll_cases:
  obtains (failed) e where "recordPoll fault r s m d = (Inl e, d)" "fault RecordPollStmt d = Some e"
  | (stored) row where
      "recordPoll fault r s m d =
         (Inr (seq_poll d), d\<lparr>source_polls := source_polls d @ [row], seq_poll := seq_poll d + 1\<rparr>)"
      "fault RecordPollStmt d = None"
      "sp_poll_id row = seq_poll d" "sp_source row = res_Source r" "sp_started_at row = res_StartedAt r"
      "sp_success row = s" "sp_error row = nullif_empty m" "sp_feature_count row = int (length (res_Incidents r))"
      "sp_parser_version row = res_ParserVersion r"
      "sp_notes row = Some \<lparr>note_classification = res_Classification r, note_reason = res_Reason r,
                        note_unchanged_since = res_UnchangedSince r\<rparr>"
  by (cases "fault RecordPollStmt d") (simp_all add: recordPoll_def Let_def)

lemma keys_ok_append_poll:
  "keys_ok d \<Longrightarrow> sp_poll_id row = seq_poll d \<Longrightarrow>
   keys_ok (d\<lparr>source_polls := source_polls d @ [row], seq_poll := seq_poll d + 1\<rparr>)"
  by (auto simp: keys_ok_def list_all_iff)

lemma refs_ok_append_poll:
  "refs_ok d \<Longrightarrow> refs_ok (d\<lparr>source_polls := source_polls d @ [row], seq_poll := n\<rparr>)"
  by (fastforce simp: refs_ok_def list_all_iff)

lemma recordPoll_ok: "db_ok d \<Longrightarrow> db_ok (snd (recordPoll fault r s m d))"
  by (rule recordPoll_cases [of fault r s m d])
    (simp_all add: db_ok_def keys_ok_append_poll refs_ok_append_poll)

lemma update_polls_ok:
  assumes "db_ok d" "\<And>p. sp_poll_id (f p) = sp_poll_id p"
  shows "db_ok (d\<lparr>source_polls := update_where q f (source_polls d)\<rparr>)"
proof -
  have ids: "map sp_poll_id (update_where q f (source_polls d)) = map sp_poll_id (source_polls d)"
    by (rule map_update_where) (rule assms(2))
  have set: "sp_poll_id ` set (update_where q f (source_polls d)) = sp_poll_id ` set (source_polls d)"
    using arg_cong [OF ids, of set] by simp
  have "list_all (\<lambda>p. sp_poll_id p < n) (update_where q f (source_polls d)) =
      list_all (\<lambda>p. sp_poll_id p < n) (source_polls d)" for n
    by (rule list_all_update_where) (simp add: assms(2))
  then show ?thesis
    using assms(1) by (simp add: db_ok_def keys_ok_def refs_ok_def ids set)
qed

lemma update_incidents_ok:
  assumes "db_ok d" "\<And>r. incident_key (f r) = incident_key r" "\<And>r. ir_id (f r) = ir_id r"
    "\<And>r. ir_last_seen_poll_id (f r) = ir_last_seen_poll_id r \<or> poll_known (ir_last_seen_poll_id (f r)) d"
  shows "db_ok (d\<lparr>incidents := update_where q f (incidents d)\<rparr>)"
proof -
  let ?rows = "update_where q f (incidents d)"
  have ids: "map ir_id ?rows = map ir_id (incidents d)" and keys: "map incident_key ?rows = map incident_key (incidents d)"
    by (rule map_update_where, rule assms)+
  have set: "incident_key ` set ?rows = incident_key ` set (incidents d)"
    using arg_cong [OF keys, of set] by simp
  have "list_all (\<lambda>r. ir_id r < n) ?rows = list_all (\<lambda>r. ir_id r < n) (incidents d)" for n
    by (rule list_all_update_where) (simp add: assms(3))
  moreover have "list_all (\<lambda>r. ir_last_seen_poll_id r \<in> sp_poll_id ` set (source_polls d)) ?rows"
  proof -
    have refs: "ir_last_seen_poll_id r \<in> sp_poll_id ` set (source_polls d)" if "r \<in> set (incidents d)" for r
      using assms(1) that by (simp add: db_ok_def refs_ok_def list_all_iff)
    show ?thesis
      using refs assms(4) by (auto simp: update_where_def list_all_iff poll_known_def) metis
  qed
  ultimately show ?thesis
    using assms(1) by (simp add: db_ok_def keys_ok_def refs_ok_def ids keys set)
qed

lemma upsertIncidentSnapshot_ok:
  assumes "db_ok d" "poll_known pid d"
  shows "db_ok (upsertIncidentSnapshot inc pid ot d)"
proof (cases "find_incident (inc_Source inc) (inc_IncidentID inc) d")
  case None
  then have "(inc_Source inc, inc_IncidentID inc) \<notin> incident_key ` set (incidents d)"
    by (simp add: find_incident_None)
  then show ?thesis
    using assms None by (fastforce simp: upsertIncidentSnapshot_def db_ok_defs list_all_iff)
next
  case (Some r)
  show ?thesis
    using update_incidents_ok [OF assms(1), of "conflict_row inc pid ot"] assms(2) Some
    by (simp add: upsertIncidentSnapshot_def)
qed

lemma upsertIncidentSnapshot_known:
  "incident_known (inc_Source inc) (inc_IncidentID inc) (upsertIncidentSnapshot inc pid ot d)"
  using find_incident_upsert [of "inc_Source inc" "inc_IncidentID inc" inc pid ot d]
  by (metis find_incident_None incident_known_def option.distinct(1))

lemma insertUnitInterval_ok:
  "db_ok d \<Longrightarrow> poll_known pid d \<Longrightarrow> incident_known (inc_Source inc) (inc_IncidentID inc) d \<Longrightarrow>
   db_ok (insertUnitInterval inc u pid ot d)"
  by (auto simp: insertUnitInterval_def db_ok_defs list_all_iff)

lemma extend_interval_ok:
  assumes "db_ok d" "poll_known pid d"
  shows "db_ok (extend_interval i pid ot d)"
proof -
  let ?f = "\<lambda>r. r\<lparr>iu_last_observed_at := ot, iu_last_poll_id := pid\<rparr>"
  let ?rows = "update_where (\<lambda>r. iu_id r = i) ?f (incident_units d)"
  have ids: "map iu_id ?rows = map iu_id (incident_units d)"
    by (rule map_update_where) simp
  have "list_all (\<lambda>u. iu_id u < n) ?rows = list_all (\<lambda>u. iu_id u < n) (incident_units d)" for n
    by (rule list_all_update_where) simp
  then show ?thesis
    using assms by (auto simp: extend_interval_def db_ok_defs ids list_all_iff set_update_where)
qed

lemma known_unit_update [simp]:
  "poll_known pid (d\<lparr>incident_units := us, seq_unit := n\<rparr>) = poll_known pid d"
  "incident_known src iid (d\<lparr>incident_units := us, seq_unit := n\<rparr>) = incident_known src iid d"
  by (simp_all add: poll_known_def incident_known_def)

lemma sync_unit_ok:
  assumes "sync_unit fault pu inc pid ot u d = Inr d'" "db_ok d" "poll_known pid d"
    "incident_known (inc_Source inc) (inc_IncidentID inc) d"
  shows "db_ok d'"
  using assms insertUnitInterval_ok extend_interval_ok
  by (auto simp: sync_unit_def Let_def split: option.splits if_splits)

lemma sync_units_ok:
  assumes "sync_units fault pu inc pid ot us d = Inr d'" "db_ok d" "poll_known pid d"
    "incident_known (inc_Source inc) (inc_IncidentID inc) d"
  shows "db_ok d'"
  using assms
proof (induction us arbitrary: d)
  case Nil
  then show ?case by simp
next
  case (Cons u us)
  then obtain d1 where d1: "sync_unit fault pu inc pid ot u d = Inr d1"
    "sync_units fault pu inc pid ot us d1 = Inr d'"
    by (auto split: sum.splits)
  have "db_ok d1" by (rule sync_unit_ok [OF d1(1)]) (rule Cons.prems)+
  moreover obtain vs n where "d1 = d\<lparr>incident_units := vs, seq_unit := n\<rparr>"
    using sync_unit_frame [OF d1(1)] by blast
  ultimately show ?case using Cons.IH [OF d1(2)] Cons.prems by simp
qed

lemma append_event_ok:
  assumes "db_ok d" "poll_known (ev_poll_id e) d" "incident_known (ev_source e) (ev_incident_id e) d"
    "ev_id e = seq_event d"
  shows "db_ok (d\<lparr>incident_events := incident_events d @ [e], seq_event := seq_event d + 1\<rparr>)"
  using assms by (auto simp: db_ok_defs list_all_iff)

lemma UpsertIncident_ok:
  assumes "db_ok d" "poll_known pid d"
  shows "db_ok (snd (UpsertIncident fault inc pid ot d))"
proof (cases "UpsertIncident fault inc pid ot d")
  case (Pair e d')
  show ?thesis
  proof (cases e)
    case (Some m)
    then show ?thesis using UpsertIncident_failed Pair assms(1) by fastforce
  next
    case None
    let ?prior = "loadPriorIncident (inc_Source inc) (inc_IncidentID inc) d"
    let ?d1 = "upsertIncidentSnapshot inc pid ot d"
    obtain d2 where d2: "syncUnitHistory fault ?prior inc pid ot ?d1 = Inr d2"
      "writeUpsertEvent fault ?prior inc pid ot d2 = Inr d'"
      using Pair None by (auto elim: UpsertIncident_committed)
    have k: "poll_known pid ?d1" "incident_known (inc_Source inc) (inc_IncidentID inc) ?d1" "db_ok ?d1"
      using assms upsertIncidentSnapshot_known upsertIncidentSnapshot_ok
      by (simp_all add: poll_known_def upsertIncidentSnapshot_frame)
    have "db_ok d2"
      using sync_units_ok d2(1) k unfolding syncUnitHistory_def Let_def by blast
    moreover obtain vs n where "d2 = ?d1\<lparr>incident_units := vs, seq_unit := n\<rparr>"
      using sync_units_frame d2(1) unfolding syncUnitHistory_def Let_def by blast
    ultimately have d2k: "db_ok d2" "poll_known pid d2" "incident_known (inc_Source inc) (inc_IncidentID inc) d2"
      using k by simp_all
    have "db_ok d'"
      using writeUpsertEvent_frame [OF d2(2)] d2k append_event_ok
      by (auto split: option.splits)
    then show ?thesis using Pair by simp
  qed
qed

lemma MarkMissing_ok: "db_ok d \<Longrightarrow> db_ok (snd (MarkMissing fault src ot ids d))"
  by (simp add: MarkMissing_def update_incidents_ok incident_key_def split: option.split)

lemma SweepCleared_ok: "db_ok d \<Longrightarrow> db_ok (snd (SweepCleared fault src n d))"
  by (simp add: SweepCleared_def Let_def update_incidents_ok incident_key_def split: option.split)

lemma MarkPollSucceeded_ok: "db_ok d \<Longrightarrow> db_ok (snd (MarkPollSucceeded fault pid d))"
  by (simp add: MarkPollSucceeded_def update_polls_ok split: option.split)

lemma MarkPollFailed_ok: "db_ok d \<Longrightarrow> db_ok (snd (MarkPollFailed fault pid e d))"
  by (simp add: MarkPollFailed_def update_polls_ok split: option.split)

lemma known_event_update [simp]:
  "poll_known pid (d\<lparr>incident_events := es, seq_event := n\<rparr>) = poll_known pid d"
  "incident_known src iid (d\<lparr>incident_events := es, seq_event := n\<rparr>) = incident_known src iid d"
  by (simp_all add: poll_known_def incident_known_def)

lemma write_cleared_frame:
  "write_cleared fault items pid d = Inr d' \<Longrightarrow>
   \<exists>es m. d' = d\<lparr>incident_events := incident_events d @ es, seq_event := m\<rparr> \<and>
     map (\<lambda>e. (ev_source e, ev_incident_id e, ev_event_type e, ev_occurred_at e, ev_poll_id e)) es =
     map (\<lambda>i. (cl_Source i, cl_IncidentID i, ''cleared'', cl_ClearedAt i, pid)) items"
proof (induction items arbitrary: d)
  case Nil
  then show ?case by (intro exI [of _ "[]"] exI [of _ "seq_event d"]) simp
next
  case (Cons item items)
  then obtain d1 where d1: "writeIncidentEventTx fault (cl_Source item) (cl_IncidentID item) ''cleared''
             (cl_ClearedAt item) pid (ClearedDelta (cl_ClearedAt item)) d = Inr d1"
    "write_cleared fault items pid d1 = Inr d'"
    by (auto split: sum.splits)
  obtain e where e: "d1 = d\<lparr>incident_events := incident_events d @ [e], seq_event := seq_event d + 1\<rparr>"
    "ev_source e = cl_Source item" "ev_incident_id e = cl_IncidentID item" "ev_event_type e = ''cleared''"
    "ev_occurred_at e = cl_ClearedAt item" "ev_poll_id e = pid"
    using writeIncidentEventTx_frame [OF d1(1)] by auto
  obtain es m where es: "d' = d1\<lparr>incident_events := incident_events d1 @ es, seq_event := m\<rparr>"
    "map (\<lambda>e. (ev_source e, ev_incident_id e, ev_event_type e, ev_occurred_at e, ev_poll_id e)) es =
     map (\<lambda>i. (cl_Source i, cl_IncidentID i, ''cleared'', cl_ClearedAt i, pid)) items"
    using Cons.IH [OF d1(2)] by blast
  have "d' = d\<lparr>incident_events := incident_events d @ (e # es), seq_event := m\<rparr>"
    using es(1) by (simp add: e(1))
  then show ?case using es(2) e by (intro exI [of _ "e # es"] exI [of _ m]) simp
qed

lemma write_cleared_ok:
  assumes "write_cleared fault items pid d = Inr d'" "db_ok d" "poll_known pid d"
    "list_all (\<lambda>i. incident_known (cl_Source i) (cl_IncidentID i) d) items"
  shows "db_ok d'"
  using assms
proof (induction items arbitrary: d)
  case Nil
  then show ?case by simp
next
  case (Cons item items)
  then obtain d1 where d1: "writeIncidentEventTx fault (cl_Source item) (cl_IncidentID item) ''cleared''
             (cl_ClearedAt item) pid (ClearedDelta (cl_ClearedAt item)) d = Inr d1"
    "write_cleared fault items pid d1 = Inr d'"
    by (auto split: sum.splits)
  obtain e where e: "d1 = d\<lparr>incident_events := incident_events d @ [e], seq_event := seq_event d + 1\<rparr>"
    "ev_id e = seq_event d" "ev_source e = cl_Source item" "ev_incident_id e = cl_IncidentID item" "ev_poll_id e = pid"
    using writeIncidentEventTx_frame [OF d1(1)] by auto
  have "db_ok d1" using Cons.prems e by (simp add: append_event_ok)
  then show ?case using Cons.IH [OF d1(2)] Cons.prems e(1) by simp
qed

lemma RecordClearedEvents_ok:
  assumes "db_ok d" "poll_known pid d"
    "list_all (\<lambda>i. incident_known (cl_Source i) (cl_IncidentID i) d) items"
  shows "db_ok (snd (RecordClearedEvents fault items pid d))"
  using assms write_cleared_ok [OF _ assms]
  by (simp add: RecordClearedEvents_def split: option.split sum.split)

lemma sweep_known:
  assumes "SweepCleared fault src n d = (Inr cleared, d')"
  shows "list_all (\<lambda>i. incident_known (cl_Source i) (cl_IncidentID i) d') cleared"
    "source_polls d' = source_polls d"
proof -
  have d': "incidents d' = update_where (sweepable d src n) (\<lambda>r. r\<lparr>ir_cleared_at := ir_missing_since r\<rparr>) (incidents d)"
    and c: "cleared = map (\<lambda>r. \<lparr>cl_Source = src, cl_IncidentID = ir_incident_id r,
        cl_ClearedAt = the (ir_missing_since r)\<rparr>) (filter (sweepable d src n) (incidents d))"
    using assms by (auto simp: SweepCleared_def Let_def split: option.splits)
  have "map incident_key (incidents d') = map incident_key (incidents d)"
    unfolding d' by (rule map_update_where) (simp add: incident_key_def)
  from arg_cong [OF this, of set]
  have "incident_key ` set (incidents d') = incident_key ` set (incidents d)" by simp
  moreover have "(src, ir_incident_id r) = incident_key r" if "sweepable d src n r" for r
    using that by (simp add: incident_key_def sweepable_def)
  ultimately show "list_all (\<lambda>i. incident_known (cl_Source i) (cl_IncidentID i) d') cleared"
    by (simp add: c list_all_iff incident_known_def)
  show "source_polls d' = source_polls d"
    using assms by (auto simp: SweepCleared_def Let_def split: option.splits)
qed

section \<open>The unit history\<close>

text \<open>
  The latest interval of a unit is the one with the latest last observation. Observations that come
  in the order of time keep it in step with the snapshot of the incident.
\<close>

definition latest_status :: "string \<Rightarrow> string \<Rightarrow> database \<Rightarrow> (string \<rightharpoonup> string)" where
  "latest_status src iid d n = map_option iu_status (latest_interval src iid n d)"

definition observed_until :: "time \<Rightarrow> database \<Rightarrow> bool" where
  "observed_until ot d \<longleftrightarrow> list_all (\<lambda>r. iu_last_observed_at r \<le> ot) (incident_units d)"

definition unit_ids_ok :: "database \<Rightarrow> bool" where
  "unit_ids_ok d \<longleftrightarrow> distinct (map iu_id (incident_units d)) \<and> list_all (\<lambda>u. iu_id u < seq_unit d) (incident_units d)"

definition unit_rows :: "string \<Rightarrow> string \<Rightarrow> string \<Rightarrow> database \<Rightarrow> incident_unit list" where
  "unit_rows src iid n d =
     filter (\<lambda>r. iu_source r = src \<and> iu_incident_id r = iid \<and> iu_unit r = n) (incident_units d)"

lemma latest_interval_rows: "latest_interval src iid n d = max_by (\<lambda>r. (iu_last_observed_at r, iu_id r)) (unit_rows src iid n d)"
  by (simp add: latest_interval_def unit_rows_def)

lemma latest_interval_in:
  "latest_interval src iid n d = Some r \<Longrightarrow>
   r \<in> set (incident_units d) \<and> iu_source r = src \<and> iu_incident_id r = iid \<and> iu_unit r = n \<and>
   (\<forall>x \<in> set (unit_rows src iid n d). (iu_last_observed_at x, iu_id x) \<le> (iu_last_observed_at r, iu_id r))"
proof -
  assume "latest_interval src iid n d = Some r"
  then have "max_by (\<lambda>r. (iu_last_observed_at r, iu_id r)) (unit_rows src iid n d) = Some r"
    by (simp add: latest_interval_rows)
  from max_by_SomeD [OF this] show ?thesis by (simp add: unit_rows_def)
qed

lemma insertUnitInterval_latest:
  assumes "unit_ids_ok d" "observed_until ot d"
  shows "latest_status src iid (insertUnitInterval inc u pid ot d) n =
     (if src = inc_Source inc \<and> iid = inc_IncidentID inc \<and> n = unit_Unit u
      then Some (unit_Status u) else latest_status src iid d n)"
    "unit_ids_ok (insertUnitInterval inc u pid ot d)" "observed_until ot (insertUnitInterval inc u pid ot d)"
proof -
  let ?row = "\<lparr>iu_id = seq_unit d, iu_source = inc_Source inc, iu_incident_id = inc_IncidentID inc,
           iu_unit = unit_Unit u, iu_status = unit_Status u, iu_first_observed_at = ot,
           iu_last_observed_at = ot, iu_first_poll_id = pid, iu_last_poll_id = pid\<rparr>"
  let ?d = "insertUnitInterval inc u pid ot d"
  have rows: "unit_rows src iid n ?d = unit_rows src iid n d @
      (if src = inc_Source inc \<and> iid = inc_IncidentID inc \<and> n = unit_Unit u then [?row] else [])"
    by (auto simp: unit_rows_def insertUnitInterval_def)
  show "latest_status src iid ?d n =
     (if src = inc_Source inc \<and> iid = inc_IncidentID inc \<and> n = unit_Unit u
      then Some (unit_Status u) else latest_status src iid d n)"
  proof (cases "src = inc_Source inc \<and> iid = inc_IncidentID inc \<and> n = unit_Unit u")
    case True
    have "max_by (\<lambda>r. (iu_last_observed_at r, iu_id r)) (unit_rows src iid n ?d) = Some ?row"
    proof (rule max_by_unique)
      show "?row \<in> set (unit_rows src iid n ?d)" using True unfolding rows by simp
      fix x assume "x \<in> set (unit_rows src iid n ?d)"
      then have "x = ?row \<or> x \<in> set (incident_units d)" unfolding rows by (auto simp: unit_rows_def)
      then show "x = ?row \<or> (iu_last_observed_at x, iu_id x) < (iu_last_observed_at ?row, iu_id ?row)"
        using assms by (auto simp: unit_ids_ok_def observed_until_def list_all_iff less_prod_def')
    qed
    then show ?thesis using True by (simp add: latest_status_def latest_interval_rows)
  next
    case False
    then have "unit_rows src iid n ?d = unit_rows src iid n d" unfolding rows by (simp only: if_False append_Nil2)
    moreover have "(if src = inc_Source inc \<and> iid = inc_IncidentID inc \<and> n = unit_Unit u
      then Some (unit_Status u) else latest_status src iid d n) = latest_status src iid d n"
      using False by (rule if_not_P)
    ultimately show ?thesis by (simp only: latest_status_def latest_interval_rows)
  qed
  show "unit_ids_ok ?d" "observed_until ot ?d"
    using assms by (auto simp: unit_ids_ok_def observed_until_def insertUnitInterval_def list_all_iff)
qed

lemma extend_interval_latest:
  assumes ids: "unit_ids_ok d" and before: "observed_until ot d"
    and latest: "latest_interval s i m d = Some r"
  shows "latest_status src iid (extend_interval (iu_id r) pid ot d) n = latest_status src iid d n"
    "unit_ids_ok (extend_interval (iu_id r) pid ot d)"
    "observed_until ot (extend_interval (iu_id r) pid ot d)"
proof -
  let ?f = "\<lambda>r. r\<lparr>iu_last_observed_at := ot, iu_last_poll_id := pid\<rparr>"
  let ?d = "extend_interval (iu_id r) pid ot d"
  note L = latest_interval_in [OF latest]
  have dist: "inj_on iu_id (set (incident_units d))"
    using ids by (simp add: unit_ids_ok_def distinct_map)
  have rows: "unit_rows src iid n ?d = update_where (\<lambda>x. iu_id x = iu_id r) ?f (unit_rows src iid n d)"
    by (simp add: unit_rows_def extend_interval_def filter_update_where)
  show "latest_status src iid ?d n = latest_status src iid d n"
  proof (cases "src = s \<and> iid = i \<and> n = m")
    case True
    have in_rows: "r \<in> set (unit_rows src iid n d)"
      using L True by (simp add: unit_rows_def)
    have "max_by (\<lambda>r. (iu_last_observed_at r, iu_id r)) (unit_rows src iid n ?d) = Some (?f r)"
    proof (rule max_by_unique)
      show "?f r \<in> set (unit_rows src iid n ?d)"
        using in_rows by (auto simp: rows set_update_where)
      fix x assume "x \<in> set (unit_rows src iid n ?d)"
      then obtain y where y: "y \<in> set (unit_rows src iid n d)" "x = (if iu_id y = iu_id r then ?f y else y)"
        by (auto simp: rows update_where_def)
      show "x = ?f r \<or> (iu_last_observed_at x, iu_id x) < (iu_last_observed_at (?f r), iu_id (?f r))"
      proof (cases "iu_id y = iu_id r")
        case True
        then have "y = r" using dist y(1) L by (auto simp: unit_rows_def dest: inj_onD)
        then show ?thesis using y(2) by simp
      next
        case False
        moreover have "(iu_last_observed_at y, iu_id y) \<le> (iu_last_observed_at r, iu_id r)"
          using L True y(1) by blast
        moreover have "iu_last_observed_at y \<le> ot" "iu_last_observed_at r \<le> ot"
          using before y(1) L by (auto simp: observed_until_def list_all_iff unit_rows_def)
        ultimately show ?thesis using y(2) by (auto simp: less_eq_prod_def less_prod_def')
      qed
    qed
    then show ?thesis
      using latest True by (simp add: latest_status_def latest_interval_rows)
  next
    case False
    have "\<not> iu_id x = iu_id r" if "x \<in> set (unit_rows src iid n d)" for x
      using that dist L False by (auto simp: unit_rows_def dest: inj_onD)
    then show ?thesis
      by (simp add: latest_status_def latest_interval_rows rows update_where_none)
  qed
  have "map iu_id (incident_units ?d) = map iu_id (incident_units d)"
    by (simp add: extend_interval_def map_update_where)
  moreover have "list_all (\<lambda>u. iu_id u < k) (incident_units ?d) = list_all (\<lambda>u. iu_id u < k) (incident_units d)" for k
    unfolding extend_interval_def by (simp add: list_all_update_where)
  ultimately show "unit_ids_ok ?d" using ids by (simp add: unit_ids_ok_def) (simp add: extend_interval_def)
  show "observed_until ot ?d"
    using before by (auto simp: observed_until_def extend_interval_def update_where_def list_all_iff)
qed

lemma sync_unit_latest:
  assumes "sync_unit fault pu inc pid ot u d = Inr d'" "unit_ids_ok d" "observed_until ot d"
  shows "latest_status src iid d' n =
     (if src = inc_Source inc \<and> iid = inc_IncidentID inc \<and> n = unit_Unit u \<and> n \<noteq> []
      then Some (unit_Status u) else latest_status src iid d n) \<and>
     unit_ids_ok d' \<and> observed_until ot d'"
proof -
  let ?l = "latest_interval (inc_Source inc) (inc_IncidentID inc) (unit_Unit u) d"
  consider "unit_Unit u = []" "d' = d" | "unit_Unit u \<noteq> []" "d' = insertUnitInterval inc u pid ot d"
    | r where "unit_Unit u \<noteq> []" "?l = Some r" "iu_status r = unit_Status u" "d' = extend_interval (iu_id r) pid ot d"
    using assms(1) by (auto simp: sync_unit_def Let_def split: option.splits if_splits)
  then show ?thesis
  proof cases
    case 1
    then show ?thesis using assms by simp
  next
    case 2
    then show ?thesis using assms insertUnitInterval_latest [OF assms(2,3)] by auto
  next
    case 3
    then show ?thesis
      using extend_interval_latest [OF assms(2,3) 3(2)] by (auto simp: latest_status_def)
  qed
qed

lemma unitsByName_Cons:
  "unitsByName (u # us) n =
     (case unitsByName us n of Some v \<Rightarrow> Some v | None \<Rightarrow> if n = unit_Unit u \<and> n \<noteq> [] then Some u else None)"
proof (induction us rule: rev_induct)
  case Nil
  then show ?case by (simp add: unitsByName_def)
next
  case (snoc v us)
  have "unitsByName (u # us @ [v]) = add_unit (unitsByName (u # us)) v"
    using unitsByName_snoc [of "u # us" v] by simp
  then show ?case using snoc by (simp add: unitsByName_snoc split: option.splits)
qed

lemma sync_units_latest:
  assumes "sync_units fault pu inc pid ot us d = Inr d'" "unit_ids_ok d" "observed_until ot d"
  shows "latest_status src iid d' n =
     (if src = inc_Source inc \<and> iid = inc_IncidentID inc
      then (case status_by_name us n of Some s \<Rightarrow> Some s | None \<Rightarrow> latest_status src iid d n)
      else latest_status src iid d n)"
  using assms
proof (induction us arbitrary: d)
  case Nil
  then show ?case by (simp add: status_by_name_def)
next
  case (Cons u us)
  then obtain d1 where d1: "sync_unit fault pu inc pid ot u d = Inr d1"
    "sync_units fault pu inc pid ot us d1 = Inr d'"
    by (auto split: sum.splits)
  note S = sync_unit_latest [OF d1(1) Cons.prems(2,3)]
  show ?case
    using Cons.IH [OF d1(2)] S
    by (auto simp: status_by_name_def unitsByName_Cons split: option.splits)
qed

lemma latest_status_cong: "incident_units d = incident_units d' \<Longrightarrow> latest_status src iid d n = latest_status src iid d' n"
  by (simp add: latest_status_def latest_interval_def)

lemma writeUpsertEvent_units: "writeUpsertEvent fault prior inc pid ot d = Inr d' \<Longrightarrow> incident_units d' = incident_units d"
  by (drule writeUpsertEvent_frame) (auto split: option.splits)

text \<open>
  C20. After a committed upsert whose time is not before any recorded observation, the latest interval
  of each unit of the incident carries the status the snapshot gives that unit (the last one when the
  snapshot names it twice), and the units the snapshot does not name, and those of every other
  incident, keep the status they had.
\<close>

theorem unit_history_tracks_snapshot:
  assumes "UpsertIncident fault inc pid ot d = (None, d')" and "db_ok d" and "observed_until ot d"
  shows "latest_status src iid d' n =
     (if src = inc_Source inc \<and> iid = inc_IncidentID inc
      then (case status_by_name (inc_Units inc) n of Some s \<Rightarrow> Some s | None \<Rightarrow> latest_status src iid d n)
      else latest_status src iid d n)"
proof -
  obtain d2 where d2: "syncUnitHistory fault (loadPriorIncident (inc_Source inc) (inc_IncidentID inc) d) inc pid ot
       (upsertIncidentSnapshot inc pid ot d) = Inr d2"
    "writeUpsertEvent fault (loadPriorIncident (inc_Source inc) (inc_IncidentID inc) d) inc pid ot d2 = Inr d'"
    using assms(1) by (rule UpsertIncident_committed)
  let ?d1 = "upsertIncidentSnapshot inc pid ot d"
  have "unit_ids_ok ?d1" "observed_until ot ?d1"
    using assms(2,3) by (simp_all add: unit_ids_ok_def observed_until_def db_ok_def keys_ok_def upsertIncidentSnapshot_frame)
  from sync_units_latest [OF d2(1) [unfolded syncUnitHistory_def Let_def] this, of src iid n]
  have "latest_status src iid d2 n =
     (if src = inc_Source inc \<and> iid = inc_IncidentID inc
      then (case status_by_name (inc_Units inc) n of Some s \<Rightarrow> Some s | None \<Rightarrow> latest_status src iid ?d1 n)
      else latest_status src iid ?d1 n)" .
  moreover have "latest_status src iid d' n = latest_status src iid d2 n"
    by (rule latest_status_cong) (rule writeUpsertEvent_units [OF d2(2)])
  moreover have "latest_status src iid ?d1 n = latest_status src iid d n"
    by (rule latest_status_cong) (rule upsertIncidentSnapshot_frame)
  ultimately show ?thesis by (simp only:)
qed

definition sample_poll_row :: source_poll where
  "sample_poll_row =
     \<lparr>sp_poll_id = 1, sp_source = ''phoenix-fire-mapserver'', sp_request_url = ''u'', sp_started_at = 100,
      sp_finished_at = 101, sp_status_code = 200, sp_latency_ms = 1, sp_feature_count = 1,
      sp_payload_sha256 = None, sp_parser_version = ''p'', sp_success = False, sp_error = None, sp_notes = None\<rparr>"

definition sample_incident :: Incident where
  "sample_incident =
     \<lparr>inc_Source = ''phoenix-fire-mapserver'', inc_IncidentID = ''F1'', inc_NatureCode = ''STR'',
      inc_NatureDesc = ''Structure Fire'',
      inc_Units = [\<lparr>unit_Unit = ''E1'', unit_Status = ''Dispatched'', unit_UnitType = ''Engine''\<rparr>],
      inc_Channel = ''K4'', inc_SymbolCode = ''F'', inc_LocationText = ''X'', inc_Lon = -112, inc_Lat = 33,
      inc_IncidentDate = 1750000000000000000, inc_Raw = []\<rparr>"

definition sample_db :: database where
  "sample_db = empty_db\<lparr>source_polls := [sample_poll_row], seq_poll := 2\<rparr>"

theorem unit_history_tracks_snapshot_witness:
  "latest_status ''phoenix-fire-mapserver'' ''F1'' (snd (UpsertIncident no_faults sample_incident 1 100 sample_db)) ''E1'' =
   Some ''Dispatched''"
proof -
  have up: "UpsertIncident no_faults sample_incident 1 100 sample_db =
    (None, snd (UpsertIncident no_faults sample_incident 1 100 sample_db))"
    by code_simp
  have "db_ok sample_db" "observed_until 100 sample_db"
    "status_by_name (inc_Units sample_incident) ''E1'' = Some ''Dispatched''"
    by code_simp+
  from unit_history_tracks_snapshot [OF up this(1,2), of "''phoenix-fire-mapserver''" "''F1''" "''E1''"] this(3)
  show ?thesis by (simp add: sample_incident_def)
qed

end
