(* ===== verification/Lifecycle.thy ===== *)
theory Lifecycle
  imports Incident_Store
begin

text \<open>
  The lifecycle manager (\<^verbatim>\<open>internal/lifecycle/lifecycle.go\<close>): \<^verbatim>\<open>Apply\<close> records one poll result
  and moves every incident of its source between observed, missing, cleared and reopened. The theory
  states the machine it implements, as a function, as a step relation and as a locale over any
  implementation, and interprets the locale on \<^verbatim>\<open>Apply\<close> over the database model.
\<close>

section \<open>Applying a poll\<close>

fun upsert_all ::
  "faults \<Rightarrow> Incident list \<Rightarrow> int \<Rightarrow> time \<Rightarrow> database \<Rightarrow> (error + string list) \<times> database" where
  "upsert_all fault [] pollID observedAt d = (Inr [], d)"
| "upsert_all fault (inc # incs) pollID observedAt d =
     (case UpsertIncident fault inc pollID observedAt d of
        (Some e, d1) \<Rightarrow>
          (Inl (''upsert incident '' @ inc_Source inc @ ''/'' @ inc_IncidentID inc @ '': '' @ e), d1)
      | (None, d1) \<Rightarrow>
          (case upsert_all fault incs pollID observedAt d1 of
             (Inl e, d2) \<Rightarrow> (Inl e, d2)
           | (Inr ids, d2) \<Rightarrow> (Inr (inc_IncidentID inc # ids), d2)))"

definition failPollApply :: "faults \<Rightarrow> int \<Rightarrow> error \<Rightarrow> database \<Rightarrow> error option \<times> database" where
  "failPollApply fault pollID applyErr d =
     (case MarkPollFailed fault pollID applyErr d of
        (Some e, d1) \<Rightarrow> (Some (applyErr @ ''; additionally failed to mark poll failed: '' @ e), d1)
      | (None, d1) \<Rightarrow> (Some applyErr, d1))"

definition finish_apply :: "faults \<Rightarrow> int \<Rightarrow> database \<Rightarrow> error option \<times> database" where
  "finish_apply fault pollID d =
     (case MarkPollSucceeded fault pollID d of
        (Some e, d1) \<Rightarrow> (Some (''mark poll succeeded '' @ Itoa pollID @ '': '' @ e), d1)
      | (None, d1) \<Rightarrow> (None, d1))"

definition apply_success ::
  "faults \<Rightarrow> int \<Rightarrow> PollResult \<Rightarrow> int \<Rightarrow> database \<Rightarrow> error option \<times> database" where
  "apply_success fault clearAfterMisses r pollID d1 =
     (let observedAt = res_StartedAt r
      in case upsert_all fault (res_Incidents r) pollID observedAt d1 of
           (Inl applyErr, d2) \<Rightarrow> failPollApply fault pollID applyErr d2
         | (Inr observedIDs, d2) \<Rightarrow>
             (case MarkMissing fault (res_Source r) observedAt observedIDs d2 of
                (Some e, d3) \<Rightarrow> failPollApply fault pollID (''mark missing '' @ res_Source r @ '': '' @ e) d3
              | (None, d3) \<Rightarrow>
                  (case SweepCleared fault (res_Source r) clearAfterMisses d3 of
                     (Inl e, d4) \<Rightarrow> failPollApply fault pollID (''sweep cleared '' @ res_Source r @ '': '' @ e) d4
                   | (Inr cleared, d4) \<Rightarrow>
                       if cleared \<noteq> []
                       then (case RecordClearedEvents fault cleared pollID d4 of
                               (Some e, d5) \<Rightarrow>
                                 failPollApply fault pollID
                                   (''record cleared events '' @ res_Source r @ '': '' @ e) d5
                             | (None, d5) \<Rightarrow> finish_apply fault pollID d5)
                       else finish_apply fault pollID d4)))"

definition Apply :: "faults \<Rightarrow> int \<Rightarrow> PollResult \<Rightarrow> database \<Rightarrow> error option \<times> database" where
  "Apply fault clearAfterMisses r d =
     (if \<not> Success r
      then (case RecordPoll fault r d of (Inl e, d1) \<Rightarrow> (Some e, d1) | (Inr _, d1) \<Rightarrow> (None, d1))
      else
        (case RecordPollPending fault r d of
           (Inl e, d1) \<Rightarrow> (Some e, d1)
         | (Inr pollID, d1) \<Rightarrow> apply_success fault clearAfterMisses r pollID d1))"

text \<open>
  \<^verbatim>\<open>Jitter\<close>: \<^verbatim>\<open>rnd\<close> is a draw from the unit interval; the product is truncated to whole
  nanoseconds, as the conversion to a duration does.
\<close>

definition truncate_rat :: "rat \<Rightarrow> int" where
  "truncate_rat q = (if q < 0 then - \<lfloor>- q\<rfloor> else \<lfloor>q\<rfloor>)"

definition Jitter :: "duration \<Rightarrow> duration \<Rightarrow> rat \<Rightarrow> duration" where
  "Jitter base jitter rnd =
     (if jitter \<le> 0 then base else base + truncate_rat ((rnd * 2 - 1) * of_int jitter))"

section \<open>The machine\<close>

text \<open>
  The life of one incident as the tables show it. \<^verbatim>\<open>Missing k\<close> has been absent since a poll with
  \<^verbatim>\<open>k\<close> successful polls at or after it.
\<close>

datatype phase = Unknown | Seen | Missing nat | Cleared

definition row_phase :: "database \<Rightarrow> incident_row \<Rightarrow> phase" where
  "row_phase d r =
     (case ir_cleared_at r of
        Some _ \<Rightarrow> Cleared
      | None \<Rightarrow>
          (case ir_missing_since r of
             None \<Rightarrow> Seen
           | Some t \<Rightarrow> Missing (misses d (ir_source r) t)))"

definition phase_of :: "string \<Rightarrow> database \<Rightarrow> string \<Rightarrow> phase" where
  "phase_of src d iid =
     (case find_incident src iid d of None \<Rightarrow> Unknown | Some r \<Rightarrow> row_phase d r)"

text \<open>What one applied authoritative poll does to an incident it did or did not observe.\<close>

definition next_phase :: "int \<Rightarrow> bool \<Rightarrow> phase \<Rightarrow> phase" where
  "next_phase N observed p =
     (if observed then Seen
      else (case p of
              Unknown \<Rightarrow> Unknown
            | Cleared \<Rightarrow> Cleared
            | Seen \<Rightarrow> if N \<le> 0 then Cleared else Missing 1
            | Missing k \<Rightarrow> if N \<le> int k then Cleared else Missing (Suc k)))"

inductive lifecycle_step :: "int \<Rightarrow> phase \<Rightarrow> bool \<Rightarrow> phase \<Rightarrow> bool" for N where
  observe: "lifecycle_step N p True Seen"
| stay_unknown: "lifecycle_step N Unknown False Unknown"
| stay_cleared: "lifecycle_step N Cleared False Cleared"
| go_missing: "0 < N \<Longrightarrow> lifecycle_step N Seen False (Missing 1)"
| clear_seen: "N \<le> 0 \<Longrightarrow> lifecycle_step N Seen False Cleared"
| miss: "int k < N \<Longrightarrow> lifecycle_step N (Missing k) False (Missing (Suc k))"
| clear: "N \<le> int k \<Longrightarrow> lifecycle_step N (Missing k) False Cleared"

inductive_cases step_observedE: "lifecycle_step N p True q"
inductive_cases step_SeenE: "lifecycle_step N Seen False q"
inductive_cases step_MissingE: "lifecycle_step N (Missing k) False q"
inductive_simps step_Unknown: "lifecycle_step N Unknown False q"
inductive_simps step_Cleared: "lifecycle_step N Cleared False q"

lemma lifecycle_step_iff: "lifecycle_step N p o' q \<longleftrightarrow> q = next_phase N o' p"
proof
  assume "lifecycle_step N p o' q"
  then show "q = next_phase N o' p"
    by cases (auto simp: next_phase_def)
next
  assume q: "q = next_phase N o' p"
  show "lifecycle_step N p o' q"
    unfolding q by (cases p) (auto simp: next_phase_def simp del: One_nat_def intro: lifecycle_step.intros)
qed

fun run_phase :: "int \<Rightarrow> bool list \<Rightarrow> phase \<Rightarrow> phase" where
  "run_phase N [] p = p"
| "run_phase N (b # bs) p = run_phase N bs (next_phase N b p)"

lemma run_phase_Cleared: "list_all Not bs \<Longrightarrow> run_phase N bs Cleared = Cleared"
  by (induction bs) (auto simp: next_phase_def)

lemma run_phase_Unknown: "list_all Not bs \<Longrightarrow> run_phase N bs Unknown = Unknown"
  by (induction bs) (auto simp: next_phase_def)

lemma run_phase_Missing:
  "list_all Not bs \<Longrightarrow>
   run_phase N bs (Missing k) =
     (if bs = [] \<or> int (k + length bs) \<le> N then Missing (k + length bs) else Cleared)"
proof (induction bs arbitrary: k)
  case Nil
  then show ?case by simp
next
  case (Cons b bs)
  then show ?case
    by (cases "N \<le> int k") (auto simp: next_phase_def run_phase_Cleared)
qed

lemma run_phase_Seen:
  "list_all Not bs \<Longrightarrow> bs \<noteq> [] \<Longrightarrow>
   run_phase N bs Seen = (if int (length bs) \<le> N then Missing (length bs) else Cleared)"
  by (cases bs) (auto simp: next_phase_def run_phase_Cleared run_phase_Missing)

lemma run_phase_append: "run_phase N (as @ bs) p = run_phase N bs (run_phase N as p)"
  by (induction as arbitrary: p) auto

section \<open>The invariant of the tables\<close>

text \<open>
  An incident has been missing since the start of a recorded poll of its source.
\<close>

definition started :: "source_poll list \<Rightarrow> (string \<times> time) set" where
  "started polls = (\<lambda>p. (sp_source p, sp_started_at p)) ` set polls"

definition missing_known :: "(string \<times> time) set \<Rightarrow> incident_row \<Rightarrow> bool" where
  "missing_known known r =
     (case ir_missing_since r of None \<Rightarrow> True | Some t \<Rightarrow> (ir_source r, t) \<in> known)"

definition missing_ok :: "database \<Rightarrow> bool" where
  "missing_ok d \<longleftrightarrow> list_all (missing_known (started (source_polls d))) (incidents d)"

definition lifecycle_ok :: "database \<Rightarrow> bool" where
  "lifecycle_ok d \<longleftrightarrow> db_ok d \<and> missing_ok d"

lemma missing_known_mono: "missing_known K r \<Longrightarrow> K \<subseteq> L \<Longrightarrow> missing_known L r"
  by (auto simp: missing_known_def split: option.splits)

lemma missing_ok_append_poll:
  "missing_ok d \<Longrightarrow> missing_ok (d\<lparr>source_polls := source_polls d @ [row], seq_poll := n\<rparr>)"
  unfolding missing_ok_def list_all_iff started_def
  by (auto elim!: missing_known_mono)

lemma missing_ok_update_polls:
  assumes "missing_ok d" "\<And>p. sp_source (f p) = sp_source p" "\<And>p. sp_started_at (f p) = sp_started_at p"
  shows "missing_ok (d\<lparr>source_polls := update_where q f (source_polls d)\<rparr>)"
proof -
  have "map (\<lambda>p. (sp_source p, sp_started_at p)) (update_where q f (source_polls d)) =
      map (\<lambda>p. (sp_source p, sp_started_at p)) (source_polls d)"
    by (rule map_update_where) (simp add: assms)
  from arg_cong [OF this, of set] show ?thesis
    using assms(1) by (simp add: missing_ok_def started_def)
qed

lemma missing_known_None: "ir_missing_since r = None \<Longrightarrow> missing_known K r"
  by (simp add: missing_known_def)

lemma missing_ok_upsert: "missing_ok d \<Longrightarrow> missing_ok (upsertIncidentSnapshot inc pid ot d)"
  by (simp add: missing_ok_def upsertIncidentSnapshot_def missing_known_None split: option.split)
    (auto simp: list_all_iff update_where_def missing_known_None)

lemma missing_ok_UpsertIncident:
  assumes "missing_ok d"
  shows "missing_ok (snd (UpsertIncident fault inc pid ot d))"
proof (cases "UpsertIncident fault inc pid ot d")
  case (Pair e d')
  show ?thesis
  proof (cases e)
    case None
    then have "incidents d' = incidents (upsertIncidentSnapshot inc pid ot d)" "source_polls d' = source_polls d"
      using Pair UpsertIncident_effect by blast+
    then show ?thesis
      using missing_ok_upsert [OF assms, of inc pid ot] Pair
      by (simp add: missing_ok_def upsertIncidentSnapshot_frame)
  next
    case (Some m)
    then show ?thesis using Pair UpsertIncident_failed assms by fastforce
  qed
qed

section \<open>What each phase of an apply does\<close>

lemma upsert_all_polls:
  "source_polls (snd (upsert_all fault incs pid ot d)) = source_polls d \<and>
   seq_poll (snd (upsert_all fault incs pid ot d)) = seq_poll d"
proof (induction incs arbitrary: d)
  case Nil
  then show ?case by simp
next
  case (Cons inc incs)
  obtain e d1 where u: "UpsertIncident fault inc pid ot d = (e, d1)" by fastforce
  have "source_polls d1 = source_polls d \<and> seq_poll d1 = seq_poll d"
    using u UpsertIncident_failed UpsertIncident_effect by (cases e) blast+
  then show ?case
    using Cons.IH [of d1] u by (auto split: option.splits sum.splits prod.splits)
qed

lemma upsert_all_ok:
  "lifecycle_ok d \<Longrightarrow> poll_known pid d \<Longrightarrow> lifecycle_ok (snd (upsert_all fault incs pid ot d))"
proof (induction incs arbitrary: d)
  case Nil
  then show ?case by simp
next
  case (Cons inc incs)
  obtain e d1 where u: "UpsertIncident fault inc pid ot d = (e, d1)" by fastforce
  have ok: "lifecycle_ok d1"
    using UpsertIncident_ok [of d pid fault inc ot] missing_ok_UpsertIncident [of d fault inc pid ot] Cons.prems u
    by (simp add: lifecycle_ok_def)
  have "source_polls d1 = source_polls d"
    using u UpsertIncident_failed UpsertIncident_effect by (cases e) blast+
  then have "poll_known pid d1" using Cons.prems by (simp add: poll_known_def)
  then show ?case
    using Cons.IH [of d1] ok u by (auto split: option.splits sum.splits prod.splits)
qed

definition seen_row :: "incident_row option \<Rightarrow> bool" where
  "seen_row row = (case row of None \<Rightarrow> False | Some r \<Rightarrow> ir_missing_since r = None \<and> ir_cleared_at r = None)"

lemma upsert_all_done:
  "upsert_all fault incs pid ot d = (Inr ids, d') \<Longrightarrow>
   ids = map inc_IncidentID incs \<and>
   (if (src, iid) \<in> (\<lambda>i. (inc_Source i, inc_IncidentID i)) ` set incs
    then seen_row (find_incident src iid d')
    else find_incident src iid d' = find_incident src iid d)"
proof (induction incs arbitrary: d ids)
  case Nil
  then show ?case by simp
next
  case (Cons inc incs)
  obtain d1 where u: "UpsertIncident fault inc pid ot d = (None, d1)"
    using Cons.prems by (auto split: option.splits prod.splits)
  obtain ids1 where r: "upsert_all fault incs pid ot d1 = (Inr ids1, d')" "ids = inc_IncidentID inc # ids1"
    using Cons.prems u by (auto split: sum.splits prod.splits)
  have f: "find_incident src iid d1 =
     (if src = inc_Source inc \<and> iid = inc_IncidentID inc
      then Some (case find_incident src iid d of None \<Rightarrow> inserted_row (seq_incident d) inc pid ot
                 | Some r \<Rightarrow> conflict_row inc pid ot r)
      else find_incident src iid d)"
    by (simp add: UpsertIncident_effect(4) [OF u] find_incident_upsert)
  then have "src = inc_Source inc \<and> iid = inc_IncidentID inc \<Longrightarrow> seen_row (find_incident src iid d1)"
    by (simp add: seen_row_def split: option.split)
  then show ?case
    using Cons.IH [OF r(1)] f r(2) by (auto split: if_splits)
qed

lemma upsert_all_partial:
  "upsert_all fault incs pid ot d = (res, d') \<Longrightarrow>
   find_incident src iid d' = find_incident src iid d \<or>
   seen_row (find_incident src iid d') \<and> (src, iid) \<in> (\<lambda>i. (inc_Source i, inc_IncidentID i)) ` set incs"
proof (induction incs arbitrary: d res)
  case Nil
  then show ?case by simp
next
  case (Cons inc incs)
  obtain e d1 where u: "UpsertIncident fault inc pid ot d = (e, d1)" by fastforce
  show ?case
  proof (cases e)
    case (Some m)
    then have "d' = d" using Cons.prems u UpsertIncident_failed by auto
    then show ?thesis by simp
  next
    case None
    have f: "find_incident src iid d1 =
       (if src = inc_Source inc \<and> iid = inc_IncidentID inc
        then Some (case find_incident src iid d of None \<Rightarrow> inserted_row (seq_incident d) inc pid ot
                   | Some r \<Rightarrow> conflict_row inc pid ot r)
        else find_incident src iid d)"
      using u None by (simp add: UpsertIncident_effect(4) find_incident_upsert)
    then have seen: "src = inc_Source inc \<and> iid = inc_IncidentID inc \<Longrightarrow> seen_row (find_incident src iid d1)"
      by (simp add: seen_row_def split: option.split)
    obtain res1 where "upsert_all fault incs pid ot d1 = (res1, d')"
      using Cons.prems u None by (auto split: sum.splits prod.splits)
    from Cons.IH [OF this] show ?thesis using f seen by (auto split: if_splits)
  qed
qed

lemma MarkMissing_find:
  "MarkMissing fault src ot ids d = (None, d') \<Longrightarrow>
   find_incident s iid d' =
     map_option (\<lambda>r. if s = src \<and> ir_cleared_at r = None \<and> iid \<notin> set ids
       then r\<lparr>ir_missing_since := (case ir_missing_since r of None \<Rightarrow> Some ot | Some t \<Rightarrow> Some t)\<rparr> else r)
       (find_incident s iid d) \<and>
   source_polls d' = source_polls d \<and> seq_poll d' = seq_poll d"
proof -
  let ?f = "\<lambda>r. r\<lparr>ir_missing_since := (case ir_missing_since r of None \<Rightarrow> Some ot | Some t \<Rightarrow> Some t)\<rparr>"
  let ?p = "\<lambda>r. ir_source r = src \<and> ir_cleared_at r = None \<and> ir_incident_id r \<notin> set ids"
  assume "MarkMissing fault src ot ids d = (None, d')"
  then have d': "d' = d\<lparr>incidents := update_where ?p ?f (incidents d)\<rparr>"
    by (simp add: MarkMissing_def split: option.splits)
  have "find_incident s iid d' = map_option (\<lambda>r. if ?p r then ?f r else r) (find_incident s iid d)"
    by (simp add: d' find_incident_def find_update_where)
  then show ?thesis
    using find_incident_SomeD [of s iid d] by (cases "find_incident s iid d") (simp_all add: d')
qed

lemma SweepCleared_find:
  "SweepCleared fault src N d = (Inr cleared, d') \<Longrightarrow>
   find_incident s iid d' =
     map_option (\<lambda>r. if sweepable d src N r then r\<lparr>ir_cleared_at := ir_missing_since r\<rparr> else r)
       (find_incident s iid d) \<and>
   source_polls d' = source_polls d \<and> seq_poll d' = seq_poll d"
  by (auto simp: SweepCleared_def find_incident_def find_update_where Let_def split: option.splits)

lemma MarkMissing_failed: "MarkMissing fault src ot ids d = (Some e, d') \<Longrightarrow> d' = d"
  by (auto simp: MarkMissing_def split: option.splits)

lemma SweepCleared_failed: "SweepCleared fault src N d = (Inl e, d') \<Longrightarrow> d' = d"
  by (auto simp: SweepCleared_def Let_def split: option.splits)

lemma RecordClearedEvents_frame:
  "\<exists>es m. snd (RecordClearedEvents fault items pid d) = d\<lparr>incident_events := es, seq_event := m\<rparr>"
proof (cases "write_cleared fault items pid d")
  case (Inl e)
  then show ?thesis
    by (intro exI [of _ "incident_events d"] exI [of _ "seq_event d"])
      (simp add: RecordClearedEvents_def split: option.split)
next
  case (Inr d')
  then obtain es m where d': "d' = d\<lparr>incident_events := es, seq_event := m\<rparr>"
    using write_cleared_frame by blast
  have "snd (RecordClearedEvents fault items pid d) \<in> {d, d'}"
    using Inr by (simp add: RecordClearedEvents_def split: option.split)
  moreover have "d = d\<lparr>incident_events := incident_events d, seq_event := seq_event d\<rparr>" by simp
  ultimately show ?thesis using d' by (metis empty_iff insert_iff)
qed

lemma RecordClearedEvents_rows:
  "incidents (snd (RecordClearedEvents fault items pid d)) = incidents d"
  "source_polls (snd (RecordClearedEvents fault items pid d)) = source_polls d"
  using RecordClearedEvents_frame [of fault items pid d] by auto

lemma MarkPollFailed_frame:
  "incidents (snd (MarkPollFailed fault pid e d)) = incidents d"
  by (simp add: MarkPollFailed_def split: option.split)

lemma MarkPollSucceeded_frame:
  "incidents (snd (MarkPollSucceeded fault pid d)) = incidents d"
  by (simp add: MarkPollSucceeded_def split: option.split)

lemma failPollApply_snd: "snd (failPollApply fault pid e d) = snd (MarkPollFailed fault pid e d)"
  by (simp add: failPollApply_def split: prod.split option.split)

lemma failPollApply_error: "fst (failPollApply fault pid e d) \<noteq> None"
  by (simp add: failPollApply_def split: prod.split option.split)

lemma finish_apply_snd: "snd (finish_apply fault pid d) = snd (MarkPollSucceeded fault pid d)"
  by (simp add: finish_apply_def split: prod.split option.split)

section \<open>Every apply keeps the invariant\<close>

lemma missing_ok_MarkMissing:
  assumes "missing_ok d" "(src, ot) \<in> started (source_polls d)"
  shows "missing_ok (snd (MarkMissing fault src ot ids d))"
proof -
  have "missing_known (started (source_polls d))
      (r\<lparr>ir_missing_since := (case ir_missing_since r of None \<Rightarrow> Some ot | Some t \<Rightarrow> Some t)\<rparr>)"
    if "missing_known (started (source_polls d)) r" "ir_source r = src" for r
    using assms(2) that by (auto simp: missing_known_def split: option.splits)
  then show ?thesis
    using assms(1) by (simp add: MarkMissing_def missing_ok_def split: option.split)
      (auto simp: list_all_iff update_where_def)
qed

lemma missing_ok_Sweep: "missing_ok d \<Longrightarrow> missing_ok (snd (SweepCleared fault src N d))"
  by (simp add: SweepCleared_def missing_ok_def missing_known_def list_all_update_where Let_def split: option.split)

lemma MarkPollFailed_lifecycle_ok: "lifecycle_ok d \<Longrightarrow> lifecycle_ok (snd (MarkPollFailed fault pid e d))"
  by (simp add: lifecycle_ok_def MarkPollFailed_ok)
    (simp add: MarkPollFailed_def missing_ok_update_polls split: option.split)

lemma MarkPollSucceeded_lifecycle_ok: "lifecycle_ok d \<Longrightarrow> lifecycle_ok (snd (MarkPollSucceeded fault pid d))"
  by (simp add: lifecycle_ok_def MarkPollSucceeded_ok)
    (simp add: MarkPollSucceeded_def missing_ok_update_polls split: option.split)

lemma missing_ok_RecordClearedEvents: "missing_ok d \<Longrightarrow> missing_ok (snd (RecordClearedEvents fault items pid d))"
  by (simp add: missing_ok_def RecordClearedEvents_rows)

lemma recordPoll_lifecycle_ok: "lifecycle_ok d \<Longrightarrow> lifecycle_ok (snd (recordPoll fault r s m d))"
  using recordPoll_ok [of d fault r s m]
  by (cases rule: recordPoll_cases [of fault r s m d]) (simp_all add: lifecycle_ok_def missing_ok_append_poll)

lemma apply_success_ok:
  assumes "lifecycle_ok d" "poll_known pid d"
    "(res_Source r, res_StartedAt r) \<in> started (source_polls d)"
  shows "lifecycle_ok (snd (apply_success fault N r pid d))"
proof -
  let ?t = "res_StartedAt r"
  obtain res d2 where u: "upsert_all fault (res_Incidents r) pid ?t d = (res, d2)" by fastforce
  have d2: "lifecycle_ok d2" "source_polls d2 = source_polls d"
    using upsert_all_ok [OF assms(1,2), of fault "res_Incidents r" ?t] upsert_all_polls [of fault "res_Incidents r" pid ?t d] u
    by simp_all
  show ?thesis
  proof (cases res)
    case (Inl e)
    then show ?thesis using u d2 by (simp add: apply_success_def failPollApply_snd MarkPollFailed_lifecycle_ok)
  next
    case (Inr ids)
    obtain m d3 where mm: "MarkMissing fault (res_Source r) ?t ids d2 = (m, d3)" by fastforce
    have d3: "lifecycle_ok d3" "source_polls d3 = source_polls d"
      using MarkMissing_ok [of d2 fault "res_Source r" ?t ids] missing_ok_MarkMissing [of d2 "res_Source r" ?t fault ids]
        d2 mm assms(3)
      by (simp_all add: lifecycle_ok_def MarkMissing_def split: option.splits) auto
    obtain sw d4 where s: "SweepCleared fault (res_Source r) N d3 = (sw, d4)" by fastforce
    have d4: "lifecycle_ok d4" "source_polls d4 = source_polls d"
      using SweepCleared_ok [of d3 fault "res_Source r" N] missing_ok_Sweep [of d3 fault "res_Source r" N]
        d3 s by (simp_all add: lifecycle_ok_def SweepCleared_def Let_def split: option.splits) auto
    have ev: "lifecycle_ok (snd (RecordClearedEvents fault cl pid d4))" if "sw = Inr cl" for cl
      using RecordClearedEvents_ok [of d4 pid cl fault] missing_ok_RecordClearedEvents [of d4 fault cl pid]
        sweep_known(1) [of fault "res_Source r" N d3 cl d4] that s d4 assms(2)
      by (simp add: lifecycle_ok_def poll_known_def)
    show ?thesis
      using u Inr mm s d2 d3 d4 ev
      by (auto simp: apply_success_def failPollApply_snd finish_apply_snd MarkPollFailed_lifecycle_ok
          MarkPollSucceeded_lifecycle_ok Let_def split: option.splits sum.splits prod.splits)
  qed
qed

lemma Apply_keeps_ok: "lifecycle_ok d \<Longrightarrow> lifecycle_ok (snd (Apply fault N r d))"
proof (cases "Success r")
  case False
  assume "lifecycle_ok d"
  then have "lifecycle_ok (snd (RecordPoll fault r d))"
    by (simp add: RecordPoll_def recordPoll_lifecycle_ok)
  then show ?thesis using False by (simp add: Apply_def split: prod.split sum.split) fastforce
next
  case True
  assume ok: "lifecycle_ok d"
  have ok1: "lifecycle_ok (snd (RecordPollPending fault r d))"
    using ok by (simp add: RecordPollPending_def recordPoll_lifecycle_ok)
  show ?thesis
  proof (cases rule: recordPoll_cases [of fault r False pending_error d])
    case (failed e)
    then show ?thesis using ok True by (simp add: Apply_def RecordPollPending_def)
  next
    case (stored row)
    have "lifecycle_ok (snd (apply_success fault N r (seq_poll d)
        (d\<lparr>source_polls := source_polls d @ [row], seq_poll := seq_poll d + 1\<rparr>)))"
    proof (rule apply_success_ok)
      show "lifecycle_ok (d\<lparr>source_polls := source_polls d @ [row], seq_poll := seq_poll d + 1\<rparr>)"
        using ok1 stored by (simp add: RecordPollPending_def)
    qed (use stored in \<open>auto simp: poll_known_def started_def\<close>)
    then show ?thesis using True stored by (simp add: Apply_def RecordPollPending_def)
  qed
qed

section \<open>One apply is one step of the machine\<close>

text \<open>The polls of one source come in the order of time, and their incidents carry its name.\<close>

definition fresh_poll :: "PollResult \<Rightarrow> database \<Rightarrow> bool" where
  "fresh_poll r d \<longleftrightarrow>
     list_all (\<lambda>p. if sp_source p = res_Source r then sp_started_at p < res_StartedAt r else True) (source_polls d) \<and>
     list_all (\<lambda>i. inc_Source i = res_Source r) (res_Incidents r)"

definition observed_in :: "PollResult \<Rightarrow> string \<Rightarrow> bool" where
  "observed_in r iid \<longleftrightarrow> iid \<in> inc_IncidentID ` set (res_Incidents r)"

definition miss_count :: "source_poll list \<Rightarrow> string \<Rightarrow> time \<Rightarrow> nat" where
  "miss_count polls src since =
     length (filter (\<lambda>p. sp_source p = src \<and> sp_success p \<and> sp_started_at p \<ge> since) polls)"

lemma misses_count: "misses d src since = miss_count (source_polls d) src since"
  by (simp add: misses_def miss_count_def)

lemma row_phase_eq:
  "row_phase d r =
     (case ir_cleared_at r of Some _ \<Rightarrow> Cleared
      | None \<Rightarrow> (case ir_missing_since r of None \<Rightarrow> Seen
                 | Some t \<Rightarrow> Missing (miss_count (source_polls d) (ir_source r) t)))"
  by (simp add: row_phase_def misses_count split: option.split)

text \<open>The phases of an incident depend on the polls only through the successful ones.\<close>

definition phase_row :: "source_poll list \<Rightarrow> incident_row option \<Rightarrow> phase" where
  "phase_row polls row =
     (case row of None \<Rightarrow> Unknown
      | Some r \<Rightarrow> (case ir_cleared_at r of Some _ \<Rightarrow> Cleared
          | None \<Rightarrow> (case ir_missing_since r of None \<Rightarrow> Seen
                     | Some t \<Rightarrow> Missing (miss_count polls (ir_source r) t))))"

lemma phase_of_row: "phase_of src d iid = phase_row (source_polls d) (find_incident src iid d)"
  by (simp add: phase_of_def phase_row_def row_phase_eq split: option.split)

lemma phase_row_seen: "seen_row row \<Longrightarrow> phase_row polls row = Seen"
  by (auto simp: seen_row_def phase_row_def split: option.splits)

lemma miss_count_append: "miss_count (ps @ qs) src t = miss_count ps src t + miss_count qs src t"
  by (simp add: miss_count_def)

lemma miss_count_pending: "\<not> sp_success row \<Longrightarrow> miss_count [row] src t = 0"
  by (simp add: miss_count_def)

lemma miss_count_fresh:
  assumes "list_all (\<lambda>p. if sp_source p = src then sp_started_at p < t else True) polls"
  shows "miss_count polls src t = 0"
proof -
  have "filter (\<lambda>p. sp_source p = src \<and> sp_success p \<and> sp_started_at p \<ge> t) polls = []"
    using assms by (auto simp: filter_empty_conv list_all_iff)
  then show ?thesis by (simp add: miss_count_def)
qed

lemma update_append: "update_where p f (xs @ ys) = update_where p f xs @ update_where p f ys"
  by (simp add: update_where_def)

text \<open>The row a successful apply leaves for an incident, from the row it found.\<close>

definition marked :: "time \<Rightarrow> incident_row \<Rightarrow> incident_row" where
  "marked t r = r\<lparr>ir_missing_since := (case ir_missing_since r of None \<Rightarrow> Some t | Some s \<Rightarrow> Some s)\<rparr>"

definition swept :: "source_poll list \<Rightarrow> int \<Rightarrow> incident_row \<Rightarrow> incident_row" where
  "swept polls N r =
     (if ir_cleared_at r = None \<and>
         (case ir_missing_since r of None \<Rightarrow> False | Some t \<Rightarrow> N \<le> int (miss_count polls (ir_source r) t))
      then r\<lparr>ir_cleared_at := ir_missing_since r\<rparr> else r)"

lemma failPollApply_not_None [simp]: "failPollApply fault pid e d \<noteq> (None, d')"
  using failPollApply_error [of fault pid e d] by auto

lemma apply_success_elim:
  assumes "apply_success fault N r pid d = (None, d')"
  obtains ids d2 d3 cl d4 d5 where
    "upsert_all fault (res_Incidents r) pid (res_StartedAt r) d = (Inr ids, d2)"
    "MarkMissing fault (res_Source r) (res_StartedAt r) ids d2 = (None, d3)"
    "SweepCleared fault (res_Source r) N d3 = (Inr cl, d4)"
    "incidents d5 = incidents d4" "source_polls d5 = source_polls d4"
    "finish_apply fault pid d5 = (None, d')"
proof -
  obtain ids d2 where u: "upsert_all fault (res_Incidents r) pid (res_StartedAt r) d = (Inr ids, d2)"
    using assms by (simp add: apply_success_def Let_def split: prod.splits sum.splits)
  obtain d3 where m: "MarkMissing fault (res_Source r) (res_StartedAt r) ids d2 = (None, d3)"
    using assms u by (simp add: apply_success_def Let_def split: prod.splits option.splits)
  obtain cl d4 where s: "SweepCleared fault (res_Source r) N d3 = (Inr cl, d4)"
    using assms u m by (simp add: apply_success_def Let_def split: prod.splits sum.splits)
  show ?thesis
  proof (cases "cl = []")
    case True
    then show ?thesis using assms u m s by (intro that [OF u m s, of d4]) (simp_all add: apply_success_def)
  next
    case False
    then obtain d5 where d5: "RecordClearedEvents fault cl pid d4 = (None, d5)" "finish_apply fault pid d5 = (None, d')"
      using assms u m s by (simp add: apply_success_def Let_def split: prod.splits option.splits)
    then show ?thesis
      using RecordClearedEvents_rows [of fault cl pid d4] by (intro that [OF u m s, of d5]) simp_all
  qed
qed

lemma upserted_rows:
  assumes u: "upsert_all fault (res_Incidents r) pid (res_StartedAt r) d = (Inr ids, d2)"
    and src: "list_all (\<lambda>i. inc_Source i = res_Source r) (res_Incidents r)"
  shows "set ids = inc_IncidentID ` set (res_Incidents r) \<and> source_polls d2 = source_polls d \<and>
    (if s = res_Source r \<and> observed_in r iid then seen_row (find_incident s iid d2)
     else find_incident s iid d2 = find_incident s iid d)"
proof -
  have "(s, iid) \<in> (\<lambda>i. (inc_Source i, inc_IncidentID i)) ` set (res_Incidents r) \<longleftrightarrow> s = res_Source r \<and> observed_in r iid"
    using src by (auto simp: observed_in_def list_all_iff)
  then show ?thesis
    using upsert_all_done [OF u, of s iid] upsert_all_polls [of fault "res_Incidents r" pid "res_StartedAt r" d] u
    by auto
qed

lemma marked_rows:
  assumes u: "upsert_all fault (res_Incidents r) pid (res_StartedAt r) d = (Inr ids, d2)"
    and m: "MarkMissing fault (res_Source r) (res_StartedAt r) ids d2 = (None, d3)"
    and src: "list_all (\<lambda>i. inc_Source i = res_Source r) (res_Incidents r)"
  shows "source_polls d3 = source_polls d \<and>
    (if s \<noteq> res_Source r then find_incident s iid d3 = find_incident s iid d
     else if observed_in r iid then seen_row (find_incident s iid d3)
     else find_incident s iid d3 =
       map_option (\<lambda>row. if ir_cleared_at row = None then marked (res_StartedAt r) row else row)
         (find_incident s iid d))"
proof -
  note U = upserted_rows [OF u src, of s iid] and M = MarkMissing_find [OF m, of s iid]
  have ids: "iid \<in> set ids \<longleftrightarrow> observed_in r iid" using U by (simp add: observed_in_def)
  consider (other) "s \<noteq> res_Source r" | (seen) "s = res_Source r" "observed_in r iid"
    | (absent) "s = res_Source r" "\<not> observed_in r iid" by blast
  then show ?thesis
  proof cases
    case other
    then show ?thesis using U M by (cases "find_incident s iid d") simp_all
  next
    case seen
    then show ?thesis using U M ids by (cases "find_incident s iid d2") (simp_all add: seen_row_def)
  next
    case absent
    then show ?thesis using U M ids by (cases "find_incident s iid d") (simp_all add: marked_def)
  qed
qed

lemma swept_rows:
  assumes "SweepCleared fault src N d3 = (Inr cl, d4)"
  shows "source_polls d4 = source_polls d3 \<and>
    find_incident s iid d4 =
      (if s = src then map_option (swept (source_polls d3) N) (find_incident s iid d3) else find_incident s iid d3)"
proof (cases "find_incident s iid d3")
  case None
  then show ?thesis using SweepCleared_find [OF assms, of s iid] by auto
next
  case (Some row)
  have "sweepable d3 src N row \<longleftrightarrow> s = src \<and> ir_cleared_at row = None \<and>
      (case ir_missing_since row of None \<Rightarrow> False | Some t \<Rightarrow> N \<le> int (miss_count (source_polls d3) (ir_source row) t))"
    using find_incident_SomeD [OF Some] by (auto simp: sweepable_def misses_count split: option.split)
  then show ?thesis using SweepCleared_find [OF assms, of s iid] Some by (auto simp: swept_def)
qed

lemma swept_cleared [simp]: "ir_cleared_at row \<noteq> None \<Longrightarrow> swept polls N row = row"
  by (auto simp: swept_def)

lemma cleared_rows:
  assumes u: "upsert_all fault (res_Incidents r) pid (res_StartedAt r) d = (Inr ids, d2)"
    and m: "MarkMissing fault (res_Source r) (res_StartedAt r) ids d2 = (None, d3)"
    and sw: "SweepCleared fault (res_Source r) N d3 = (Inr cl, d4)"
    and src: "list_all (\<lambda>i. inc_Source i = res_Source r) (res_Incidents r)"
  shows "source_polls d4 = source_polls d \<and>
    (if s \<noteq> res_Source r then find_incident s iid d4 = find_incident s iid d
     else if observed_in r iid then seen_row (find_incident s iid d4)
     else find_incident s iid d4 =
       map_option (\<lambda>row. if ir_cleared_at row = None
           then swept (source_polls d) N (marked (res_StartedAt r) row) else row)
         (find_incident s iid d))"
proof -
  note M = marked_rows [OF u m src, of s iid] and S = swept_rows [OF sw, of s iid]
  have seen: "seen_row row \<Longrightarrow> map_option (swept polls N) row = row" for polls row
    by (auto simp: seen_row_def swept_def split: option.splits)
  consider (other) "s \<noteq> res_Source r" | (seen) "s = res_Source r" "observed_in r iid"
    | (absent) "s = res_Source r" "\<not> observed_in r iid" by blast
  then show ?thesis
  proof cases
    case other
    then show ?thesis using M S by simp
  next
    case seen
    then show ?thesis using M S \<open>\<And>row polls. seen_row row \<Longrightarrow> map_option (swept polls N) row = row\<close> by simp
  next
    case absent
    then show ?thesis using M S by (cases "find_incident s iid d") auto
  qed
qed

lemma apply_success_rows:
  assumes a: "apply_success fault N r pid d = (None, d')"
    and src: "list_all (\<lambda>i. inc_Source i = res_Source r) (res_Incidents r)"
  shows "(if observed_in r iid then seen_row (find_incident (res_Source r) iid d')
          else find_incident (res_Source r) iid d' =
            map_option (\<lambda>row. if ir_cleared_at row = None
                then swept (source_polls d) N (marked (res_StartedAt r) row) else row)
              (find_incident (res_Source r) iid d))
     \<and> source_polls d' = update_where (\<lambda>p. sp_poll_id p = pid)
         (\<lambda>p. p\<lparr>sp_success := True, sp_error := None\<rparr>) (source_polls d)
     \<and> (s \<noteq> res_Source r \<longrightarrow> find_incident s iid d' = find_incident s iid d)"
proof -
  obtain ids d2 d3 cl d4 d5 where u: "upsert_all fault (res_Incidents r) pid (res_StartedAt r) d = (Inr ids, d2)"
    and mm: "MarkMissing fault (res_Source r) (res_StartedAt r) ids d2 = (None, d3)"
    and sw: "SweepCleared fault (res_Source r) N d3 = (Inr cl, d4)"
    and d5: "incidents d5 = incidents d4" "source_polls d5 = source_polls d4" "finish_apply fault pid d5 = (None, d')"
    using a by (rule apply_success_elim)
  note C = cleared_rows [OF u mm sw src]
  have d': "incidents d' = incidents d4"
    "source_polls d' = update_where (\<lambda>p. sp_poll_id p = pid) (\<lambda>p. p\<lparr>sp_success := True, sp_error := None\<rparr>) (source_polls d4)"
    using d5 by (auto simp: finish_apply_def MarkPollSucceeded_def split: option.splits prod.splits)
  have "find_incident s' iid d' = find_incident s' iid d4" for s'
    by (rule find_incident_cong) (rule d')
  then show ?thesis using C [of s iid] C [of "res_Source r" iid] d'(2) by simp
qed

lemma misses_after_success:
  assumes "\<not> sp_success row" "sp_poll_id row = pid" "pid \<notin> sp_poll_id ` set polls"
  shows "miss_count (update_where (\<lambda>p. sp_poll_id p = pid) (\<lambda>p. p\<lparr>sp_success := True, sp_error := None\<rparr>) (polls @ [row])) src t =
    miss_count polls src t + (if sp_source row = src \<and> t \<le> sp_started_at row then 1 else 0)"
proof -
  have "update_where (\<lambda>p. sp_poll_id p = pid) (\<lambda>p. p\<lparr>sp_success := True, sp_error := None\<rparr>) polls = polls"
    by (rule update_where_none) (use assms(3) in force)
  then show ?thesis
    using assms(2) by (simp add: update_append miss_count_append) (simp add: update_where_def miss_count_def)
qed

lemma fresh_id: "db_ok d \<Longrightarrow> seq_poll d \<notin> sp_poll_id ` set (source_polls d)"
  by (force simp: db_ok_def keys_ok_def list_all_iff)

lemma missing_before:
  assumes "missing_ok d" "fresh_poll r d" "find_incident (res_Source r) iid d = Some row" "ir_missing_since row = Some s"
  shows "s < res_StartedAt r"
proof -
  have row: "row \<in> set (incidents d)" "ir_source row = res_Source r"
    using find_incident_SomeD [OF assms(3)] by simp_all
  then have "missing_known (started (source_polls d)) row"
    using assms(1) by (simp add: missing_ok_def list_all_iff)
  then have "(res_Source r, s) \<in> started (source_polls d)"
    using assms(4) row by (simp add: missing_known_def)
  then obtain p where "p \<in> set (source_polls d)" "sp_source p = res_Source r" "sp_started_at p = s"
    by (auto simp: started_def)
  then show ?thesis using assms(2) by (auto simp: fresh_poll_def list_all_iff)
qed

lemma Apply_success_step:
  assumes a: "Apply fault N r d = (None, d')" and succ: "Success r"
    and fresh: "fresh_poll r d" and ok: "lifecycle_ok d"
  shows "phase_of (res_Source r) d' iid = next_phase N (observed_in r iid) (phase_of (res_Source r) d iid)"
proof (cases rule: recordPoll_cases [of fault r False pending_error d])
  case (failed e)
  then show ?thesis using a succ by (simp add: Apply_def RecordPollPending_def)
next
  case (stored row)
  let ?src = "res_Source r" and ?t = "res_StartedAt r"
  let ?d1 = "d\<lparr>source_polls := source_polls d @ [row], seq_poll := seq_poll d + 1\<rparr>"
  have as: "apply_success fault N r (seq_poll d) ?d1 = (None, d')"
    using a succ stored by (simp add: Apply_def RecordPollPending_def)
  have src: "list_all (\<lambda>i. inc_Source i = ?src) (res_Incidents r)" using fresh by (simp add: fresh_poll_def)
  have f1: "find_incident ?src iid ?d1 = find_incident ?src iid d" by (rule find_incident_cong) simp
  note R = apply_success_rows [OF as src, of iid, unfolded f1]
  have id: "seq_poll d \<notin> sp_poll_id ` set (source_polls d)"
    using ok fresh_id by (simp add: lifecycle_ok_def)
  have count': "miss_count (source_polls d') s t = miss_count (source_polls d) s t + (if ?src = s \<and> t \<le> ?t then 1 else 0)" for s t
    using R misses_after_success [OF _ stored(3) id, of s t] stored by simp
  have count1: "miss_count (source_polls ?d1) s t = miss_count (source_polls d) s t" for s t
    using stored by (simp add: miss_count_append miss_count_pending)
  have now: "miss_count (source_polls d) ?src ?t = 0"
    by (rule miss_count_fresh) (use fresh in \<open>simp add: fresh_poll_def\<close>)
  show ?thesis
  proof (cases "observed_in r iid")
    case True
    then show ?thesis using R by (simp add: phase_of_row phase_row_seen next_phase_def)
  next
    case unobserved: False
    show ?thesis
    proof (cases "find_incident ?src iid d")
      case None
      then show ?thesis using R unobserved by (simp add: phase_of_row phase_row_def next_phase_def)
    next
      case (Some old)
      have os: "ir_source old = ?src" using find_incident_SomeD [OF Some] by simp
      have new: "find_incident ?src iid d' =
        Some (if ir_cleared_at old = None then swept (source_polls ?d1) N (marked ?t old) else old)"
        using R unobserved Some by simp
      show ?thesis
      proof (cases "ir_cleared_at old")
        case (Some c)
        then show ?thesis
          using new \<open>find_incident ?src iid d = Some old\<close> unobserved
          by (simp add: phase_of_row phase_row_def next_phase_def)
      next
        case uncleared: None
        show ?thesis
        proof (cases "ir_missing_since old")
          case None
          then show ?thesis
            using new Some uncleared unobserved os count1 now count'
            by (simp add: phase_of_row phase_row_def next_phase_def marked_def swept_def)
        next
          case (Some s)
          then have "s \<le> ?t"
            using missing_before [OF _ fresh \<open>find_incident ?src iid d = Some old\<close>] ok
            by (simp add: lifecycle_ok_def less_imp_le)
          then show ?thesis
            using new \<open>find_incident ?src iid d = Some old\<close> uncleared unobserved os count1 count' Some
            by (simp add: phase_of_row phase_row_def next_phase_def marked_def swept_def)
        qed
      qed
    qed
  qed
qed

lemma Apply_other_source:
  assumes a: "Apply fault N r d = (None, d')" and succ: "Success r" and ok: "lifecycle_ok d"
    and src: "list_all (\<lambda>i. inc_Source i = res_Source r) (res_Incidents r)" and other: "s \<noteq> res_Source r"
  shows "phase_of s d' iid = phase_of s d iid"
proof (cases rule: recordPoll_cases [of fault r False pending_error d])
  case (failed e)
  then show ?thesis using a succ by (simp add: Apply_def RecordPollPending_def)
next
  case (stored row)
  let ?d1 = "d\<lparr>source_polls := source_polls d @ [row], seq_poll := seq_poll d + 1\<rparr>"
  have as: "apply_success fault N r (seq_poll d) ?d1 = (None, d')"
    using a succ stored by (simp add: Apply_def RecordPollPending_def)
  note R = apply_success_rows [OF as src, of iid s]
  have id: "seq_poll d \<notin> sp_poll_id ` set (source_polls d)"
    using ok fresh_id by (simp add: lifecycle_ok_def)
  have "find_incident s iid ?d1 = find_incident s iid d" by (rule find_incident_cong) simp
  then have f: "find_incident s iid d' = find_incident s iid d" using R other by simp
  have "miss_count (source_polls d') s t = miss_count (source_polls d) s t" for t
    using R misses_after_success [OF _ stored(3) id, of s t] stored other by simp
  then show ?thesis
    using f find_incident_SomeD [of s iid d]
    by (auto simp: phase_of_row phase_row_def split: option.splits)
qed

lemma Apply_not_authoritative:
  assumes "\<not> Success r"
  shows "incidents (snd (Apply fault N r d)) = incidents d"
    "incident_units (snd (Apply fault N r d)) = incident_units d"
    "incident_events (snd (Apply fault N r d)) = incident_events d"
    "phase_of s (snd (Apply fault N r d)) iid = phase_of s d iid"
proof -
  have "(incidents (snd (Apply fault N r d)) = incidents d \<and>
    incident_units (snd (Apply fault N r d)) = incident_units d \<and>
    incident_events (snd (Apply fault N r d)) = incident_events d) \<and>
    phase_of s (snd (Apply fault N r d)) iid = phase_of s d iid"
  proof (cases rule: recordPoll_cases [of fault r "Success r" "pollErrorString (res_Err r)" d])
    case (failed e)
    then show ?thesis using assms by (simp add: Apply_def RecordPoll_def)
  next
    case (stored row)
    then have "find_incident s iid (snd (Apply fault N r d)) = find_incident s iid d"
      using assms by (simp add: Apply_def RecordPoll_def find_incident_def)
    then show ?thesis
      using assms stored by (simp add: Apply_def RecordPoll_def phase_of_row phase_row_def
          miss_count_append miss_count_pending split: option.split)
  qed
  then show "incidents (snd (Apply fault N r d)) = incidents d"
    "incident_units (snd (Apply fault N r d)) = incident_units d"
    "incident_events (snd (Apply fault N r d)) = incident_events d"
    "phase_of s (snd (Apply fault N r d)) iid = phase_of s d iid"
    by simp_all
qed

section \<open>The interface and its refinement\<close>

inductive steps :: "('s \<Rightarrow> 'l \<Rightarrow> 's \<Rightarrow> bool) \<Rightarrow> 's \<Rightarrow> 'l list \<Rightarrow> 's \<Rightarrow> bool" for step where
  steps_nil: "steps step s [] s"
| steps_cons: "step s l s1 \<Longrightarrow> steps step s1 ls s2 \<Longrightarrow> steps step s (l # ls) s2"

inductive_simps steps_Nil: "steps step s [] s'"
inductive_simps steps_Cons: "steps step s (l # ls) s'"

text \<open>
  Any store whose applied polls make one machine step for every incident, and whose other polls make
  none, runs the machine on the applied polls alone.
\<close>

locale incident_lifecycle =
  fixes N :: int
    and phase :: "'db \<Rightarrow> string \<Rightarrow> phase"
    and step :: "'db \<Rightarrow> 'p \<Rightarrow> 'db \<Rightarrow> bool"
    and counted :: "'p \<Rightarrow> bool"
    and observed :: "'p \<Rightarrow> string \<Rightarrow> bool"
  assumes counted_step:
      "step d p d' \<Longrightarrow> counted p \<Longrightarrow> lifecycle_step N (phase d i) (observed p i) (phase d' i)"
    and skipped_step: "step d p d' \<Longrightarrow> \<not> counted p \<Longrightarrow> phase d' i = phase d i"
begin

lemma run_refines:
  "steps step d ps d' \<Longrightarrow>
   phase d' i = run_phase N (map (\<lambda>p. observed p i) (filter counted ps)) (phase d i)"
proof (induction rule: steps.induct)
  case (steps_nil s)
  then show ?case by simp
next
  case (steps_cons s l s1 ls s2)
  then show ?case
    using counted_step [of s l s1 i] skipped_step [of s l s1 i]
    by (cases "counted l") (auto simp: lifecycle_step_iff)
qed

lemma outages_do_not_count:
  "steps step d ps d' \<Longrightarrow> steps step d qs d'' \<Longrightarrow> filter counted ps = filter counted qs \<Longrightarrow>
   phase d' i = phase d'' i"
  by (simp add: run_refines)

lemma absent_run:
  assumes "steps step d ps d'" "phase d i = Seen" "list_all (\<lambda>p. counted p \<longrightarrow> \<not> observed p i) ps"
    "filter counted ps \<noteq> []"
  shows "phase d' i =
    (if int (length (filter counted ps)) \<le> N then Missing (length (filter counted ps)) else Cleared)"
proof -
  have "list_all Not (map (\<lambda>p. observed p i) (filter counted ps))"
    using assms(3) by (auto simp: list_all_iff)
  then show ?thesis
    using assms(4) run_phase_Seen [of "map (\<lambda>p. observed p i) (filter counted ps)" N]
    by (simp add: run_refines [OF assms(1)] assms(2))
qed

lemma last_sighting_wins:
  "steps step d (ps @ [p]) d' \<Longrightarrow> counted p \<Longrightarrow> observed p i \<Longrightarrow> phase d' i = Seen"
  by (simp add: run_refines run_phase_append next_phase_def)

end

definition apply_step :: "int \<Rightarrow> string \<Rightarrow> database \<Rightarrow> faults \<times> PollResult \<Rightarrow> database \<Rightarrow> bool" where
  "apply_step N src d p d' \<longleftrightarrow>
     lifecycle_ok d \<and> res_Source (snd p) = src \<and> fresh_poll (snd p) d \<and>
     Apply (fst p) N (snd p) d = (None, d')"

definition counted_poll :: "faults \<times> PollResult \<Rightarrow> bool" where
  "counted_poll p \<longleftrightarrow> Success (snd p)"

definition observed_poll :: "faults \<times> PollResult \<Rightarrow> string \<Rightarrow> bool" where
  "observed_poll p iid \<longleftrightarrow> observed_in (snd p) iid"

interpretation manager: incident_lifecycle N "phase_of src" "apply_step N src" counted_poll observed_poll
proof unfold_locales
  fix d d' :: database and p :: "faults \<times> PollResult" and i
  assume s: "apply_step N src d p d'"
  show "lifecycle_step N (phase_of src d i) (observed_poll p i) (phase_of src d' i)" if "counted_poll p"
    using s that Apply_success_step [of "fst p" N "snd p" d d' i]
    by (auto simp: lifecycle_step_iff apply_step_def counted_poll_def observed_poll_def)
  show "phase_of src d' i = phase_of src d i" if "\<not> counted_poll p"
    using s that Apply_not_authoritative(4) [of "snd p" src "fst p" N d i]
    by (simp add: apply_step_def counted_poll_def)
qed

section \<open>Sequences of polls\<close>

fun run_applies :: "int \<Rightarrow> (faults \<times> PollResult) list \<Rightarrow> database \<Rightarrow> database option" where
  "run_applies N [] d = Some d"
| "run_applies N (p # ps) d =
     (case Apply (fst p) N (snd p) d of
        (None, d') \<Rightarrow> run_applies N ps d'
      | (Some _, _) \<Rightarrow> None)"

definition poll_sequence :: "string \<Rightarrow> (faults \<times> PollResult) list \<Rightarrow> database \<Rightarrow> bool" where
  "poll_sequence src ps d \<longleftrightarrow>
     list_all (\<lambda>p. res_Source (snd p) = src \<and> fresh_poll (snd p) d) ps \<and>
     sorted_wrt (<) (map (\<lambda>p. res_StartedAt (snd p)) ps)"

lemma RecordClearedEvents_Nil: "RecordClearedEvents fault [] pid d = (None, d)"
  by (simp add: RecordClearedEvents_def)

text \<open>The errors an apply reports are never the marker of a pending poll.\<close>

definition apply_error :: "error \<Rightarrow> bool" where
  "apply_error e \<longleftrightarrow> e \<noteq> [] \<and> e \<noteq> pending_error"

lemma upsert_all_error: "upsert_all fault incs pid ot d = (Inl e, d') \<Longrightarrow> apply_error e"
proof (induction incs arbitrary: d)
  case Nil
  then show ?case by simp
next
  case (Cons inc incs)
  then show ?case
    by (auto simp: apply_error_def pending_error_def split: prod.splits option.splits sum.splits)
qed

lemma apply_success_cases:
  obtains (upsert) e d2 where
      "upsert_all fault (res_Incidents r) pid (res_StartedAt r) d = (Inl e, d2)"
      "apply_success fault N r pid d = failPollApply fault pid e d2" "apply_error e"
  | (mark) ids d2 e where
      "upsert_all fault (res_Incidents r) pid (res_StartedAt r) d = (Inr ids, d2)"
      "apply_success fault N r pid d = failPollApply fault pid e d2" "apply_error e"
  | (sweep) ids d2 d3 e where
      "upsert_all fault (res_Incidents r) pid (res_StartedAt r) d = (Inr ids, d2)"
      "MarkMissing fault (res_Source r) (res_StartedAt r) ids d2 = (None, d3)"
      "apply_success fault N r pid d = failPollApply fault pid e d3" "apply_error e"
  | (events) ids d2 d3 cl d4 e where
      "upsert_all fault (res_Incidents r) pid (res_StartedAt r) d = (Inr ids, d2)"
      "MarkMissing fault (res_Source r) (res_StartedAt r) ids d2 = (None, d3)"
      "SweepCleared fault (res_Source r) N d3 = (Inr cl, d4)"
      "apply_success fault N r pid d = failPollApply fault pid e (snd (RecordClearedEvents fault cl pid d4))" "apply_error e"
  | (finish) ids d2 d3 cl d4 where
      "upsert_all fault (res_Incidents r) pid (res_StartedAt r) d = (Inr ids, d2)"
      "MarkMissing fault (res_Source r) (res_StartedAt r) ids d2 = (None, d3)"
      "SweepCleared fault (res_Source r) N d3 = (Inr cl, d4)"
      "apply_success fault N r pid d = finish_apply fault pid (snd (RecordClearedEvents fault cl pid d4))"
proof -
  obtain res d2 where u: "upsert_all fault (res_Incidents r) pid (res_StartedAt r) d = (res, d2)" by fastforce
  show ?thesis
  proof (cases res)
    case (Inl e)
    then show ?thesis using u upsert_all_error by (intro upsert) (simp_all add: apply_success_def)
  next
    case ids: (Inr ids)
    obtain m d3 where m: "MarkMissing fault (res_Source r) (res_StartedAt r) ids d2 = (m, d3)" by fastforce
    show ?thesis
    proof (cases m)
      case (Some e)
      then have "d3 = d2" using m MarkMissing_failed by simp
      then show ?thesis using u ids m Some 
        by (intro mark [of ids d2 "''mark missing '' @ res_Source r @ '': '' @ e"]) (simp_all add: apply_success_def apply_error_def pending_error_def)
    next
      case none: None
      obtain sw d4 where sw: "SweepCleared fault (res_Source r) N d3 = (sw, d4)" by fastforce
      show ?thesis
      proof (cases sw)
        case (Inl e)
        then have "d4 = d3" using sw SweepCleared_failed by simp
        then show ?thesis using u ids m none sw Inl 
          by (intro sweep [of ids d2 d3 "''sweep cleared '' @ res_Source r @ '': '' @ e"]) (simp_all add: apply_success_def apply_error_def pending_error_def)
      next
        case cl: (Inr cl)
        obtain e d5 where ev: "RecordClearedEvents fault cl pid d4 = (e, d5)" by fastforce
        show ?thesis
        proof (cases e)
          case None
          show ?thesis
          proof (rule finish)
            show "apply_success fault N r pid d = finish_apply fault pid (snd (RecordClearedEvents fault cl pid d4))"
              using u ids m none sw cl ev None
              by (cases "cl = []") (simp_all add: apply_success_def RecordClearedEvents_Nil)
          qed (use u ids m none sw cl in simp_all)
        next
          case (Some err)
          then have "cl \<noteq> []" using ev by (auto simp: RecordClearedEvents_def)
          then show ?thesis using u ids m none sw cl ev Some
            by (intro events [of ids d2 d3 cl d4 "''record cleared events '' @ res_Source r @ '': '' @ err"])
              (simp_all add: apply_success_def apply_error_def pending_error_def)
        qed
      qed
    qed
  qed
qed

lemma started_update:
  "(\<And>p. sp_source (f p) = sp_source p) \<Longrightarrow> (\<And>p. sp_started_at (f p) = sp_started_at p) \<Longrightarrow>
   started (update_where q f ps) = started ps"
proof -
  assume "\<And>p. sp_source (f p) = sp_source p" "\<And>p. sp_started_at (f p) = sp_started_at p"
  then have "map (\<lambda>p. (sp_source p, sp_started_at p)) (update_where q f ps) = map (\<lambda>p. (sp_source p, sp_started_at p)) ps"
    by (intro map_update_where) simp
  from arg_cong [OF this, of set] show ?thesis by (simp add: started_def)
qed

lemma failPollApply_started: "started (source_polls (snd (failPollApply fault pid e d))) = started (source_polls d)"
  by (simp add: failPollApply_snd MarkPollFailed_def started_update split: option.split)

lemma finish_apply_started: "started (source_polls (snd (finish_apply fault pid d))) = started (source_polls d)"
  by (simp add: finish_apply_snd MarkPollSucceeded_def started_update split: option.split)

lemma apply_success_started:
  "started (source_polls (snd (apply_success fault N r pid d))) = started (source_polls d)"
proof -
  have up: "source_polls d2 = source_polls d"
    if "upsert_all fault (res_Incidents r) pid (res_StartedAt r) d = (res, d2)" for res d2
    using upsert_all_polls [of fault "res_Incidents r" pid "res_StartedAt r" d] that by simp
  have mm: "source_polls d3 = source_polls d2"
    if "MarkMissing fault (res_Source r) (res_StartedAt r) ids d2 = (None, d3)" for ids d2 d3
    using MarkMissing_find [OF that] by simp
  have sw: "source_polls d4 = source_polls d3"
    if "SweepCleared fault (res_Source r) N d3 = (Inr cl, d4)" for cl d3 d4
    using SweepCleared_find [OF that] by simp
  show ?thesis
  proof (cases rule: apply_success_cases [of fault r pid d N])
    case (upsert e d2)
    then show ?thesis using up by (simp add: failPollApply_started)
  next
    case (mark ids d2 e)
    then show ?thesis using up by (simp add: failPollApply_started)
  next
    case (sweep ids d2 d3 e)
    then show ?thesis using up mm by (simp add: failPollApply_started)
  next
    case (events ids d2 d3 cl d4 e)
    then show ?thesis using up mm sw by (simp add: failPollApply_started RecordClearedEvents_rows)
  next
    case (finish ids d2 d3 cl d4)
    then show ?thesis using up mm sw by (simp add: finish_apply_started RecordClearedEvents_rows)
  qed
qed

lemma started_append: "started (ps @ [row]) = insert (sp_source row, sp_started_at row) (started ps)"
  by (simp add: started_def)

lemma Apply_started:
  "started (source_polls (snd (Apply fault N r d))) \<subseteq> insert (res_Source r, res_StartedAt r) (started (source_polls d))"
proof (cases "Success r")
  case False
  show ?thesis
    by (cases rule: recordPoll_cases [of fault r "Success r" "pollErrorString (res_Err r)" d])
      (use False in \<open>auto simp: Apply_def RecordPoll_def started_append\<close>)
next
  case True
  show ?thesis
    by (cases rule: recordPoll_cases [of fault r False pending_error d])
      (use True in \<open>auto simp: Apply_def RecordPollPending_def apply_success_started started_append\<close>)
qed

lemma fresh_poll_iff:
  "fresh_poll r d \<longleftrightarrow> (\<forall>t. (res_Source r, t) \<in> started (source_polls d) \<longrightarrow> t < res_StartedAt r) \<and>
     list_all (\<lambda>i. inc_Source i = res_Source r) (res_Incidents r)"
  by (force simp: fresh_poll_def started_def list_all_iff)

lemma run_applies_steps:
  "run_applies N ps d = Some d' \<Longrightarrow> lifecycle_ok d \<Longrightarrow> poll_sequence src ps d \<Longrightarrow>
   steps (apply_step N src) d ps d' \<and> lifecycle_ok d'"
proof (induction ps arbitrary: d)
  case Nil
  then show ?case by (simp add: steps_Nil)
next
  case (Cons p ps)
  obtain d1 where d1: "Apply (fst p) N (snd p) d = (None, d1)" "run_applies N ps d1 = Some d'"
    using Cons.prems(1) by (auto split: prod.splits option.splits)
  have ok1: "lifecycle_ok d1" using Apply_keeps_ok [OF Cons.prems(2), of "fst p" N "snd p"] d1 by simp
  have st: "apply_step N src d p d1"
    using Cons.prems d1 by (simp add: apply_step_def poll_sequence_def)
  have "poll_sequence src ps d1"
    using Cons.prems(3) Apply_started [of "fst p" N "snd p" d] d1
    by (force simp: poll_sequence_def fresh_poll_iff list_all_iff)
  then show ?case using Cons.IH [OF d1(2) ok1] st by (auto simp: steps_Cons)
qed

text \<open>
  C1. Over any sequence of polls of one source that are applied without error, in the order of time,
  every incident of the source follows the machine driven by the successful polls alone: an outage or
  a degraded poll neither marks, counts, clears nor reopens anything.
\<close>

theorem Apply_runs_machine:
  assumes "run_applies N ps d = Some d'" and "lifecycle_ok d" and "poll_sequence src ps d"
  shows "phase_of src d' iid =
    run_phase N (map (\<lambda>p. observed_poll p iid) (filter counted_poll ps)) (phase_of src d iid)"
  using run_applies_steps [OF assms] by (blast intro: manager.run_refines)

text \<open>
  C3. An incident that is showing and then absent from every applied poll of a run is missing as long
  as there are at most \<^verbatim>\<open>clearAfterMisses\<close> of them, and cleared from the next one on: the sweep
  counts only polls already marked successful, which the current one is not, so clearing takes one
  miss more than the threshold.
\<close>

theorem cleared_one_miss_late:
  assumes "run_applies N ps d = Some d'" and "lifecycle_ok d" and "poll_sequence src ps d"
    and "phase_of src d iid = Seen" and "list_all (\<lambda>p. Success (snd p) \<longrightarrow> \<not> observed_in (snd p) iid) ps"
    and "filter counted_poll ps \<noteq> []"
  shows "phase_of src d' iid =
    (if int (length (filter counted_poll ps)) \<le> N then Missing (length (filter counted_poll ps)) else Cleared)"
proof (rule manager.absent_run)
  show "steps (apply_step N src) d ps d'" using run_applies_steps [OF assms(1-3)] by blast
  show "list_all (\<lambda>p. counted_poll p \<longrightarrow> \<not> observed_poll p iid) ps"
    using assms(5) by (simp add: counted_poll_def observed_poll_def)
qed (use assms in simp_all)

section \<open>Applies that fail half way\<close>

text \<open>
  What a failed apply can leave of an incident: nothing changed, an observed incident showing, an
  absent one marked but not counted, or one already past the threshold cleared.
\<close>

definition failed_phases :: "int \<Rightarrow> bool \<Rightarrow> phase \<Rightarrow> phase set" where
  "failed_phases N observed p =
     insert p
       (if observed then {Seen}
        else (case p of
                Seen \<Rightarrow> if N \<le> 0 then {Missing 0, Cleared} else {Missing 0}
              | Missing k \<Rightarrow> if N \<le> int k then {Cleared} else {}
              | _ \<Rightarrow> {}))"

definition successes :: "database \<Rightarrow> source_poll list" where
  "successes d = filter sp_success (source_polls d)"

lemma phase_row_successes: "phase_row polls row = phase_row (filter sp_success polls) row"
proof -
  have "miss_count polls s t = miss_count (filter sp_success polls) s t" for s t
    by (simp add: miss_count_def conj_comms)
  then show ?thesis by (simp add: phase_row_def split: option.split)
qed

lemma phase_of_successes: "phase_of src d iid = phase_row (successes d) (find_incident src iid d)"
  using phase_row_successes by (simp add: phase_of_row successes_def)

lemma filter_update_fail:
  "list_all (\<lambda>p. sp_poll_id p = pid \<longrightarrow> \<not> sp_success p) ps \<Longrightarrow>
   filter sp_success (update_where (\<lambda>p. sp_poll_id p = pid) (\<lambda>p. p\<lparr>sp_success := False, sp_error := e\<rparr>) ps) =
   filter sp_success ps"
  by (induction ps) (auto simp: update_where_def)

lemma failPollApply_rows:
  assumes "list_all (\<lambda>p. sp_poll_id p = pid \<longrightarrow> \<not> sp_success p) (source_polls d)"
  shows "incidents (snd (failPollApply fault pid e d)) = incidents d"
    "successes (snd (failPollApply fault pid e d)) = successes d"
  using assms
  by (simp_all add: failPollApply_snd MarkPollFailed_def successes_def filter_update_fail split: option.split)

lemma finish_apply_failed: "finish_apply fault pid d = (Some e, d') \<Longrightarrow> d' = d"
  by (auto simp: finish_apply_def MarkPollSucceeded_def split: option.splits prod.splits)

lemma swept_marked_phase:
  assumes "miss_count polls (ir_source row) t = 0" "\<And>s. ir_missing_since row = Some s \<Longrightarrow> s \<le> t"
  shows "phase_row polls (Some (if ir_cleared_at row = None then marked t row else row)) \<in>
      failed_phases N False (phase_row polls (Some row)) \<and>
    phase_row polls (Some (if ir_cleared_at row = None then swept polls N (marked t row) else row)) \<in>
      failed_phases N False (phase_row polls (Some row))"
  using assms
  by (auto simp: phase_row_def marked_def swept_def failed_phases_def split: option.splits if_splits)

lemma apply_success_failed:
  assumes f: "fst (apply_success fault N r pid d) \<noteq> None"
    and src: "list_all (\<lambda>i. inc_Source i = res_Source r) (res_Incidents r)"
    and pend: "list_all (\<lambda>p. sp_poll_id p = pid \<longrightarrow> \<not> sp_success p) (source_polls d)"
    and now: "miss_count (successes d) (res_Source r) (res_StartedAt r) = 0"
    and before: "\<And>row s. find_incident (res_Source r) iid d = Some row \<Longrightarrow> ir_missing_since row = Some s \<Longrightarrow> s \<le> res_StartedAt r"
  shows "successes (snd (apply_success fault N r pid d)) = successes d \<and>
    phase_of (res_Source r) (snd (apply_success fault N r pid d)) iid
      \<in> failed_phases N (observed_in r iid) (phase_of (res_Source r) d iid)"
proof -
  let ?s = "res_Source r" and ?t = "res_StartedAt r"
  have stay: "p \<in> failed_phases N b p" and seen: "Seen \<in> failed_phases N True p" for b p
    by (simp_all add: failed_phases_def)
  have end_fail: "successes (snd (failPollApply fault pid e d')) = successes d \<and>
      phase_of ?s (snd (failPollApply fault pid e d')) iid = phase_row (successes d) (find_incident ?s iid d')"
    if "source_polls d' = source_polls d" for e d'
    using failPollApply_rows [of pid d' fault e] pend that
      find_incident_cong [of "snd (failPollApply fault pid e d')" d' ?s iid]
    by (simp add: phase_of_successes successes_def)
  have absent: "phase_row (successes d) (find_incident ?s iid d') \<in> failed_phases N (observed_in r iid) (phase_of ?s d iid)"
    if "\<not> observed_in r iid" "find_incident ?s iid d' = map_option (\<lambda>row. if ir_cleared_at row = None then marked ?t row else row) (find_incident ?s iid d) \<or>
       find_incident ?s iid d' = map_option (\<lambda>row. if ir_cleared_at row = None then swept (source_polls d) N (marked ?t row) else row) (find_incident ?s iid d)" for d'
  proof (cases "find_incident ?s iid d")
    case None
    then show ?thesis using that stay by (auto simp: phase_of_successes)
  next
    case (Some row)
    have mc: "miss_count (source_polls d) a b = miss_count (successes d) a b" for a b
      by (simp add: miss_count_def successes_def conj_comms)
    then have "swept (source_polls d) N x = swept (successes d) N x" for x
      by (simp add: swept_def split: option.split)
    then show ?thesis
      using that Some swept_marked_phase [of "successes d" row ?t N] now before [OF Some] find_incident_SomeD [OF Some]
      by (auto simp: phase_of_successes)
  qed
  have pp: "phase_row (successes d) (find_incident ?s iid d') \<in> failed_phases N (observed_in r iid) (phase_of ?s d iid)"
    if "find_incident ?s iid d' = find_incident ?s iid d \<or> (observed_in r iid \<and> seen_row (find_incident ?s iid d'))" for d'
    using that stay seen phase_row_seen by (auto simp: phase_of_successes)
  show ?thesis
  proof (cases rule: apply_success_cases [of fault r pid d N])
    case (upsert e d2)
    have "source_polls d2 = source_polls d"
      using upsert_all_polls [of fault "res_Incidents r" pid ?t d] upsert(1) by simp
    then show ?thesis
      using end_fail [of d2 e] pp [of d2] upsert_all_partial [OF upsert(1), of ?s iid] src upsert(2)
      by (auto simp: observed_in_def)
  next
    case (mark ids d2 e)
    then show ?thesis
      using upserted_rows [OF mark(1) src, of ?s iid] end_fail [of d2 e] pp [of d2] by (auto split: if_splits)
  next
    case (sweep ids d2 d3 e)
    then show ?thesis
      using marked_rows [OF sweep(1,2) src, of ?s iid] end_fail [of d3 e] pp [of d3] absent [of d3]
      by (auto split: if_splits)
  next
    case (events ids d2 d3 cl d4 e)
    let ?d5 = "snd (RecordClearedEvents fault cl pid d4)"
    have f5: "find_incident ?s iid ?d5 = find_incident ?s iid d4" "source_polls ?d5 = source_polls d4"
      by (rule find_incident_cong) (simp_all add: RecordClearedEvents_rows)
    then show ?thesis
      using cleared_rows [OF events(1,2,3) src, of ?s iid] end_fail [of ?d5 e] pp [of ?d5] absent [of ?d5] events(4)
      by (auto split: if_splits)
  next
    case (finish ids d2 d3 cl d4)
    let ?d5 = "snd (RecordClearedEvents fault cl pid d4)"
    have f5: "find_incident ?s iid ?d5 = find_incident ?s iid d4" "source_polls ?d5 = source_polls d4"
      by (rule find_incident_cong) (simp_all add: RecordClearedEvents_rows)
    have "snd (apply_success fault N r pid d) = ?d5"
      using f finish(4) finish_apply_failed [of fault pid ?d5] by (cases "finish_apply fault pid ?d5") auto
    moreover have "phase_of ?s ?d5 iid = phase_row (successes d) (find_incident ?s iid ?d5)" "successes ?d5 = successes d"
      using cleared_rows [OF finish(1,2,3) src, of ?s iid] f5 by (simp_all add: phase_of_successes successes_def)
    ultimately show ?thesis
      using cleared_rows [OF finish(1,2,3) src, of ?s iid] f5 pp [of ?d5] absent [of ?d5]
      by (auto split: if_splits)
  qed
qed



section \<open>Concrete runs\<close>

definition sample_result :: "time \<Rightarrow> Incident list \<Rightarrow> PollResult" where
  "sample_result t incs =
     \<lparr>res_Source = ''phoenix-fire-mapserver'', res_RequestURL = ''u'', res_StartedAt = t,
      res_FinishedAt = t + 1, res_StatusCode = 200, res_LatencyMS = 0, res_Incidents = incs,
      res_PayloadSHA256 = ''aa'', res_ParserVersion = ''p'',
      res_Classification = PollAuthoritativeSuccess, res_Reason = ''healthy'',
      res_UnchangedSince = None, res_Err = None\<rparr>"

definition sample_outage :: "time \<Rightarrow> PollResult" where
  "sample_outage t =
     (sample_result t [])\<lparr>res_Classification := PollFailure, res_Err := Some ''http''\<rparr>"

definition showing_db :: database where
  "showing_db = snd (Apply no_faults 1 (sample_result 100 [sample_incident]) empty_db)"

definition absent_polls :: "(faults \<times> PollResult) list" where
  "absent_polls =
     [(no_faults, sample_result 160 []), (no_faults, sample_outage 220), (no_faults, sample_result 280 [])]"

lemma showing_db_facts:
  "lifecycle_ok showing_db" "phase_of ''phoenix-fire-mapserver'' showing_db ''F1'' = Seen"
  "poll_sequence ''phoenix-fire-mapserver'' absent_polls showing_db"
  "run_applies 1 absent_polls showing_db \<noteq> None"
  by code_simp+

theorem Apply_runs_machine_witness:
  "phase_of ''phoenix-fire-mapserver'' (the (run_applies 1 absent_polls showing_db)) ''F1'' =
   run_phase 1 [False, False] Seen"
proof -
  obtain d' where d': "run_applies 1 absent_polls showing_db = Some d'"
    using showing_db_facts(4) by blast
  have "map (\<lambda>p. observed_poll p ''F1'') (filter counted_poll absent_polls) = [False, False]"
    by code_simp
  then show ?thesis
    using Apply_runs_machine [OF d' showing_db_facts(1,3), of "''F1''"] d' showing_db_facts(2) by simp
qed

theorem cleared_one_miss_late_witness:
  "phase_of ''phoenix-fire-mapserver'' (the (run_applies 1 absent_polls showing_db)) ''F1'' = Cleared"
proof -
  obtain d' where d': "run_applies 1 absent_polls showing_db = Some d'"
    using showing_db_facts(4) by blast
  have "list_all (\<lambda>p. Success (snd p) \<longrightarrow> \<not> observed_in (snd p) ''F1'') absent_polls"
    "length (filter counted_poll absent_polls) = 2"
    by code_simp+
  then show ?thesis
    using cleared_one_miss_late [OF d' showing_db_facts(1,3,2)] d' by fastforce
qed

definition sweep_fault :: faults where
  "sweep_fault c d = (if c = SweepStmt then Some ''timeout'' else None)"

lemma sweep_fault_run:
  "fst (Apply sweep_fault 1 (sample_result 160 []) showing_db) \<noteq> None"
  "Success (sample_result 160 [])" "fresh_poll (sample_result 160 []) showing_db"
  by code_simp+


section \<open>A cleared incident without its event\<close>

text \<open>
  The sweep commits before the events are written in a transaction of their own. When that one fails,
  the incident stays cleared; the sweep never returns it again, so its event is never written.
\<close>

definition events_fault :: faults where
  "events_fault c d = (if c = BeginEvents then Some ''timeout'' else None)"

definition lossy_polls :: "(faults \<times> PollResult) list" where
  "lossy_polls = [(no_faults, sample_result 160 []), (events_fault, sample_result 220 []), (no_faults, sample_result 280 [])]"

definition lossy_db :: database where
  "lossy_db = foldl (\<lambda>d p. snd (Apply (fst p) 1 (snd p) d)) showing_db lossy_polls"


section \<open>Jitter\<close>

lemma truncate_rat_bound: "\<bar>q\<bar> \<le> of_int j \<Longrightarrow> \<bar>truncate_rat q\<bar> \<le> j"
proof -
  assume a: "\<bar>q\<bar> \<le> of_int j"
  then have "\<lfloor>\<bar>q\<bar>\<rfloor> \<le> j" by linarith
  moreover have "0 \<le> \<lfloor>\<bar>q\<bar>\<rfloor>" by simp
  then have "\<bar>truncate_rat q\<bar> = \<lfloor>\<bar>q\<bar>\<rfloor>"
    by (cases "q < 0") (simp_all add: truncate_rat_def)
  ultimately show ?thesis by simp
qed

lemma Jitter_within: "0 \<le> rnd \<Longrightarrow> rnd \<le> 1 \<Longrightarrow> \<bar>Jitter base jitter rnd - base\<bar> \<le> max 0 jitter"
proof (cases "jitter \<le> 0")
  case False
  assume "0 \<le> rnd" "rnd \<le> 1"
  then have "\<bar>rnd * 2 - 1\<bar> \<le> 1" by (simp add: abs_le_iff)
  then have "\<bar>(rnd * 2 - 1) * of_int jitter\<bar> \<le> of_int jitter"
    using False mult_right_mono [of "\<bar>rnd * 2 - 1\<bar>" 1 "of_int jitter"] by (simp add: abs_mult)
  from truncate_rat_bound [OF this] show ?thesis using False by (simp add: Jitter_def)
qed (simp add: Jitter_def)

end
