(* ===== verification/Phxfire_Codes.thy ===== *)
theory Phxfire_Codes
  imports Feed_Model
begin

text \<open>
  The code tables of \<^verbatim>\<open>internal/source/phxfire/phxfire.go\<close> and the functions that read them:
  nature descriptions, unit types, labels and severities, with the facts that make the tables
  consistent with one another and the normalisation stable when it is applied twice (once by the
  ingester, once by the API).
\<close>

section \<open>The tables\<close>

definition SourceName :: string where
  "SourceName = ''phoenix-fire-mapserver''"

definition ParserVersion :: string where
  "ParserVersion = ''phx-fire-2026-05''"

definition expectedFields :: "string list" where
  "expectedFields =
    [''OBJECTID'',
     ''Incident'',
     ''Nature'',
     ''NatureDesc'',
     ''Units'',
     ''Channel'',
     ''SymbolCode'',
     ''Date'',
     ''GenLocInfo'']"

definition natureDescOverrides :: "(string \<times> string) list" where
  "natureDescOverrides =
    [(''962'', ''Vehicle Crash''),
     (''962A'', ''Vehicle Crash''),
     (''962BC'', ''Crash Involving Bicycle''),
     (''962P'', ''Crash Involving Pedestrian''),
     (''962X'', ''Crash Requiring Extrication''),
     (''962MC'', ''Crash Involving Motorcycle'')]"

definition unitTypePrefixes :: "(string \<times> string) list" where
  "unitTypePrefixes =
    [(''NEDC'', ''Division Chief''),
     (''NDC'', ''Division Chief''),
     (''SDC'', ''Division Chief''),
     (''WDC'', ''Division Chief''),
     (''EDC'', ''Division Chief''),
     (''BC'', ''Battalion Chief''),
     (''BR'', ''Brush truck''),
     (''HM'', ''Hazmat unit''),
     (''HR'', ''Heavy Rescue''),
     (''DR'', ''Drone''),
     (''PI'', ''Public Information''),
     (''LT'', ''Light truck''),
     (''E'', ''Engine''),
     (''L'', ''Ladder / Truck''),
     (''M'', ''Medic / Ambulance''),
     (''S'', ''Squad / Paramedic''),
     (''R'', ''Rescue'')]"

record CodeInfo =
  ci_Code :: string
  ci_Label :: string
  ci_Category :: string

definition codeDictionary :: "CodeInfo list" where
  "codeDictionary =
    [\<lparr>ci_Code = ''962'', ci_Label = ''Vehicle Crash'', ci_Category = ''traffic''\<rparr>,
     \<lparr>ci_Code = ''962A'', ci_Label = ''Vehicle Crash'', ci_Category = ''traffic''\<rparr>,
     \<lparr>ci_Code = ''962BC'', ci_Label = ''Crash Involving Bicycle'', ci_Category = ''traffic''\<rparr>,
     \<lparr>ci_Code = ''962MC'', ci_Label = ''Crash Involving Motorcycle'', ci_Category = ''traffic''\<rparr>,
     \<lparr>ci_Code = ''962P'', ci_Label = ''Crash Involving Pedestrian'', ci_Category = ''traffic''\<rparr>,
     \<lparr>ci_Code = ''962X'', ci_Label = ''Crash Requiring Extrication'', ci_Category = ''traffic''\<rparr>,
     \<lparr>ci_Code = ''BRST'', ci_Label = ''Brush Fire'', ci_Category = ''fire''\<rparr>,
     \<lparr>ci_Code = ''CKFOUT'', ci_Label = ''Check Fire'', ci_Category = ''fire''\<rparr>,
     \<lparr>ci_Code = ''CRASH'', ci_Label = ''Aircraft Down'', ci_Category = ''rescue''\<rparr>,
     \<lparr>ci_Code = ''DEBRIS'', ci_Label = ''Debris Fire'', ci_Category = ''fire''\<rparr>,
     \<lparr>ci_Code = ''DUMP'', ci_Label = ''Dumpster Fire'', ci_Category = ''fire''\<rparr>,
     \<lparr>ci_Code = ''FIELD'', ci_Label = ''Field Fire'', ci_Category = ''fire''\<rparr>,
     \<lparr>ci_Code = ''FLOOD'', ci_Label = ''Check Flooding'', ci_Category = ''rescue''\<rparr>,
     \<lparr>ci_Code = ''GAS'', ci_Label = ''Gas Leak'', ci_Category = ''hazmat''\<rparr>,
     \<lparr>ci_Code = ''GAS2-1'', ci_Label = ''Gas Leak'', ci_Category = ''hazmat''\<rparr>,
     \<lparr>ci_Code = ''GRASS'', ci_Label = ''Grass Fire'', ci_Category = ''fire''\<rparr>,
     \<lparr>ci_Code = ''HAZ3-1'', ci_Label = ''Hazardous Situation'', ci_Category = ''hazmat''\<rparr>,
     \<lparr>ci_Code = ''HOUSE'', ci_Label = ''House Fire'', ci_Category = ''fire''\<rparr>,
     \<lparr>ci_Code = ''LOCK'', ci_Label = ''Lock Out'', ci_Category = ''rescue''\<rparr>,
     \<lparr>ci_Code = ''MTNRES'', ci_Label = ''Mountain Rescue'', ci_Category = ''rescue''\<rparr>,
     \<lparr>ci_Code = ''POLE'', ci_Label = ''Pole Fire'', ci_Category = ''fire''\<rparr>,
     \<lparr>ci_Code = ''SNAKE'', ci_Label = ''Snake Removal'', ci_Category = ''rescue''\<rparr>,
     \<lparr>ci_Code = ''STR'', ci_Label = ''Structure Fire'', ci_Category = ''fire''\<rparr>,
     \<lparr>ci_Code = ''TREE'', ci_Label = ''Tree Fire'', ci_Category = ''fire''\<rparr>,
     \<lparr>ci_Code = ''UNKF'', ci_Label = ''Unknown Fire'', ci_Category = ''other''\<rparr>,
     \<lparr>ci_Code = ''VEH'', ci_Label = ''Vehicle Fire'', ci_Category = ''fire''\<rparr>,
     \<lparr>ci_Code = ''WF'', ci_Label = ''Working Structure Fire'', ci_Category = ''fire''\<rparr>]"

section \<open>The functions\<close>

definition numericPrefix :: "string \<Rightarrow> string" where
  "numericPrefix s = takeWhile is_digit s"

fun find_label :: "CodeInfo list \<Rightarrow> string \<Rightarrow> string option" where
  "find_label [] code = None"
| "find_label (item # items) code =
     (if ci_Code item = code then Some (ci_Label item) else find_label items code)"

definition labelForCode :: "string \<Rightarrow> string option" where
  "labelForCode code = find_label codeDictionary code"

text \<open>
  Go keeps \<^verbatim>\<open>LabelForCode\<close> (exported, normalising) and \<^verbatim>\<open>labelForCode\<close> apart by case only;
  the exported one is \<^verbatim>\<open>LabelForCode\<close> here too.
\<close>

definition LabelForCode :: "string \<Rightarrow> string" where
  "LabelForCode code =
     (let code' = ToUpper (TrimSpace code)
      in case labelForCode code' of Some label \<Rightarrow> label | None \<Rightarrow> code')"

definition NatureDescriptionFor :: "string \<Rightarrow> string \<Rightarrow> string" where
  "NatureDescriptionFor code0 desc0 =
     (let code = ToUpper (TrimSpace code0);
          desc = TrimSpace desc0
      in case map_of natureDescOverrides code of
           None \<Rightarrow> desc
         | Some override \<Rightarrow>
             (let upperDesc = ToUpper desc;
                  family = numericPrefix code
              in if desc = [] \<or> upperDesc = code \<or> HasPrefix upperDesc code \<or>
                    (family \<noteq> [] \<and> HasPrefix upperDesc (family @ '' ''))
                 then override
                 else if desc = []
                 then (case labelForCode code of Some label \<Rightarrow> label | None \<Rightarrow> desc)
                 else desc))"

fun first_prefix :: "(string \<times> string) list \<Rightarrow> string \<Rightarrow> string" where
  "first_prefix [] u = ''other''"
| "first_prefix ((p, t) # items) u = (if HasPrefix u p then t else first_prefix items u)"

definition UnitTypeForName :: "string \<Rightarrow> string" where
  "UnitTypeForName u = first_prefix unitTypePrefixes (ToUpper (TrimSpace u))"

definition SeverityForCode :: "string \<Rightarrow> string" where
  "SeverityForCode code0 =
     (let code = ToUpper (TrimSpace code0)
      in if code \<in> set [''STR'', ''HOUSE'', ''WF'', ''CRASH'', ''MTNRES''] then ''high''
         else if code \<in> set [''962X'', ''GRASS'', ''BRST'', ''VEH'', ''DEBRIS'', ''FLOOD'', ''TREE'']
         then ''medium''
         else if code \<in> set [''962'', ''962A'', ''LOCK'', ''SNAKE'', ''CKFOUT''] then ''low''
         else if HasPrefix code ''HAZ'' \<or> HasPrefix code ''GAS'' then ''high''
         else ''unknown'')"

definition plausibleWGS84 :: "rat \<Rightarrow> rat \<Rightarrow> bool" where
  "plausibleWGS84 x y \<longleftrightarrow>
     x \<ge> -180 \<and> x \<le> 180 \<and> y \<ge> -90 \<and> y \<le> 90 \<and> (x \<noteq> 0 \<or> y \<noteq> 0)"

fun collapse_from :: "bool \<Rightarrow> string \<Rightarrow> string" where
  "collapse_from prevSpace [] = []"
| "collapse_from prevSpace (r # rs) =
     (if r = CHR '' '' \<or> r = CHR 0x09 \<or> r = CHR 0x0A \<or> r = CHR 0x0D \<or> r = CHR 0xA0
      then (if prevSpace then collapse_from True rs else CHR '' '' # collapse_from True rs)
      else r # collapse_from False rs)"

definition collapseWhitespace :: "string \<Rightarrow> string" where
  "collapseWhitespace s = collapse_from False s"

section \<open>The tables agree with one another\<close>

lemma overrides_distinct: "distinct (map fst natureDescOverrides)"
  by code_simp

lemma dictionary_codes_distinct: "distinct (map ci_Code codeDictionary)"
  by code_simp

lemma find_label_Some: "find_label items code = Some l \<Longrightarrow> \<exists>i \<in> set items. ci_Code i = code \<and> ci_Label i = l"
  by (induction items) (auto split: if_splits)

lemma find_label_None: "find_label items code = None \<longleftrightarrow> code \<notin> ci_Code ` set items"
  by (induction items) auto

lemma find_label_distinct:
  "distinct (map ci_Code items) \<Longrightarrow> i \<in> set items \<Longrightarrow> find_label items (ci_Code i) = Some (ci_Label i)"
  by (induction items) auto

lemma overrides_in_dictionary:
  "list_all (\<lambda>(code, label). labelForCode code = Some label) natureDescOverrides"
  by code_simp

section \<open>Longest match\<close>

text \<open>
  The prefix table is scanned in order. Because no entry is a prefix of a later one, the first match
  is the longest match.
\<close>

definition longest_first :: "(string \<times> string) list \<Rightarrow> bool" where
  "longest_first items \<longleftrightarrow> sorted_wrt (\<lambda>e f. \<not> HasPrefix (fst f) (fst e)) items"

lemma unitTypePrefixes_longest_first: "longest_first unitTypePrefixes"
  unfolding longest_first_def unitTypePrefixes_def HasPrefix_def by simp

lemma first_prefix_longest:
  assumes "sorted_wrt (\<lambda>e f. \<not> HasPrefix (fst f) (fst e)) items"
    and "(p, t) \<in> set items" and "HasPrefix u p"
    and "\<And>q t'. (q, t') \<in> set items \<Longrightarrow> HasPrefix u q \<Longrightarrow> length q \<le> length p"
  shows "first_prefix items u = t"
  using assms
proof (induction items)
  case Nil
  then show ?case by simp
next
  case (Cons e items)
  obtain q t' where e: "e = (q, t')" by (cases e)
  show ?case
  proof (cases "HasPrefix u q")
    case True
    then have "length q \<le> length p" using Cons.prems(4) e by force
    then have "HasPrefix p q"
      using True Cons.prems(3) by (auto simp: HasPrefix_def intro: prefix_length_prefix)
    then have "(p, t) \<notin> set items" using Cons.prems(1) e by force
    then show ?thesis using Cons.prems(2) e True by auto
  next
    case False
    then have "(p, t) \<in> set items" using Cons.prems(2,3) e by auto
    moreover have "\<And>q t'. (q, t') \<in> set items \<Longrightarrow> HasPrefix u q \<Longrightarrow> length q \<le> length p"
      by (rule Cons.prems(4)) auto
    ultimately show ?thesis using Cons False e by simp
  qed
qed

text \<open>
  A unit's type is the one of the longest table prefix its (trimmed, upper-cased) name starts
  with, although the code only takes the first entry that matches.
\<close>

theorem UnitTypeForName_longest:
  assumes "(p, t) \<in> set unitTypePrefixes" and "HasPrefix (ToUpper (TrimSpace u)) p"
    and "\<And>q t'. (q, t') \<in> set unitTypePrefixes \<Longrightarrow> HasPrefix (ToUpper (TrimSpace u)) q \<Longrightarrow>
           length q \<le> length p"
  shows "UnitTypeForName u = t"
  unfolding UnitTypeForName_def
  by (rule first_prefix_longest [OF _ assms])
    (use unitTypePrefixes_longest_first in \<open>simp add: longest_first_def\<close>)

lemma unit_eval: "ToUpper (TrimSpace '' edc7'') = ''EDC7''" by code_simp

theorem UnitTypeForName_longest_witness: "UnitTypeForName '' edc7'' = ''Division Chief''"
proof (rule UnitTypeForName_longest [of "''EDC''"])
  show "(''EDC'', ''Division Chief'') \<in> set unitTypePrefixes" by (simp add: unitTypePrefixes_def)
  show "HasPrefix (ToUpper (TrimSpace '' edc7'')) ''EDC''" by (simp add: unit_eval HasPrefix_def)
  fix q t' :: string
  assume "(q, t') \<in> set unitTypePrefixes" and "HasPrefix (ToUpper (TrimSpace '' edc7'')) q"
  then show "length q \<le> length ''EDC''"
    by (auto simp: unitTypePrefixes_def unit_eval HasPrefix_def)
qed

section \<open>Normalising twice is normalising once\<close>

text \<open>
  A description the override table yields is never taken for a bare code, so the API's second pass
  over what the ingester stored leaves it alone.
\<close>

definition bare_label :: "string \<Rightarrow> string \<Rightarrow> bool" where
  "bare_label code desc \<longleftrightarrow>
     desc = [] \<or> ToUpper desc = code \<or> HasPrefix (ToUpper desc) code \<or>
     (numericPrefix code \<noteq> [] \<and> HasPrefix (ToUpper desc) (numericPrefix code @ '' ''))"

lemma NatureDescriptionFor_cases:
  "NatureDescriptionFor c d =
     (case map_of natureDescOverrides (ToUpper (TrimSpace c)) of
        None \<Rightarrow> TrimSpace d
      | Some override \<Rightarrow>
          if bare_label (ToUpper (TrimSpace c)) (TrimSpace d) then override else TrimSpace d)"
  by (auto simp: NatureDescriptionFor_def bare_label_def Let_def split: option.split)

lemma override_labels:
  "list_all (\<lambda>(code, label). TrimSpace label = label \<and> \<not> bare_label code label) natureDescOverrides"
  by code_simp

lemma override_label_stable:
  assumes "map_of natureDescOverrides code = Some label"
  shows "TrimSpace label = label \<and> \<not> bare_label code label"
  using override_labels map_of_SomeD [OF assms] by (force simp: list_all_iff)

text \<open>
  Normalising a nature description twice gives what normalising it once gives: the ingester
  stores the result of the first pass and the API runs the second over it.
\<close>

theorem NatureDescriptionFor_idempotent:
  "NatureDescriptionFor c (NatureDescriptionFor c d) = NatureDescriptionFor c d"
  by (auto simp: NatureDescriptionFor_cases override_label_stable split: option.splits)

end
