(* ===== verification/Phxfire_Parse.thy ===== *)
theory Phxfire_Parse
  imports Phxfire_Codes
begin

text \<open>
  Parsing and validating one upstream response (\<^verbatim>\<open>internal/source/phxfire/phxfire.go\<close>,
  \<^verbatim>\<open>parseUnits\<close>, \<^verbatim>\<open>ParseFeatures\<close>, \<^verbatim>\<open>hasExpectedContract\<close>, \<^verbatim>\<open>validateSnapshot\<close>).

  The JSON decoder, \<^verbatim>\<open>html.UnescapeString\<close> and SHA-256 are arguments, collected in the record
  \<^verbatim>\<open>Codec\<close>: each is a function of the bytes it is given, and nothing is assumed of them unless a
  theorem says so.
\<close>

section \<open>Units\<close>

text \<open>
  \<^verbatim>\<open>parseUnits\<close> keeps the current unit's name, the words of its status and the units already
  complete; \<^verbatim>\<open>flush\<close> is the closure that completes the current one.
\<close>

definition flush :: "string \<Rightarrow> string list \<Rightarrow> Unit list \<Rightarrow> Unit list" where
  "flush unit0 statusParts out =
     (let name = TrimSpace unit0
      in if name = [] then out
         else out @ [\<lparr>unit_Unit = name,
                      unit_Status = collapseWhitespace (Join statusParts '' ''),
                      unit_UnitType = UnitTypeForName name\<rparr>])"

fun parse_tokens :: "string list \<Rightarrow> string \<Rightarrow> string list \<Rightarrow> Unit list \<Rightarrow> Unit list" where
  "parse_tokens [] name statusParts out = flush name statusParts out"
| "parse_tokens (tok # toks) name statusParts out =
     (let token = TrimSpace tok
      in if token = [] then parse_tokens toks name statusParts out
         else if HasSuffix token '':''
         then parse_tokens toks (TrimSuffix token '':'') [] (flush name statusParts out)
         else if name = [] then parse_tokens toks token statusParts out
         else parse_tokens toks name (statusParts @ [token]) out)"

definition comma_to_blank :: "string \<Rightarrow> string" where
  "comma_to_blank s = map (\<lambda>c. if c = CHR '','' then CHR '' '' else c) s"

definition parseUnits :: "(string \<Rightarrow> string) \<Rightarrow> string \<Rightarrow> Unit list" where
  "parseUnits unescape raw =
     (let decoded = comma_to_blank (unescape raw);
          tokens = Fields decoded
      in if tokens = [] then [] else parse_tokens tokens [] [] [])"

section \<open>Features\<close>

record rawFeature =
  raw_OBJECTID :: int
  raw_Incident :: string
  raw_Nature :: string
  raw_NatureDesc :: string
  raw_Units :: string
  raw_Channel :: string
  raw_SymbolCode :: string
  raw_Date :: int
  raw_GenLocInfo :: string
  raw_X :: rat
  raw_Y :: rat

record responseEnvelope =
  env_Features :: string
  env_Error :: string
  env_ExceededTransferLimit :: bool
  env_GeometryType :: string
  env_WKID :: int
  env_LatestWKID :: int
  env_Fields :: "string list"

record Codec =
  decode_envelope :: "string \<Rightarrow> error + responseEnvelope"
  decode_array :: "string \<Rightarrow> error + string list"
  decode_response :: "string \<Rightarrow> error + rawFeature list"
  decode_count :: "string \<Rightarrow> error + (int option \<times> string)"
  marshal_feature :: "rawFeature \<Rightarrow> string"
  unescape_html :: "string \<Rightarrow> string"
  sha256_hex :: "string \<Rightarrow> string"

definition UnixMilli :: "int \<Rightarrow> time" where
  "UnixMilli ms = ms * millisecond"

text \<open>\<^verbatim>\<open>t.Year() < 2020\<close>, in UTC: before 2020-01-01T00:00:00Z, Unix second 1577836800.\<close>

definition year_before_2020 :: "time \<Rightarrow> bool" where
  "year_before_2020 t \<longleftrightarrow> t < 1577836800 * second"

definition keep_feature :: "rawFeature \<Rightarrow> bool" where
  "keep_feature f \<longleftrightarrow>
     raw_Incident f \<noteq> [] \<and> plausibleWGS84 (raw_X f) (raw_Y f) \<and>
     \<not> (raw_Date f \<le> 0 \<or> year_before_2020 (UnixMilli (raw_Date f)))"

definition feature_incident :: "Codec \<Rightarrow> rawFeature \<Rightarrow> Incident" where
  "feature_incident codec f =
     (let natureCode = TrimSpace (raw_Nature f)
      in \<lparr>inc_Source = SourceName,
          inc_IncidentID = TrimSpace (raw_Incident f),
          inc_NatureCode = natureCode,
          inc_NatureDesc = NatureDescriptionFor natureCode (raw_NatureDesc f),
          inc_Units = parseUnits (unescape_html codec) (raw_Units f),
          inc_Channel = TrimSpace (raw_Channel f),
          inc_SymbolCode = TrimSpace (raw_SymbolCode f),
          inc_LocationText = TrimSpace (raw_GenLocInfo f),
          inc_Lon = raw_X f,
          inc_Lat = raw_Y f,
          inc_IncidentDate = UnixMilli (raw_Date f),
          inc_Raw = marshal_feature codec f\<rparr>)"

definition ParseFeatures :: "Codec \<Rightarrow> string \<Rightarrow> error + Incident list" where
  "ParseFeatures codec body =
     (case decode_response codec body of
        Inl e \<Rightarrow> Inl e
      | Inr features \<Rightarrow> Inr (map (feature_incident codec) (filter keep_feature features)))"

definition hasExpectedContract :: "responseEnvelope \<Rightarrow> bool" where
  "hasExpectedContract envelope =
     (if env_GeometryType envelope \<noteq> ''esriGeometryPoint'' then False
      else if env_WKID envelope \<noteq> 4326 \<and> env_LatestWKID envelope \<noteq> 4326 then False
      else list_all (\<lambda>expected. expected \<in> set (env_Fields envelope)) expectedFields)"

record Snapshot =
  snap_Incidents :: "Incident list"
  snap_FeatureCount :: int
  snap_Classification :: PollClassification
  snap_Reason :: string
  snap_Err :: "error option"

definition snapshot_failure :: "error \<Rightarrow> Snapshot" where
  "snapshot_failure e =
     \<lparr>snap_Incidents = [], snap_FeatureCount = 0, snap_Classification = PollFailure,
      snap_Reason = ''contract_invalid'', snap_Err = Some e\<rparr>"

definition validateSnapshot :: "Codec \<Rightarrow> string \<Rightarrow> Snapshot" where
  "validateSnapshot codec body =
     (case decode_envelope codec body of
        Inl e \<Rightarrow> snapshot_failure (''parse: '' @ e)
      | Inr envelope \<Rightarrow>
          if env_Error envelope \<noteq> [] \<and> env_Error envelope \<noteq> ''null''
          then snapshot_failure ''parse: ArcGIS error response''
          else if env_Features envelope = [] \<or> env_Features envelope = ''null''
          then snapshot_failure ''parse: missing features array''
          else
            (case decode_array codec (env_Features envelope) of
               Inl _ \<Rightarrow> snapshot_failure ''parse: features must be an array''
             | Inr features \<Rightarrow>
                 (case ParseFeatures codec body of
                    Inl e \<Rightarrow> snapshot_failure (''parse: '' @ e)
                  | Inr incidents \<Rightarrow>
                      let snap = (\<lambda>cls reason.
                            \<lparr>snap_Incidents = incidents, snap_FeatureCount = int (length features),
                             snap_Classification = cls, snap_Reason = reason, snap_Err = None\<rparr>)
                      in if env_ExceededTransferLimit envelope
                         then snap PollDegradedSnapshot ''snapshot_incomplete''
                         else if \<not> hasExpectedContract envelope
                         then snap PollDegradedSnapshot ''contract_invalid''
                         else if length incidents \<noteq> length features
                         then snap PollDegradedSnapshot ''snapshot_incomplete''
                         else snap PollAuthoritativeSuccess ''healthy'')))"

section \<open>What the unit parser returns\<close>

lemma collapse_from_plain:
  "\<forall>c \<in> set w. \<not> is_space c \<Longrightarrow> w \<noteq> [] \<Longrightarrow> collapse_from b (w @ s) = w @ collapse_from False s"
proof (induction w arbitrary: b)
  case Nil
  then show ?case by simp
next
  case (Cons c w)
  have c: "collapse_from b' (c # t) = c # collapse_from False t" for b' t
    using Cons.prems by (auto simp: is_space_def)
  show ?case
    using Cons by (cases "w = []") (simp_all add: c del: collapse_from.simps)
qed

lemma collapse_from_blank: "collapse_from False (CHR '' '' # s) = CHR '' '' # collapse_from True s"
  by simp

lemma collapse_from_Join:
  "list_all word ws \<Longrightarrow> collapse_from b (Join ws '' '') = Join ws '' ''"
proof (induction ws "'' ''" arbitrary: b rule: Join.induct)
  case 1
  then show ?case by simp
next
  case (2 w)
  then show ?case
    using collapse_from_plain [of w b "[]"] by (simp add: word_def list_all_iff)
next
  case (3 w v vs)
  have w: "\<forall>c \<in> set w. \<not> is_space c" "w \<noteq> []"
    using "3.prems" by (simp_all add: word_def list_all_iff)
  have "collapse_from b (Join (w # v # vs) '' '') =
        w @ CHR '' '' # collapse_from True (Join (v # vs) '' '')"
    using collapse_from_plain [OF w, of b "CHR '' '' # Join (v # vs) '' ''"]
    by (simp add: collapse_from_blank del: collapse_from.simps)
  then show ?case using "3.hyps" "3.prems" by simp
qed

lemma collapseWhitespace_Join: "list_all word ws \<Longrightarrow> collapseWhitespace (Join ws '' '') = Join ws '' ''"
  by (simp add: collapseWhitespace_def collapse_from_Join)

definition plain :: "string \<Rightarrow> bool" where
  "plain w \<longleftrightarrow> word w \<and> CHR '','' \<notin> set w"

definition status_word :: "string \<Rightarrow> bool" where
  "status_word w \<longleftrightarrow> plain w \<and> \<not> HasSuffix w '':''"

text \<open>
  A canonical unit: a name without blanks or commas, a status that is its words joined by single
  blanks, none of them ending in a colon, and the type the name calls for.
\<close>

definition canonical_unit :: "Unit \<Rightarrow> bool" where
  "canonical_unit u \<longleftrightarrow>
     plain (unit_Unit u) \<and>
     unit_Status u = Join (Fields (unit_Status u)) '' '' \<and>
     list_all status_word (Fields (unit_Status u)) \<and>
     unit_UnitType u = UnitTypeForName (unit_Unit u)"

lemma plain_word: "plain w \<Longrightarrow> word w"
  by (simp add: plain_def)

lemma status_words_word: "list_all status_word ws \<Longrightarrow> list_all word ws"
  by (auto simp: list_all_iff status_word_def plain_def)

lemma plain_TrimSpace: "plain w \<Longrightarrow> TrimSpace w = w"
  by (simp add: plain_def TrimSpace_word)

lemma TrimSuffix_plain:
  "plain w \<Longrightarrow> HasSuffix w '':'' \<Longrightarrow> TrimSuffix w '':'' = [] \<or> plain (TrimSuffix w '':'')"
  by (auto simp: TrimSuffix_def HasSuffix_def plain_def word_def list_all_iff dest: in_set_takeD)

lemma flush_canonical:
  assumes "name = [] \<or> plain name" "list_all status_word parts" "list_all canonical_unit out"
  shows "list_all canonical_unit (flush name parts out)"
proof (cases "name = []")
  case True
  then show ?thesis using assms by (simp add: flush_def)
next
  case False
  then have "plain name" using assms(1) by simp
  moreover have "list_all word parts" using assms(2) by (rule status_words_word)
  ultimately show ?thesis
    using assms(2,3)
    by (auto simp: flush_def Let_def plain_TrimSpace canonical_unit_def collapseWhitespace_Join
        Fields_Join)
qed

lemma parse_tokens_canonical:
  assumes "list_all plain toks" "name = [] \<or> plain name" "list_all status_word parts"
    "list_all canonical_unit out"
  shows "list_all canonical_unit (parse_tokens toks name parts out)"
  using assms
proof (induction toks arbitrary: name parts out)
  case Nil
  then show ?case by (simp add: flush_canonical)
next
  case (Cons t toks)
  then have t: "plain t" "TrimSpace t = t" "t \<noteq> []"
    by (auto simp: plain_TrimSpace plain_def word_def)
  consider "HasSuffix t '':''" | "\<not> HasSuffix t '':''" "name = []" | "\<not> HasSuffix t '':''" "name \<noteq> []"
    by blast
  then show ?case
  proof cases
    case 1
    then show ?thesis using Cons t
      by (simp add: TrimSuffix_plain flush_canonical)
  next
    case 2
    then show ?thesis using Cons t by simp
  next
    case 3
    then show ?thesis using Cons t by (simp add: status_word_def)
  qed
qed

lemma split_by_subset: "w \<in> set (split_by p s) \<Longrightarrow> set w \<subseteq> set s"
proof (induction s arbitrary: w)
  case Nil
  then show ?case by simp
next
  case (Cons c cs)
  then show ?case by (cases "split_by p cs") (fastforce split: if_splits)+
qed

lemma Fields_set: "w \<in> set (Fields s) \<Longrightarrow> set w \<subseteq> set s"
  using split_by_subset by (auto simp: Fields_def)

lemma Fields_comma_free: "list_all plain (Fields (comma_to_blank s))"
  using Fields_set [of _ "comma_to_blank s"] Fields_words [of "comma_to_blank s"]
  by (fastforce simp: list_all_iff plain_def comma_to_blank_def split: if_splits)

section \<open>Printing and parsing units\<close>

definition render_unit :: "Unit \<Rightarrow> string" where
  "render_unit u = Join ((unit_Unit u @ '':'') # Fields (unit_Status u)) '' ''"

definition render_units :: "Unit list \<Rightarrow> string" where
  "render_units us = Join (map render_unit us) '' ''"

definition unit_tokens :: "Unit \<Rightarrow> string list" where
  "unit_tokens u = (unit_Unit u @ '':'') # Fields (unit_Status u)"

lemma HasSuffix_colon [simp]: "HasSuffix (w @ '':'') '':''"
  by (simp add: HasSuffix_def suffix_def)

lemma TrimSuffix_colon [simp]: "TrimSuffix (w @ '':'') '':'' = w"
  by (simp add: TrimSuffix_def suffix_def)

lemma plain_colon: "plain w \<Longrightarrow> plain (w @ '':'')"
  by (auto simp: plain_def word_def is_space_def)

lemma parse_tokens_words:
  "list_all status_word ws \<Longrightarrow> name \<noteq> [] \<Longrightarrow>
   parse_tokens (ws @ toks) name parts out = parse_tokens toks name (parts @ ws) out"
  by (induction ws arbitrary: parts)
    (auto simp: status_word_def plain_TrimSpace plain_def word_def TrimSpace_word)

lemma parse_tokens_unit:
  assumes "canonical_unit u"
  shows "parse_tokens (unit_tokens u @ toks) name parts out =
         parse_tokens toks (unit_Unit u) (Fields (unit_Status u)) (flush name parts out)"
proof -
  have n: "plain (unit_Unit u)" "unit_Unit u \<noteq> []"
    using assms by (auto simp: canonical_unit_def plain_def word_def)
  then have "TrimSpace (unit_Unit u @ '':'') = unit_Unit u @ '':''"
    by (simp add: plain_TrimSpace plain_colon)
  with n show ?thesis
    using assms parse_tokens_words [of "Fields (unit_Status u)" "unit_Unit u" toks "[]"]
    by (simp add: unit_tokens_def canonical_unit_def)
qed

lemma flush_unit:
  assumes "canonical_unit u"
  shows "flush (unit_Unit u) (Fields (unit_Status u)) out = out @ [u]"
proof -
  have "plain (unit_Unit u)" "unit_Unit u \<noteq> []"
    using assms by (auto simp: canonical_unit_def plain_def word_def)
  moreover have "Join (Fields (unit_Status u)) '' '' = unit_Status u"
    using assms unfolding canonical_unit_def by metis
  moreover from this have "collapseWhitespace (unit_Status u) = unit_Status u"
    using collapseWhitespace_Join [OF Fields_words, of "unit_Status u"] by simp
  ultimately show ?thesis
    using assms by (cases u) (simp add: flush_def Let_def plain_TrimSpace canonical_unit_def)
qed

lemma parse_tokens_units:
  assumes "list_all canonical_unit us"
  shows "parse_tokens (concat (map unit_tokens us)) name parts out = flush name parts out @ us"
  using assms
proof (induction us arbitrary: name parts out)
  case Nil
  then show ?case by simp
next
  case (Cons u us)
  then show ?case by (simp add: parse_tokens_unit flush_unit)
qed

lemma Join_append:
  "vs \<noteq> [] \<Longrightarrow> ws \<noteq> [] \<Longrightarrow> Join (vs @ ws) sep = Join vs sep @ sep @ Join ws sep"
proof (induction vs)
  case Nil
  then show ?case by simp
next
  case (Cons v vs)
  then show ?case by (cases vs; cases ws) auto
qed

lemma Join_concat:
  "list_all (\<lambda>ws. ws \<noteq> []) wss \<Longrightarrow> Join (map (\<lambda>ws. Join ws sep) wss) sep = Join (concat wss) sep"
proof (induction wss)
  case Nil
  then show ?case by simp
next
  case (Cons ws wss)
  then show ?case
    by (cases wss) (auto simp: Join_append)
qed

lemma render_unit_tokens: "render_unit = (\<lambda>u. Join (unit_tokens u) '' '')"
  by (rule ext) (simp add: render_unit_def unit_tokens_def)

lemma render_units_tokens: "render_units us = Join (concat (map unit_tokens us)) '' ''"
proof -
  have "list_all (\<lambda>ws. ws \<noteq> []) (map unit_tokens us)"
    by (simp add: unit_tokens_def list_all_iff)
  from Join_concat [OF this, of "'' ''"] show ?thesis
    by (simp add: render_units_def render_unit_tokens comp_def)
qed

lemma unit_tokens_plain: "canonical_unit u \<Longrightarrow> list_all plain (unit_tokens u)"
  by (auto simp: unit_tokens_def canonical_unit_def plain_colon list_all_iff status_word_def)

lemma comma_to_blank_id: "CHR '','' \<notin> set s \<Longrightarrow> comma_to_blank s = s"
  by (induction s) (auto simp: comma_to_blank_def)

lemma set_Join_subset: "set (Join ws sep) \<subseteq> \<Union> (set ` set ws) \<union> set sep"
  by (induction ws sep rule: Join.induct) auto

text \<open>
  C19. Printing canonical units the way the upstream feed writes them and parsing the text gives
  the same units back, whatever the entity decoder does, as long as it leaves text without an
  ampersand alone.
\<close>

theorem parseUnits_render:
  assumes unescape: "\<And>s. CHR ''&'' \<notin> set s \<Longrightarrow> unescape s = s"
    and canonical: "list_all canonical_unit us"
    and no_entity: "CHR ''&'' \<notin> set (render_units us)"
  shows "parseUnits unescape (render_units us) = us"
proof -
  let ?toks = "concat (map unit_tokens us)"
  have plain: "list_all plain ?toks"
    using canonical unit_tokens_plain by (fastforce simp: list_all_iff)
  then have "CHR '','' \<notin> set (render_units us)"
    using set_Join_subset [of ?toks "'' ''"]
    by (fastforce simp: render_units_tokens list_all_iff plain_def)
  then have "comma_to_blank (unescape (render_units us)) = Join ?toks '' ''"
    unfolding unescape [OF no_entity] render_units_tokens [symmetric]
    by (rule comma_to_blank_id)
  moreover have "Fields (Join ?toks '' '') = ?toks"
    using plain by (intro Fields_Join) (auto simp: list_all_iff plain_def)
  ultimately show ?thesis
    using parse_tokens_units [OF canonical, of "[]" "[]" "[]"] canonical
    by (cases us) (auto simp: parseUnits_def Let_def flush_def unit_tokens_def)
qed

definition sample_units :: "Unit list" where
  "sample_units =
     [\<lparr>unit_Unit = ''E41'', unit_Status = ''On Scene'', unit_UnitType = ''Engine''\<rparr>,
      \<lparr>unit_Unit = ''BC3'', unit_Status = [], unit_UnitType = ''Battalion Chief''\<rparr>]"

lemma sample_units_canonical: "list_all canonical_unit sample_units"
  by code_simp

theorem parseUnits_render_witness:
  "parseUnits (\<lambda>s. s) ''E41: On Scene BC3:'' = sample_units"
proof -
  have "render_units sample_units = ''E41: On Scene BC3:''" by code_simp
  then show ?thesis
    using parseUnits_render [of "\<lambda>s. s" sample_units] sample_units_canonical by simp
qed

section \<open>What a snapshot promises\<close>

text \<open>
  What holds of every incident the adapter lets through, whatever the upstream sends: the point is
  on the globe and not the null island, the date is in 2020 or later, the strings are trimmed, the
  units are canonical.
\<close>

definition admitted_incident :: "Incident \<Rightarrow> bool" where
  "admitted_incident i \<longleftrightarrow>
     inc_Source i = SourceName \<and>
     TrimSpace (inc_IncidentID i) = inc_IncidentID i \<and>
     TrimSpace (inc_NatureCode i) = inc_NatureCode i \<and>
     TrimSpace (inc_NatureDesc i) = inc_NatureDesc i \<and>
     list_all canonical_unit (inc_Units i) \<and>
     plausibleWGS84 (inc_Lon i) (inc_Lat i) \<and>
     0 < inc_IncidentDate i \<and> \<not> year_before_2020 (inc_IncidentDate i)"

lemma NatureDescriptionFor_trimmed [simp]:
  "TrimSpace (NatureDescriptionFor c d) = NatureDescriptionFor c d"
  by (auto simp: NatureDescriptionFor_cases override_label_stable split: option.splits)

lemma parseUnits_all_canonical: "list_all canonical_unit (parseUnits unescape raw)"
  by (simp add: parseUnits_def Let_def parse_tokens_canonical Fields_comma_free)

lemma feature_incident_admitted: "keep_feature f \<Longrightarrow> admitted_incident (feature_incident codec f)"
  by (auto simp: admitted_incident_def feature_incident_def keep_feature_def Let_def
      parseUnits_all_canonical UnixMilli_def millisecond_def)

definition all_admitted :: "error + Incident list \<Rightarrow> bool" where
  "all_admitted r = (case r of Inl _ \<Rightarrow> True | Inr incidents \<Rightarrow> list_all admitted_incident incidents)"

text \<open>
  C18. Every incident that the parser admits, from any body and any decoder, carries the adapter's
  source name, a plausible WGS84 point, a date not before 2020, trimmed text and canonical units:
  its unit names are never empty and hold no blank or comma, its unit statuses have single blanks
  only and no word that ends in a colon, its unit types are the ones the names call for.
\<close>

theorem ParseFeatures_admitted: "all_admitted (ParseFeatures codec body)"
  by (auto simp: all_admitted_def ParseFeatures_def list_all_iff feature_incident_admitted
      split: sum.splits)

text \<open>
  The contract that makes a snapshot authoritative, over the decoded parts of the body.
\<close>

definition authoritative_body :: "Codec \<Rightarrow> string \<Rightarrow> bool" where
  "authoritative_body codec body \<longleftrightarrow>
     (case decode_envelope codec body of
        Inl _ \<Rightarrow> False
      | Inr env \<Rightarrow>
          env_Error env \<in> {[], ''null''} \<and> env_Features env \<notin> {[], ''null''} \<and>
          \<not> env_ExceededTransferLimit env \<and> hasExpectedContract env \<and>
          (case decode_array codec (env_Features env) of
             Inl _ \<Rightarrow> False
           | Inr raws \<Rightarrow>
               (case decode_response codec body of
                  Inl _ \<Rightarrow> False
                | Inr features \<Rightarrow> length (filter keep_feature features) = length raws)))"

lemma snapshot_failure_simps [simp]:
  "snap_Classification (snapshot_failure e) = PollFailure"
  "snap_Err (snapshot_failure e) = Some e"
  "snap_Incidents (snapshot_failure e) = []"
  "snap_Reason (snapshot_failure e) = ''contract_invalid''"
  by (simp_all add: snapshot_failure_def)

lemma validateSnapshot_authoritative_iff:
  "snap_Classification (validateSnapshot codec body) = PollAuthoritativeSuccess \<longleftrightarrow>
   authoritative_body codec body"
  by (simp add: validateSnapshot_def authoritative_body_def ParseFeatures_def Let_def
      split: sum.split)

lemma validateSnapshot_err:
  "snap_Err (validateSnapshot codec body) = None \<longleftrightarrow>
   snap_Classification (validateSnapshot codec body) \<noteq> PollFailure"
  by (simp add: validateSnapshot_def Let_def split: sum.split)

lemma validateSnapshot_classified:
  "snap_Classification (validateSnapshot codec body) \<noteq> PollUnclassified"
  by (simp add: validateSnapshot_def Let_def split: sum.split)

lemma validateSnapshot_complete:
  "snap_Classification (validateSnapshot codec body) = PollAuthoritativeSuccess \<Longrightarrow>
   int (length (snap_Incidents (validateSnapshot codec body))) =
   snap_FeatureCount (validateSnapshot codec body) \<and>
   snap_Reason (validateSnapshot codec body) = ''healthy''"
  by (auto simp: validateSnapshot_def Let_def split: sum.splits if_splits)

lemma validateSnapshot_reason:
  "snap_Classification (validateSnapshot codec body) \<noteq> PollAuthoritativeSuccess \<Longrightarrow>
   snap_Reason (validateSnapshot codec body) \<in> {''contract_invalid'', ''snapshot_incomplete''}"
  by (auto simp: validateSnapshot_def Let_def split: sum.splits if_splits)


section \<open>A blank incident number\<close>

definition blank_id_feature :: rawFeature where
  "blank_id_feature =
     \<lparr>raw_OBJECTID = 1, raw_Incident = ''  '', raw_Nature = ''STR'', raw_NatureDesc = ''Structure Fire'',
      raw_Units = ''E1: On Scene'', raw_Channel = ''K4'', raw_SymbolCode = ''F'', raw_Date = 1750000000000,
      raw_GenLocInfo = ''1XX W MAIN ST'', raw_X = -112, raw_Y = 33\<rparr>"

lemma TrimSpace_two_blanks: "TrimSpace ''  '' = []"
  by code_simp

lemma keep_blank_id_feature: "keep_feature blank_id_feature"
  by code_simp

text \<open>
  The guard compares the raw incident number with the empty string before it is trimmed, so a
  feature whose number is only blanks is kept, and its incident has the empty identifier.
\<close>

theorem blank_incident_id_kept:
  "keep_feature blank_id_feature \<and> inc_IncidentID (feature_incident codec blank_id_feature) = []"
  by (simp add: feature_incident_def Let_def keep_blank_id_feature)
    (simp add: blank_id_feature_def TrimSpace_two_blanks)

end
