(* ===== verification/Phxfire_Client.thy ===== *)
theory Phxfire_Client
  imports Phxfire_Parse
begin

text \<open>
  The upstream client (\<^verbatim>\<open>internal/source/phxfire/phxfire.go\<close>: \<^verbatim>\<open>Client\<close>, \<^verbatim>\<open>Policy\<close>,
  \<^verbatim>\<open>NewWithPolicy\<close>, \<^verbatim>\<open>Poll\<close>, \<^verbatim>\<open>requiresCountConfirmation\<close>, \<^verbatim>\<open>fetchCount\<close>,
  \<^verbatim>\<open>classifyPayloadHistory\<close>) and the interface it satisfies
  (\<^verbatim>\<open>internal/source/source.go\<close>).

  The client is the record of its mutable fields, passed through every call; the mutex keeps each
  method atomic, which a function of the state is by construction. HTTP is the record
  \<^verbatim>\<open>Upstream\<close>: what building a request, sending it, reading its body and deriving the count
  URL give. The clock is read twice in \<^verbatim>\<open>Poll\<close> and its two readings are arguments.
\<close>

section \<open>State and policy\<close>

record Policy =
  FrozenRepeatCount :: int
  SuddenCollapsePercent :: int

definition DefaultPolicy :: Policy where
  "DefaultPolicy = \<lparr>FrozenRepeatCount = 3, SuddenCollapsePercent = 80\<rparr>"

record Client =
  queryURL :: string
  policy :: Policy
  lastPayloadSHA :: string
  repeatedPayloads :: int
  unchangedSince :: time
  lastAuthoritativeCount :: int

definition defaultQueryURL :: string where
  "defaultQueryURL =
     ''https://maps.phoenix.gov/phxfire/rest/services/Active_Incidents__Public/MapServer/0/query'' @
     ''?where=1%3D1&outFields=*&f=json&outSR=%7B%22wkid%22%3A4326%7D''"

definition NewClient :: Client where
  "NewClient =
     \<lparr>queryURL = defaultQueryURL, policy = DefaultPolicy, lastPayloadSHA = [],
      repeatedPayloads = 0, unchangedSince = zero_time, lastAuthoritativeCount = 0\<rparr>"

definition NewWithPolicy :: "Policy \<Rightarrow> Client" where
  "NewWithPolicy p =
     (let c = NewClient;
          c1 = (if FrozenRepeatCount p \<ge> 2
                then c\<lparr>policy := policy c\<lparr>FrozenRepeatCount := FrozenRepeatCount p\<rparr>\<rparr> else c)
      in if SuddenCollapsePercent p \<ge> 1 \<and> SuddenCollapsePercent p \<le> 100
         then c1\<lparr>policy := policy c1\<lparr>SuddenCollapsePercent := SuddenCollapsePercent p\<rparr>\<rparr>
         else c1)"

type_synonym http_response = "error + int \<times> (error + string)"

record Upstream =
  build_request :: "string \<Rightarrow> error option"
  send_request :: "string \<Rightarrow> http_response"
  count_url :: "string \<Rightarrow> error + string"

section \<open>Operations\<close>

definition requiresCountConfirmation :: "Client \<Rightarrow> int \<Rightarrow> bool" where
  "requiresCountConfirmation c featureCount =
     (if featureCount = 0 then True
      else if lastAuthoritativeCount c \<le> 0 then False
      else
        (let remainingPercent = 100 - SuddenCollapsePercent (policy c)
         in featureCount * 100 \<le> lastAuthoritativeCount c * remainingPercent))"

definition fetchCount :: "Codec \<Rightarrow> Upstream \<Rightarrow> Client \<Rightarrow> error + int" where
  "fetchCount codec up c =
     (case count_url up (queryURL c) of
        Inl e \<Rightarrow> Inl (''count URL: '' @ e)
      | Inr u \<Rightarrow>
          (case build_request up u of
             Some e \<Rightarrow> Inl (''count request: '' @ e)
           | None \<Rightarrow>
               (case send_request up u of
                  Inl e \<Rightarrow> Inl (''count HTTP: '' @ e)
                | Inr (status, body) \<Rightarrow>
                    if status < 200 \<or> status \<ge> 300 then Inl (''count status '' @ Itoa status)
                    else
                      (case (case body of Inl e \<Rightarrow> Inl e | Inr b \<Rightarrow> decode_count codec b) of
                         Inl e \<Rightarrow> Inl (''count parse: '' @ e)
                       | Inr (cnt, err) \<Rightarrow>
                           if err \<noteq> [] \<and> err \<noteq> ''null'' then Inl ''count returned ArcGIS error''
                           else
                             (case cnt of
                                None \<Rightarrow> Inl ''count response missing a valid count''
                              | Some n \<Rightarrow>
                                  if n < 0 then Inl ''count response missing a valid count''
                                  else Inr n)))))"

definition classifyPayloadHistory :: "Client \<Rightarrow> PollResult \<Rightarrow> int \<Rightarrow> Client \<times> PollResult" where
  "classifyPayloadHistory c res featureCount =
     (if res_Classification res \<noteq> PollAuthoritativeSuccess then (c, res)
      else if featureCount = 0
      then (c\<lparr>lastPayloadSHA := [], repeatedPayloads := 0, unchangedSince := zero_time,
              lastAuthoritativeCount := 0\<rparr>, res)
      else
        (let c1 = (if res_PayloadSHA256 res = lastPayloadSHA c
                   then c\<lparr>repeatedPayloads := repeatedPayloads c + 1\<rparr>
                   else c\<lparr>lastPayloadSHA := res_PayloadSHA256 res, repeatedPayloads := 1,
                          unchangedSince := res_StartedAt res\<rparr>);
             res1 = res\<lparr>res_UnchangedSince := Some (unchangedSince c1)\<rparr>
         in if repeatedPayloads c1 \<ge> FrozenRepeatCount (policy c1)
            then (c1, res1\<lparr>res_Classification := PollDegradedSnapshot,
                           res_Reason := ''payload_frozen''\<rparr>)
            else (c1\<lparr>lastAuthoritativeCount := featureCount\<rparr>, res1)))"

definition Poll :: "Codec \<Rightarrow> Upstream \<Rightarrow> time \<Rightarrow> time \<Rightarrow> Client \<Rightarrow> Client \<times> PollResult" where
  "Poll codec up startedAt finishedAt c =
     (let res = \<lparr>res_Source = SourceName, res_RequestURL = queryURL c, res_StartedAt = startedAt,
                 res_FinishedAt = finishedAt, res_StatusCode = 0, res_LatencyMS = 0,
                 res_Incidents = [], res_PayloadSHA256 = [], res_ParserVersion = ParserVersion,
                 res_Classification = PollFailure, res_Reason = ''recent_failures'',
                 res_UnchangedSince = None, res_Err = None\<rparr>
      in case build_request up (queryURL c) of
           Some e \<Rightarrow> (c, res\<lparr>res_Err := Some (''build request: '' @ e)\<rparr>)
         | None \<Rightarrow>
             (let res = res\<lparr>res_LatencyMS := Milliseconds (Sub finishedAt startedAt)\<rparr>
              in case send_request up (queryURL c) of
                   Inl e \<Rightarrow> (c, res\<lparr>res_Err := Some (''http: '' @ e)\<rparr>)
                 | Inr (status, rbody) \<Rightarrow>
                     (let res = res\<lparr>res_StatusCode := status\<rparr>
                      in case rbody of
                           Inl e \<Rightarrow> (c, res\<lparr>res_Err := Some (''read body: '' @ e)\<rparr>)
                         | Inr body \<Rightarrow>
                             if status < 200 \<or> status \<ge> 300
                             then (c, res\<lparr>res_Err := Some (''unexpected status '' @ Itoa status)\<rparr>)
                             else
                               (let res = res\<lparr>res_PayloadSHA256 := sha256_hex codec body\<rparr>;
                                    snap = validateSnapshot codec body;
                                    res = res\<lparr>res_Classification := snap_Classification snap,
                                              res_Reason := snap_Reason snap\<rparr>
                                in if snap_Err snap \<noteq> None
                                   then (c, res\<lparr>res_Err := snap_Err snap\<rparr>)
                                   else
                                     (let res = res\<lparr>res_Incidents := snap_Incidents snap\<rparr>
                                      in if snap_Classification snap = PollAuthoritativeSuccess \<and>
                                            requiresCountConfirmation c (snap_FeatureCount snap) \<and>
                                            fetchCount codec up c \<noteq> Inr (snap_FeatureCount snap)
                                         then (c, res\<lparr>res_Classification := PollDegradedSnapshot,
                                                      res_Reason := ''snapshot_incomplete''\<rparr>)
                                         else classifyPayloadHistory c res (snap_FeatureCount snap))))))"

section \<open>The client's invariant\<close>

definition policy_ok :: "Policy \<Rightarrow> bool" where
  "policy_ok p \<longleftrightarrow>
     2 \<le> FrozenRepeatCount p \<and> 1 \<le> SuddenCollapsePercent p \<and> SuddenCollapsePercent p \<le> 100"

definition client_ok :: "Client \<Rightarrow> bool" where
  "client_ok c \<longleftrightarrow>
     policy_ok (policy c) \<and> 0 \<le> repeatedPayloads c \<and> 0 \<le> lastAuthoritativeCount c"

lemma NewWithPolicy_ok: "client_ok (NewWithPolicy p)"
  by (simp add: client_ok_def policy_ok_def NewWithPolicy_def NewClient_def DefaultPolicy_def Let_def)

lemma validateSnapshot_count: "0 \<le> snap_FeatureCount (validateSnapshot codec body)"
  by (simp add: validateSnapshot_def snapshot_failure_def Let_def split: sum.split)

lemma classifyPayloadHistory_ok:
  "client_ok c \<Longrightarrow> 0 \<le> n \<Longrightarrow> client_ok (fst (classifyPayloadHistory c res n))"
  by (simp add: classifyPayloadHistory_def client_ok_def Let_def)

lemma classifyPayloadHistory_policy:
  "policy (fst (classifyPayloadHistory c res n)) = policy c"
  "queryURL (fst (classifyPayloadHistory c res n)) = queryURL c"
  by (simp_all add: classifyPayloadHistory_def Let_def)

lemma Poll_preserves_ok: "client_ok c \<Longrightarrow> client_ok (fst (Poll codec up t0 t1 c))"
  by (simp add: Poll_def Let_def classifyPayloadHistory_ok validateSnapshot_count
      split: option.split sum.split)

section \<open>Poll, case by case\<close>

text \<open>The body of a completed response with a status in the 200s, if there is one.\<close>

definition response_body :: "Upstream \<Rightarrow> string \<Rightarrow> (int \<times> string) option" where
  "response_body up u =
     (case build_request up u of
        Some _ \<Rightarrow> None
      | None \<Rightarrow>
          (case send_request up u of
             Inr (status, Inr body) \<Rightarrow>
               if status < 200 \<or> status \<ge> 300 then None else Some (status, body)
           | _ \<Rightarrow> None))"

lemma Poll_no_body:
  assumes "response_body up (queryURL c) = None"
  obtains res e where "Poll codec up t0 t1 c = (c, res)" "res_Classification res = PollFailure"
    "res_Err res = Some e" "res_Source res = SourceName" "res_Incidents res = []"
    "res_ParserVersion res = ParserVersion" "res_Reason res = ''recent_failures''"
  using assms
  by (auto simp: response_body_def Poll_def Let_def split: option.splits sum.splits if_splits)

definition base_result :: "Codec \<Rightarrow> Client \<Rightarrow> time \<Rightarrow> time \<Rightarrow> int \<Rightarrow> string \<Rightarrow> PollResult" where
  "base_result codec c t0 t1 status body =
     (let snap = validateSnapshot codec body
      in \<lparr>res_Source = SourceName, res_RequestURL = queryURL c, res_StartedAt = t0,
          res_FinishedAt = t1, res_StatusCode = status, res_LatencyMS = Milliseconds (Sub t1 t0),
          res_Incidents = snap_Incidents snap, res_PayloadSHA256 = sha256_hex codec body,
          res_ParserVersion = ParserVersion, res_Classification = snap_Classification snap,
          res_Reason = snap_Reason snap, res_UnchangedSince = None, res_Err = snap_Err snap\<rparr>)"

lemma snapshot_err_incidents:
  "snap_Err (validateSnapshot codec body) \<noteq> None \<Longrightarrow> snap_Incidents (validateSnapshot codec body) = []"
  by (auto simp: validateSnapshot_def Let_def split: sum.splits if_splits)

definition unconfirmed :: "Codec \<Rightarrow> Upstream \<Rightarrow> Client \<Rightarrow> string \<Rightarrow> bool" where
  "unconfirmed codec up c body \<longleftrightarrow>
     (let n = snap_FeatureCount (validateSnapshot codec body)
      in requiresCountConfirmation c n \<and> fetchCount codec up c \<noteq> Inr n)"

lemma Poll_body:
  assumes "response_body up (queryURL c) = Some (status, body)"
  shows "Poll codec up t0 t1 c =
    (let res = base_result codec c t0 t1 status body
     in if \<not> authoritative_body codec body then (c, res)
        else if unconfirmed codec up c body
        then (c, res\<lparr>res_Classification := PollDegradedSnapshot, res_Reason := ''snapshot_incomplete''\<rparr>)
        else classifyPayloadHistory c res (snap_FeatureCount (validateSnapshot codec body)))"
proof -
  let ?s = "validateSnapshot codec body"
  have resp: "build_request up (queryURL c) = None"
    "send_request up (queryURL c) = Inr (status, Inr body)" "\<not> (status < 200 \<or> status \<ge> 300)"
    using assms by (auto simp: response_body_def split: option.splits sum.splits if_splits)
  show ?thesis
  proof (cases "snap_Err ?s")
    case None
    then show ?thesis
      using resp
      by (auto simp: Poll_def Let_def base_result_def unconfirmed_def
          validateSnapshot_authoritative_iff classifyPayloadHistory_def)
  next
    case (Some e)
    then have "snap_Classification ?s = PollFailure" using validateSnapshot_err [of codec body] by auto
    moreover from this have "\<not> authoritative_body codec body"
      using validateSnapshot_authoritative_iff [of codec body] by simp
    moreover have "snap_Incidents ?s = []" by (rule snapshot_err_incidents) (simp add: Some)
    ultimately show ?thesis
      using resp Some by (simp add: Poll_def Let_def base_result_def)
  qed
qed

lemma authoritative_snapshot:
  assumes "authoritative_body codec body"
  shows "snap_Classification (validateSnapshot codec body) = PollAuthoritativeSuccess"
    "snap_Err (validateSnapshot codec body) = None"
    "int (length (snap_Incidents (validateSnapshot codec body))) =
     snap_FeatureCount (validateSnapshot codec body)"
    "snap_Reason (validateSnapshot codec body) = ''healthy''"
  using assms validateSnapshot_complete [of codec body] validateSnapshot_err [of codec body]
  by (simp_all add: validateSnapshot_authoritative_iff [symmetric])

lemma response_body_status: "response_body up u = Some (status, body) \<Longrightarrow> 200 \<le> status \<and> status < 300"
  by (auto simp: response_body_def split: option.splits sum.splits if_splits)

text \<open>
  C6. When a poll succeeds, the body was authoritative, every feature of it is among the incidents,
  the client remembers their count, and if the snapshot was empty or had collapsed against the last
  authoritative count then an independent count query confirmed it.
\<close>

theorem Poll_success_confirmed:
  assumes "Success (snd (Poll codec up t0 t1 c))"
  shows "\<exists>status body.
    response_body up (queryURL c) = Some (status, body) \<and> authoritative_body codec body \<and>
    res_Incidents (snd (Poll codec up t0 t1 c)) = snap_Incidents (validateSnapshot codec body) \<and>
    int (length (snap_Incidents (validateSnapshot codec body))) =
      snap_FeatureCount (validateSnapshot codec body) \<and>
    lastAuthoritativeCount (fst (Poll codec up t0 t1 c)) =
      snap_FeatureCount (validateSnapshot codec body) \<and>
    (snap_FeatureCount (validateSnapshot codec body) = 0 \<or>
     0 < lastAuthoritativeCount c \<and>
     snap_FeatureCount (validateSnapshot codec body) * 100
       \<le> lastAuthoritativeCount c * (100 - SuddenCollapsePercent (policy c)) \<longrightarrow>
     fetchCount codec up c = Inr (snap_FeatureCount (validateSnapshot codec body)))"
proof (cases "response_body up (queryURL c)")
  case None
  then obtain res e where "Poll codec up t0 t1 c = (c, res)" "res_Classification res = PollFailure"
    by (rule Poll_no_body)
  then show ?thesis using assms not_Success_failure by simp
next
  case (Some p)
  obtain status body where p: "response_body up (queryURL c) = Some (status, body)"
    using Some by (cases p) simp
  note P = Poll_body [OF p, of codec t0 t1, unfolded Let_def]
  have auth: "authoritative_body codec body"
  proof (rule ccontr)
    assume "\<not> authoritative_body codec body"
    then have "snap_Classification (validateSnapshot codec body) \<notin> {PollAuthoritativeSuccess, PollUnclassified}"
      using validateSnapshot_authoritative_iff validateSnapshot_classified by auto
    then show False
      using assms \<open>\<not> authoritative_body codec body\<close>
      by (simp add: P Success_def base_result_def Let_def split: if_splits)
  qed
  have "\<not> unconfirmed codec up c body"
    using assms auth by (auto simp: P Success_def split: if_splits)
  then have conf: "snap_FeatureCount (validateSnapshot codec body) = 0 \<or>
      0 < lastAuthoritativeCount c \<and>
      snap_FeatureCount (validateSnapshot codec body) * 100
        \<le> lastAuthoritativeCount c * (100 - SuddenCollapsePercent (policy c)) \<Longrightarrow>
      fetchCount codec up c = Inr (snap_FeatureCount (validateSnapshot codec body))"
    by (auto simp: unconfirmed_def requiresCountConfirmation_def Let_def split: if_splits)
  have "res_Incidents (snd (Poll codec up t0 t1 c)) = snap_Incidents (validateSnapshot codec body) \<and>
      lastAuthoritativeCount (fst (Poll codec up t0 t1 c)) = snap_FeatureCount (validateSnapshot codec body)"
    using assms auth authoritative_snapshot [OF auth]
    by (auto simp: P Success_def base_result_def classifyPayloadHistory_def Let_def split: if_splits)
  then show ?thesis using auth conf p authoritative_snapshot [OF auth] by blast
qed

text \<open>
  C16. Any poll that is not authoritative leaves the client's history alone, unless the payload is
  what froze: failures, contract violations, incomplete snapshots and unconfirmed collapses do not
  move the baseline that later polls are compared with.
\<close>

theorem Poll_keeps_baseline:
  "lastAuthoritativeCount (fst (Poll codec up t0 t1 c)) =
     (if res_Classification (snd (Poll codec up t0 t1 c)) = PollAuthoritativeSuccess
      then int (length (res_Incidents (snd (Poll codec up t0 t1 c))))
      else lastAuthoritativeCount c) \<and>
   (fst (Poll codec up t0 t1 c) = c \<or>
    res_Reason (snd (Poll codec up t0 t1 c)) \<in> {''healthy'', ''payload_frozen''})"
proof (cases "response_body up (queryURL c)")
  case None
  then obtain res e where "Poll codec up t0 t1 c = (c, res)" "res_Classification res = PollFailure"
    by (rule Poll_no_body)
  then show ?thesis by simp
next
  case (Some p)
  obtain status body where p: "response_body up (queryURL c) = Some (status, body)"
    using Some by (cases p) simp
  note P = Poll_body [OF p, of codec t0 t1, unfolded Let_def]
  show ?thesis
  proof (cases "authoritative_body codec body")
    case True
    then show ?thesis using authoritative_snapshot [OF True]
      by (auto simp: P base_result_def classifyPayloadHistory_def Let_def)
  next
    case False
    then show ?thesis
      using validateSnapshot_authoritative_iff [of codec body]
      by (simp add: P base_result_def Let_def)
  qed
qed

section \<open>The source interface\<close>

text \<open>
  \<^verbatim>\<open>source.Source\<close>: a name, a parser version and a poll that takes the world it sees. The
  comments of the Go interface are the laws: the name never changes, the parser version is stamped
  on every result, and a result is returned even on failure, with the error set; a result with an
  error is a classified failure.
\<close>

fun run_source :: "('e \<Rightarrow> 's \<Rightarrow> 's \<times> PollResult) \<Rightarrow> 'e list \<Rightarrow> 's \<Rightarrow> 's \<times> PollResult list" where
  "run_source poll [] s = (s, [])"
| "run_source poll (e # es) s =
     (let step = poll e s; rest = run_source poll es (fst step)
      in (fst rest, snd step # snd rest))"

locale source_interface =
  fixes name :: string
    and parser_version :: string
    and poll :: "'e \<Rightarrow> 's \<Rightarrow> 's \<times> PollResult"
    and ok :: "'s \<Rightarrow> bool"
  assumes stamped: "res_Source (snd (poll e s)) = name"
    and versioned: "res_ParserVersion (snd (poll e s)) = parser_version"
    and error_is_failure:
      "res_Err (snd (poll e s)) \<noteq> None \<Longrightarrow> res_Classification (snd (poll e s)) = PollFailure"
    and classified: "res_Classification (snd (poll e s)) \<noteq> PollUnclassified"
    and keeps_ok: "ok s \<Longrightarrow> ok (fst (poll e s))"
begin

lemma success_is_authoritative:
  "Success (snd (poll e s)) \<Longrightarrow> res_Classification (snd (poll e s)) = PollAuthoritativeSuccess"
  using classified [of e s] by (auto simp: Success_def split: if_splits)

lemma run_ok: "ok s \<Longrightarrow> ok (fst (run_source poll es s))"
  by (induction es arbitrary: s) (simp_all add: keeps_ok Let_def)

lemma run_results:
  "r \<in> set (snd (run_source poll es s)) \<Longrightarrow> \<exists>e s'. r = snd (poll e s')"
  by (induction es arbitrary: s) (auto simp: Let_def)

lemma run_stamped:
  "list_all (\<lambda>r. res_Source r = name \<and> res_ParserVersion r = parser_version \<and>
      res_Classification r \<noteq> PollUnclassified \<and>
      (Success r \<longrightarrow> res_Classification r = PollAuthoritativeSuccess \<and> res_Err r = None))
    (snd (run_source poll es s))"
  using run_results [of _ es s] success_is_authoritative Success_no_error
  by (fastforce simp: list_all_iff stamped versioned classified)

end

lemma run_source_length [simp]: "length (snd (run_source poll es s)) = length es"
  by (induction es arbitrary: s) (simp_all add: Let_def)

subsection \<open>The client satisfies it\<close>

definition poll_env :: "Codec \<Rightarrow> Upstream \<times> time \<times> time \<Rightarrow> Client \<Rightarrow> Client \<times> PollResult" where
  "poll_env codec e c = (case e of (up, t0, t1) \<Rightarrow> Poll codec up t0 t1 c)"

definition poll_result_ok :: "PollResult \<Rightarrow> bool" where
  "poll_result_ok r \<longleftrightarrow>
     res_Source r = SourceName \<and> res_ParserVersion r = ParserVersion \<and>
     res_Classification r \<noteq> PollUnclassified \<and>
     (res_Err r \<noteq> None \<longrightarrow> res_Classification r = PollFailure)"

lemma Poll_result_ok: "poll_result_ok (snd (Poll codec up t0 t1 c))"
proof (cases "response_body up (queryURL c)")
  case None
  then obtain res e where "Poll codec up t0 t1 c = (c, res)" "res_Classification res = PollFailure"
    "res_Source res = SourceName" "res_ParserVersion res = ParserVersion"
    by (rule Poll_no_body)
  then show ?thesis by (simp add: poll_result_ok_def)
next
  case (Some p)
  obtain status body where p: "response_body up (queryURL c) = Some (status, body)"
    using Some by (cases p) simp
  note P = Poll_body [OF p, of codec t0 t1, unfolded Let_def]
  show ?thesis
    using validateSnapshot_classified [of codec body] validateSnapshot_err [of codec body]
      authoritative_snapshot [of codec body]
    by (auto simp: P poll_result_ok_def base_result_def classifyPayloadHistory_def Let_def)
qed

interpretation phxfire: source_interface SourceName ParserVersion "poll_env codec" client_ok
  by unfold_locales
    (use Poll_result_ok in \<open>auto simp: poll_env_def poll_result_ok_def Poll_preserves_ok split: prod.split\<close>)

section \<open>A frozen upstream\<close>

definition frozen_class :: "Client \<Rightarrow> nat \<Rightarrow> PollClassification" where
  "frozen_class c k =
     (if int k < FrozenRepeatCount (policy c) then PollAuthoritativeSuccess else PollDegradedSnapshot)"

definition seen_payload :: "Codec \<Rightarrow> string \<Rightarrow> nat \<Rightarrow> time \<Rightarrow> Client \<Rightarrow> bool" where
  "seen_payload codec body k t c \<longleftrightarrow>
     lastPayloadSHA c = sha256_hex codec body \<and> repeatedPayloads c = int k \<and> unchangedSince c = t \<and>
     lastAuthoritativeCount c = snap_FeatureCount (validateSnapshot codec body)"

lemma no_collapse:
  assumes "client_ok c" "0 < n" "lastAuthoritativeCount c = n"
  shows "\<not> requiresCountConfirmation c n"
proof -
  have "n * 100 > n * (100 - SuddenCollapsePercent (policy c))"
    using assms by (intro mult_strict_left_mono) (auto simp: client_ok_def policy_ok_def)
  then show ?thesis using assms by (simp add: requiresCountConfirmation_def Let_def)
qed

lemma classify_repeat:
  assumes "res_Classification res = PollAuthoritativeSuccess" "n \<noteq> 0"
    and "if lastPayloadSHA c = res_PayloadSHA256 res
         then repeatedPayloads c = int k \<and> unchangedSince c = t else k = 0 \<and> t = res_StartedAt res"
  shows "classifyPayloadHistory c res n =
     (c\<lparr>lastPayloadSHA := res_PayloadSHA256 res, repeatedPayloads := int (Suc k), unchangedSince := t,
        lastAuthoritativeCount :=
          (if int (Suc k) < FrozenRepeatCount (policy c) then n else lastAuthoritativeCount c)\<rparr>,
      res\<lparr>res_UnchangedSince := Some t, res_Classification := frozen_class c (Suc k),
          res_Reason := (if int (Suc k) < FrozenRepeatCount (policy c) then res_Reason res
                         else ''payload_frozen'')\<rparr>)"
  using assms by (auto simp: classifyPayloadHistory_def Let_def frozen_class_def split: if_splits)

text \<open>The upstream keeps answering with one authoritative body of at least one feature.\<close>

definition stuck_upstream :: "Codec \<Rightarrow> string \<Rightarrow> Upstream \<Rightarrow> string \<Rightarrow> bool" where
  "stuck_upstream codec u up body \<longleftrightarrow>
     map_option snd (response_body up u) = Some body \<and> authoritative_body codec body \<and>
     0 < snap_FeatureCount (validateSnapshot codec body)"

lemma Poll_repeat:
  assumes "stuck_upstream codec (queryURL c) up body" "\<not> unconfirmed codec up c body"
    and "if lastPayloadSHA c = sha256_hex codec body
         then repeatedPayloads c = int k \<and> unchangedSince c = t else k = 0 \<and> t = t0"
  shows "res_Classification (snd (Poll codec up t0 t1 c)) = frozen_class c (Suc k)"
    and "res_UnchangedSince (snd (Poll codec up t0 t1 c)) = Some t"
    and "fst (Poll codec up t0 t1 c) =
      c\<lparr>lastPayloadSHA := sha256_hex codec body, repeatedPayloads := int (Suc k), unchangedSince := t,
        lastAuthoritativeCount :=
          (if int (Suc k) < FrozenRepeatCount (policy c)
           then snap_FeatureCount (validateSnapshot codec body) else lastAuthoritativeCount c)\<rparr>"
proof -
  obtain status where r: "response_body up (queryURL c) = Some (status, body)"
    using assms(1) by (auto simp: stuck_upstream_def)
  let ?res = "base_result codec c t0 t1 status body"
  have auth: "authoritative_body codec body" and n: "snap_FeatureCount (validateSnapshot codec body) \<noteq> 0"
    using assms(1) by (auto simp: stuck_upstream_def)
  have b: "res_Classification ?res = PollAuthoritativeSuccess" "res_PayloadSHA256 ?res = sha256_hex codec body"
    "res_StartedAt ?res = t0"
    using authoritative_snapshot [OF auth] by (simp_all add: base_result_def Let_def)
  note c = classify_repeat [OF b(1) n, of c k t, unfolded b(2,3), OF assms(3)]
  show "res_Classification (snd (Poll codec up t0 t1 c)) = frozen_class c (Suc k)"
    and "res_UnchangedSince (snd (Poll codec up t0 t1 c)) = Some t"
    and "fst (Poll codec up t0 t1 c) =
      c\<lparr>lastPayloadSHA := sha256_hex codec body, repeatedPayloads := int (Suc k), unchangedSince := t,
        lastAuthoritativeCount :=
          (if int (Suc k) < FrozenRepeatCount (policy c)
           then snap_FeatureCount (validateSnapshot codec body) else lastAuthoritativeCount c)\<rparr>"
    using assms(2) auth by (simp_all add: Poll_body [OF r] Let_def c)
qed

lemma run_repeat:
  assumes "stuck_upstream codec (queryURL c) up body" "client_ok c"
    "lastPayloadSHA c = sha256_hex codec body" "repeatedPayloads c = int k" "unchangedSince c = t"
    "lastAuthoritativeCount c = snap_FeatureCount (validateSnapshot codec body)"
  shows "map (\<lambda>r. (res_Classification r, res_UnchangedSince r))
      (snd (run_source (poll_env codec) (map (\<lambda>(t0, t1). (up, t0, t1)) ts) c)) =
    map (\<lambda>j. (frozen_class c j, Some t)) [Suc k ..< Suc k + length ts]"
  using assms
proof (induction ts arbitrary: c k)
  case Nil
  then show ?case by simp
next
  case (Cons p ts)
  obtain t0 t1 where p: "p = (t0, t1)" by (cases p)
  have "\<not> unconfirmed codec up c body"
    using Cons.prems no_collapse by (auto simp: unconfirmed_def Let_def stuck_upstream_def)
  note P = Poll_repeat [OF Cons.prems(1) this, of k t t0 t1]
  let ?c = "fst (Poll codec up t0 t1 c)"
  have c': "frozen_class ?c = frozen_class c"
    using Cons.prems by (simp add: P frozen_class_def fun_eq_iff)
  have "[Suc k ..< Suc k + length (p # ts)] = Suc k # [Suc (Suc k) ..< Suc (Suc k) + length ts]"
    by (simp add: upt_conv_Cons del: upt_Suc)
  moreover have "client_ok ?c" by (rule Poll_preserves_ok) (rule Cons.prems)
  moreover have "queryURL ?c = queryURL c" "lastPayloadSHA ?c = sha256_hex codec body"
    "repeatedPayloads ?c = int (Suc k)" "unchangedSince ?c = t"
    "lastAuthoritativeCount ?c = snap_FeatureCount (validateSnapshot codec body)"
    using Cons.prems by (simp_all add: P)
  ultimately show ?case
    using Cons.IH [of ?c "Suc k"] Cons.prems
    by (simp add: p poll_env_def P(1,2) c' Let_def del: upt_Suc)
qed

text \<open>
  C15. While the upstream keeps serving one authoritative body that is new to the client, the poll
  results are authoritative up to and not including the \<^verbatim>\<open>FrozenRepeatCount\<close>-th, from then on they
  are degraded snapshots, and each carries the time the body was first seen.
\<close>

theorem frozen_upstream_detected:
  assumes "stuck_upstream codec (queryURL c) up body" and "client_ok c"
    and "lastPayloadSHA c \<noteq> sha256_hex codec body" and "\<not> unconfirmed codec up c body"
  shows "map (\<lambda>r. (res_Classification r, res_UnchangedSince r))
      (snd (run_source (poll_env codec) (map (\<lambda>(t0, t1). (up, t0, t1)) ((t0, t1) # ts)) c)) =
    map (\<lambda>k. (if int k < FrozenRepeatCount (policy c) then PollAuthoritativeSuccess
              else PollDegradedSnapshot, Some t0)) [1 ..< length ts + 2]"
proof -
  note P = Poll_repeat [OF assms(1,4), of 0 t0 t0 t1]
  let ?c = "fst (Poll codec up t0 t1 c)"
  have F: "FrozenRepeatCount (policy c) \<ge> 2" using assms(2) by (simp add: client_ok_def policy_ok_def)
  have c': "frozen_class ?c = frozen_class c"
    using assms(3) by (simp add: P frozen_class_def fun_eq_iff)
  have "client_ok ?c" by (rule Poll_preserves_ok) (rule assms)
  moreover have "queryURL ?c = queryURL c" "lastPayloadSHA ?c = sha256_hex codec body"
    "repeatedPayloads ?c = int 1" "unchangedSince ?c = t0"
    "lastAuthoritativeCount ?c = snap_FeatureCount (validateSnapshot codec body)"
    using assms(3) F by (simp_all add: P)
  ultimately have "map (\<lambda>r. (res_Classification r, res_UnchangedSince r))
      (snd (run_source (poll_env codec) (map (\<lambda>(t0, t1). (up, t0, t1)) ts) ?c)) =
    map (\<lambda>j. (frozen_class c j, Some t0)) [2 ..< length ts + 2]"
    using run_repeat [of codec ?c up body 1 t0 ts] assms(1) c' by (simp add: numeral_2_eq_2)
  moreover have "[1 ..< length ts + 2] = 1 # [2 ..< length ts + 2]"
    by (simp add: upt_conv_Cons numeral_2_eq_2 del: upt_Suc)
  ultimately show ?thesis
    using assms(3) by (simp add: poll_env_def P(1,2) Let_def frozen_class_def del: upt_Suc)
qed

definition sample_feature :: rawFeature where
  "sample_feature = blank_id_feature\<lparr>raw_Incident := ''F26000001''\<rparr>"

definition sample_envelope :: responseEnvelope where
  "sample_envelope =
     \<lparr>env_Features = ''[{}]'', env_Error = [], env_ExceededTransferLimit = False,
      env_GeometryType = ''esriGeometryPoint'', env_WKID = 4326, env_LatestWKID = 4326,
      env_Fields = expectedFields\<rparr>"

definition sample_codec :: Codec where
  "sample_codec =
     \<lparr>decode_envelope = (\<lambda>_. Inr sample_envelope), decode_array = (\<lambda>_. Inr [''{}'']),
      decode_response = (\<lambda>_. Inr [sample_feature]), decode_count = (\<lambda>_. Inr (Some 1, [])),
      marshal_feature = (\<lambda>_. ''{}''), unescape_html = (\<lambda>s. s), sha256_hex = (\<lambda>s. s)\<rparr>"

definition sample_upstream :: Upstream where
  "sample_upstream =
     \<lparr>build_request = (\<lambda>_. None), send_request = (\<lambda>_. Inr (200, Inr ''body'')), count_url = Inr\<rparr>"

lemma sample_stuck:
  "stuck_upstream sample_codec (queryURL NewClient) sample_upstream ''body''"
  "\<not> unconfirmed sample_codec sample_upstream NewClient ''body''"
  by code_simp+

theorem frozen_upstream_detected_witness:
  "map res_Classification (snd (run_source (poll_env sample_codec)
      [(sample_upstream, 0, 1), (sample_upstream, 60, 61), (sample_upstream, 120, 121)] NewClient)) =
   [PollAuthoritativeSuccess, PollAuthoritativeSuccess, PollDegradedSnapshot]"
proof -
  have "client_ok NewClient" "lastPayloadSHA NewClient \<noteq> sha256_hex sample_codec ''body''"
    by code_simp+
  from arg_cong [OF frozen_upstream_detected [OF sample_stuck(1) this sample_stuck(2), of 0 1 "[(60, 61), (120, 121)]"],
      of "map fst"]
  show ?thesis by (simp add: comp_def NewClient_def DefaultPolicy_def upt_conv_Cons)
qed

lemma sample_poll_success:
  "Success (snd (Poll sample_codec sample_upstream 0 1 NewClient))"
  by code_simp

theorem Poll_success_confirmed_witness:
  "\<exists>status body. response_body sample_upstream defaultQueryURL = Some (status, body) \<and>
     authoritative_body sample_codec body"
  using Poll_success_confirmed [OF sample_poll_success] by (auto simp: NewClient_def)

end
