(* ===== verification/Poll_Meta.thy ===== *)
theory Poll_Meta
  imports Lifecycle
begin

text \<open>
  What the API reads of the poll audit (\<^verbatim>\<open>internal/store/store.go\<close>: \<^verbatim>\<open>sourcePollMeta\<close>,
  \<^verbatim>\<open>LatestSuccessAt\<close>, \<^verbatim>\<open>FeatureCountBaseline\<close>): the last success, the last attempt, its
  classification and reason, and the failures since the last poll that was not one.
\<close>

section \<open>Definitions\<close>

record StalenessMeta =
  SourceLastSuccessAt :: "time option"
  SourceLastAttemptAt :: "time option"
  SourceConsecutiveFailures :: int
  DataAgeSeconds :: "int option"
  MetaParserVersion :: string
  LatestPollClassification :: PollClassification
  LatestPollReason :: string
  LatestUnchangedSince :: "time option"
  LatestFeatureCount :: "int option"

text \<open>\<^verbatim>\<open>error IS DISTINCT FROM 'poll apply pending'\<close>: a NULL error is distinct.\<close>

definition settled :: "source_poll \<Rightarrow> bool" where
  "settled p \<longleftrightarrow> sp_error p \<noteq> Some pending_error"

definition noted_classification :: "source_poll \<Rightarrow> PollClassification option" where
  "noted_classification p =
     (case sp_notes p of
        None \<Rightarrow> None
      | Some n \<Rightarrow> if note_classification n = PollUnclassified then None else Some (note_classification n))"

definition poll_classification :: "source_poll \<Rightarrow> PollClassification" where
  "poll_classification p =
     (case noted_classification p of
        Some c \<Rightarrow> c
      | None \<Rightarrow> if sp_success p then PollAuthoritativeSuccess else PollFailure)"

definition poll_reason :: "source_poll \<Rightarrow> string" where
  "poll_reason p =
     (let default = (if sp_success p then ''healthy'' else ''recent_failures'')
      in case sp_notes p of
           None \<Rightarrow> default
         | Some n \<Rightarrow> if note_reason n = [] then default else note_reason n)"

definition source_rows :: "string \<Rightarrow> database \<Rightarrow> source_poll list" where
  "source_rows src d = filter (\<lambda>p. sp_source p = src) (source_polls d)"

definition last_success :: "string \<Rightarrow> database \<Rightarrow> source_poll option" where
  "last_success src d = max_by sp_started_at (filter sp_success (source_rows src d))"

definition last_attempt :: "string \<Rightarrow> database \<Rightarrow> source_poll option" where
  "last_attempt src d = max_by sp_started_at (filter settled (source_rows src d))"

definition last_nonfailure_id :: "string \<Rightarrow> database \<Rightarrow> int" where
  "last_nonfailure_id src d =
     (case max_by sp_poll_id
             (filter (\<lambda>p. settled p \<and> poll_classification p \<noteq> PollFailure) (source_rows src d)) of
        None \<Rightarrow> 0
      | Some p \<Rightarrow> sp_poll_id p)"

definition is_failure :: "source_poll \<Rightarrow> bool" where
  "is_failure p \<longleftrightarrow>
     \<not> sp_success p \<and> settled p \<and>
     (case noted_classification p of None \<Rightarrow> True | Some c \<Rightarrow> c = PollFailure)"

definition consecutive_failures :: "string \<Rightarrow> database \<Rightarrow> nat" where
  "consecutive_failures src d =
     length (filter (\<lambda>p. sp_poll_id p > last_nonfailure_id src d \<and> is_failure p) (source_rows src d))"

definition sourcePollMeta :: "time \<Rightarrow> string \<Rightarrow> database \<Rightarrow> StalenessMeta" where
  "sourcePollMeta now src d =
     \<lparr>SourceLastSuccessAt = map_option sp_started_at (last_success src d),
      SourceLastAttemptAt = map_option sp_started_at (last_attempt src d),
      SourceConsecutiveFailures = int (consecutive_failures src d),
      DataAgeSeconds = map_option (\<lambda>p. max 0 (whole_seconds (Sub now (sp_started_at p)))) (last_success src d),
      MetaParserVersion = (case last_success src d of None \<Rightarrow> [] | Some p \<Rightarrow> sp_parser_version p),
      LatestPollClassification =
        (case last_attempt src d of None \<Rightarrow> PollFailure | Some p \<Rightarrow> poll_classification p),
      LatestPollReason =
        (case last_attempt src d of None \<Rightarrow> ''recent_failures'' | Some p \<Rightarrow> poll_reason p),
      LatestUnchangedSince =
        (case last_attempt src d of
           None \<Rightarrow> None
         | Some p \<Rightarrow> (case sp_notes p of None \<Rightarrow> None | Some n \<Rightarrow> note_unchanged_since n)),
      LatestFeatureCount = map_option sp_feature_count (last_attempt src d)\<rparr>"

definition LatestSuccessAt :: "string \<Rightarrow> database \<Rightarrow> time" where
  "LatestSuccessAt src d =
     (case max_by sp_started_at (filter (\<lambda>p. sp_source p = src \<and> sp_success p) (source_polls d)) of
        None \<Rightarrow> zero_time
      | Some p \<Rightarrow> sp_started_at p)"

definition FeatureCountBaseline :: "string \<Rightarrow> time \<Rightarrow> database \<Rightarrow> rat option" where
  "FeatureCountBaseline src since d =
     (let counts = map sp_feature_count
            (filter (\<lambda>p. sp_source p = src \<and> sp_success p \<and> sp_started_at p \<ge> since) (source_polls d))
      in if counts = [] then None
         else Some (of_int (sum_list counts) / of_nat (length counts)))"

section \<open>One poll at a time\<close>

lemma max_by_append_max:
  assumes "\<And>x. x \<in> set xs \<Longrightarrow> f x < f y"
  shows "max_by f (xs @ [y]) = Some y"
  using assms by (intro max_by_unique) auto

text \<open>The audit of a source, once a new settled poll of it is appended.\<close>

lemma consecutive_append_failure:
  assumes "is_failure row" "sp_source row = src" "poll_classification row = PollFailure"
    and "list_all (\<lambda>p. sp_poll_id p < sp_poll_id row) (source_polls d)" "0 < sp_poll_id row"
  shows "consecutive_failures src (d\<lparr>source_polls := source_polls d @ [row], seq_poll := n\<rparr>) =
    Suc (consecutive_failures src d)"
proof -
  let ?d = "d\<lparr>source_polls := source_polls d @ [row], seq_poll := n\<rparr>"
  have rows: "source_rows src ?d = source_rows src d @ [row]"
    using assms(2) by (simp add: source_rows_def)
  have last: "last_nonfailure_id src ?d = last_nonfailure_id src d"
    using assms(3) by (simp add: last_nonfailure_id_def rows)
  have "last_nonfailure_id src d < sp_poll_id row"
    using assms(4,5) max_by_SomeD [of sp_poll_id]
    by (fastforce simp: last_nonfailure_id_def source_rows_def list_all_iff split: option.split)
  then show ?thesis
    using assms(1) by (simp add: consecutive_failures_def rows last)
qed

lemma consecutive_reset:
  assumes "row \<in> set (source_rows src d)" "settled row" "poll_classification row \<noteq> PollFailure"
    and "list_all (\<lambda>p. sp_poll_id p \<le> sp_poll_id row) (source_rows src d)"
  shows "consecutive_failures src d = 0"
proof -
  let ?ok = "filter (\<lambda>p. settled p \<and> poll_classification p \<noteq> PollFailure) (source_rows src d)"
  have r: "row \<in> set ?ok" using assms(1-3) by simp
  then have "max_by sp_poll_id ?ok \<noteq> None" by (metis max_by_None list.set(1) empty_iff)
  then obtain y where y: "max_by sp_poll_id ?ok = Some y" by blast
  then have "sp_poll_id row \<le> last_nonfailure_id src d"
    using max_by_SomeD [OF y] r by (simp add: last_nonfailure_id_def)
  then have "filter (\<lambda>p. sp_poll_id p > last_nonfailure_id src d \<and> is_failure p) (source_rows src d) = []"
    using assms(4) by (fastforce simp: filter_empty_conv list_all_iff)
  then show ?thesis by (simp add: consecutive_failures_def)
qed

section \<open>How an apply moves the failure count\<close>

lemma ids_before: "lifecycle_ok d \<Longrightarrow> list_all (\<lambda>p. sp_poll_id p < seq_poll d) (source_polls d) \<and> 0 < seq_poll d"
  by (simp add: lifecycle_ok_def db_ok_def keys_ok_def)

lemma consecutive_cong: "source_polls d = source_polls d' \<Longrightarrow> consecutive_failures src d = consecutive_failures src d'"
  by (simp add: consecutive_failures_def last_nonfailure_id_def source_rows_def)

lemma consecutive_append_nonfailure:
  assumes "settled row" "sp_source row = src" "poll_classification row \<noteq> PollFailure"
    "list_all (\<lambda>p. sp_poll_id p < sp_poll_id row) ps" "source_polls d = ps @ [row]"
  shows "consecutive_failures src d = 0"
  by (rule consecutive_reset [of row])
    (use assms in \<open>auto simp: source_rows_def list_all_iff less_imp_le\<close>)

lemma consecutive_append_pending:
  assumes "\<not> settled row"
  shows "consecutive_failures src (d\<lparr>source_polls := source_polls d @ [row], seq_poll := n\<rparr>) = consecutive_failures src d"
  using assms by (simp add: consecutive_failures_def last_nonfailure_id_def source_rows_def is_failure_def)

text \<open>What the row of a poll counts as, once it is settled with the given outcome.\<close>

definition counts_as_failure :: "PollResult \<Rightarrow> bool" where
  "counts_as_failure r \<longleftrightarrow> res_Classification r \<in> {PollFailure, PollUnclassified}"

lemma RecordPoll_failure_count:
  assumes "\<not> Success r" "fault RecordPollStmt d = None" "lifecycle_ok d" "res_Err r \<noteq> Some pending_error"
  shows "consecutive_failures (res_Source r) (snd (Apply fault N r d)) =
    (if counts_as_failure r then Suc (consecutive_failures (res_Source r) d) else 0)"
proof (cases rule: recordPoll_cases [of fault r "Success r" "pollErrorString (res_Err r)" d])
  case (failed e)
  then show ?thesis using assms(2) by simp
next
  case (stored row)
  let ?d' = "d\<lparr>source_polls := source_polls d @ [row], seq_poll := seq_poll d + 1\<rparr>"
  have d': "snd (Apply fault N r d) = ?d'" using assms(1) stored by (simp add: Apply_def RecordPoll_def)
  have set: "settled row"
    using assms(4) stored by (auto simp: settled_def pollErrorString_def nullif_empty_def pending_error_def split: option.splits)
  have cls: "poll_classification row = (if counts_as_failure r then PollFailure else res_Classification r)"
    "is_failure row = counts_as_failure r"
    using stored set assms(1)
    by (auto simp: poll_classification_def noted_classification_def counts_as_failure_def is_failure_def)
  have ids: "list_all (\<lambda>p. sp_poll_id p < sp_poll_id row) (source_polls d)" "0 < sp_poll_id row"
    using ids_before [OF assms(3)] stored by simp_all
  show ?thesis
  proof (cases "counts_as_failure r")
    case True
    then show ?thesis
      using consecutive_append_failure [of row "res_Source r" d "seq_poll d + 1"] cls ids stored
      by (simp add: d')
  next
    case False
    then have "poll_classification row \<noteq> PollFailure" using cls by (simp add: counts_as_failure_def)
    then show ?thesis
      using consecutive_append_nonfailure [OF set _ _ ids(1), of "res_Source r" ?d'] False stored by (simp add: d')
  qed
qed

lemma apply_success_polls:
  "(fst (apply_success fault N r pid d) \<noteq> None \<and>
    source_polls (snd (apply_success fault N r pid d)) = source_polls d) \<or>
   (fst (apply_success fault N r pid d) = None \<and>
    source_polls (snd (apply_success fault N r pid d)) = update_where (\<lambda>p. sp_poll_id p = pid)
      (\<lambda>p. p\<lparr>sp_success := True, sp_error := None\<rparr>) (source_polls d)) \<or>
   (\<exists>e. fst (apply_success fault N r pid d) \<noteq> None \<and> apply_error e \<and>
    source_polls (snd (apply_success fault N r pid d)) = update_where (\<lambda>p. sp_poll_id p = pid)
      (\<lambda>p. p\<lparr>sp_success := False, sp_error := Some e\<rparr>) (source_polls d))"
proof -
  let ?A = "apply_success fault N r pid d"
  have fail: "?thesis" if "?A = failPollApply fault pid e d'" "apply_error e" "source_polls d' = source_polls d" for e d'
    using that failPollApply_error [of fault pid e d']
    by (cases "fault (MarkFailedStmt pid) d'")
      (auto simp: failPollApply_snd MarkPollFailed_def apply_error_def nullif_empty_def)
  have up: "source_polls d2 = source_polls d"
    if "upsert_all fault (res_Incidents r) pid (res_StartedAt r) d = (res, d2)" for res d2
    using upsert_all_polls [of fault "res_Incidents r" pid "res_StartedAt r" d] that by simp
  have mm: "source_polls d3 = source_polls d2"
    if "MarkMissing fault (res_Source r) (res_StartedAt r) ids d2 = (None, d3)" for ids d2 d3
    using MarkMissing_find [OF that] by simp
  have sw: "source_polls d4 = source_polls d3"
    if "SweepCleared fault (res_Source r) N d3 = (Inr cl, d4)" for cl d3 d4
    using SweepCleared_find [OF that] by simp
  show ?thesis
  proof (cases rule: apply_success_cases [of fault r pid d N])
    case (upsert e d2)
    then show ?thesis using fail up by blast
  next
    case (mark ids d2 e)
    then show ?thesis using fail up by blast
  next
    case (sweep ids d2 d3 e)
    then show ?thesis using fail [OF sweep(3,4)] up [OF sweep(1)] mm [OF sweep(2)] by simp
  next
    case (events ids d2 d3 cl d4 e)
    then show ?thesis using fail [OF events(4,5)] up [OF events(1)] mm [OF events(2)] sw [OF events(3)]
      by (simp add: RecordClearedEvents_rows)
  next
    case (finish ids d2 d3 cl d4)
    let ?d5 = "snd (RecordClearedEvents fault cl pid d4)"
    have "source_polls ?d5 = source_polls d"
      using up [OF finish(1)] mm [OF finish(2)] sw [OF finish(3)] by (simp add: RecordClearedEvents_rows)
    then show ?thesis
      using finish(4)
      by (cases "fault (MarkSucceededStmt pid) ?d5") (simp_all add: finish_apply_def MarkPollSucceeded_def)
  qed
qed

lemma settled_row_update:
  assumes "list_all (\<lambda>p. sp_poll_id p < pid) ps" "sp_poll_id row = pid"
  shows "update_where (\<lambda>p. sp_poll_id p = pid) f (ps @ [row]) = ps @ [f row]"
proof -
  have "update_where (\<lambda>p. sp_poll_id p = pid) f ps = ps"
    by (rule update_where_none) (use assms(1) in \<open>auto simp: list_all_iff\<close>)
  then show ?thesis using assms(2) by (simp add: update_append) (simp add: update_where_def)
qed

lemma Success_apply_failure_count:
  assumes "Success r" "res_Classification r = PollAuthoritativeSuccess" "fault RecordPollStmt d = None" "lifecycle_ok d"
  shows "consecutive_failures (res_Source r) (snd (Apply fault N r d)) \<in> {0, consecutive_failures (res_Source r) d} \<and>
    (fst (Apply fault N r d) = None \<longrightarrow> consecutive_failures (res_Source r) (snd (Apply fault N r d)) = 0)"
proof (cases rule: recordPoll_cases [of fault r False pending_error d])
  case (failed e)
  then show ?thesis using assms(3) by simp
next
  case (stored row)
  let ?src = "res_Source r"
  let ?d1 = "d\<lparr>source_polls := source_polls d @ [row], seq_poll := seq_poll d + 1\<rparr>"
  let ?A = "apply_success fault N r (seq_poll d) ?d1"
  have A: "Apply fault N r d = ?A" using assms(1) stored by (simp add: Apply_def RecordPollPending_def)
  have pend: "\<not> settled row" using stored by (simp add: settled_def nullif_empty_def pending_error_def)
  have ids: "list_all (\<lambda>p. sp_poll_id p < seq_poll d) (source_polls d)" using ids_before [OF assms(4)] by simp
  note upd = settled_row_update [OF ids stored(3)]
  have reset: "consecutive_failures ?src d' = 0"
    if "source_polls d' = source_polls d @ [row\<lparr>sp_success := s, sp_error := e\<rparr>]" "e \<noteq> Some pending_error" for d' s e
    by (rule consecutive_append_nonfailure [of "row\<lparr>sp_success := s, sp_error := e\<rparr>" _ "source_polls d"])
      (use that stored ids assms(2) in \<open>simp_all add: settled_def poll_classification_def noted_classification_def\<close>)
  from apply_success_polls [of fault N r "seq_poll d" ?d1]
  consider (same) "fst ?A \<noteq> None" "source_polls (snd ?A) = source_polls ?d1"
    | (applied) "source_polls (snd ?A) = source_polls d @ [row\<lparr>sp_success := True, sp_error := None\<rparr>]"
    | (broken) e where "apply_error e"
        "source_polls (snd ?A) = source_polls d @ [row\<lparr>sp_success := False, sp_error := Some e\<rparr>]"
    by (auto simp: upd)
  then show ?thesis
  proof cases
    case same
    then have "consecutive_failures ?src (snd ?A) = consecutive_failures ?src d"
      using consecutive_cong [OF same(2)] consecutive_append_pending [OF pend] by simp
    then show ?thesis using same(1) by (auto simp: A)
  next
    case applied
    from reset [OF this] show ?thesis by (simp add: A)
  next
    case broken
    from reset [OF broken(2)] broken(1) show ?thesis by (simp add: A apply_error_def)
  qed
qed

text \<open>
  C35. Each apply moves the count of consecutive failures of its source the way its poll went: a poll
  that failed adds one, one that was degraded or applied resets it; and an authoritative poll whose
  apply failed never adds to it: it resets it too, or leaves it when even that could not be written.
\<close>

theorem consecutive_failures_step:
  assumes "lifecycle_ok d" and "fault RecordPollStmt d = None" and "res_Err r \<noteq> Some pending_error"
    and "res_Classification r = PollAuthoritativeSuccess \<Longrightarrow> Success r"
  shows "let n = consecutive_failures (res_Source r) d; (e, d') = Apply fault N r d;
             n' = consecutive_failures (res_Source r) d'
    in case res_Classification r of
         PollFailure \<Rightarrow> n' = Suc n
       | PollUnclassified \<Rightarrow> Success r \<or> n' = Suc n
       | PollDegradedSnapshot \<Rightarrow> n' = 0
       | PollAuthoritativeSuccess \<Rightarrow> n' = 0 \<or> (e \<noteq> None \<and> n' = n)"
proof -
  obtain e d' where A: "Apply fault N r d = (e, d')" by fastforce
  show ?thesis
  proof (cases "res_Classification r")
    case PollUnclassified
    then show ?thesis
      using RecordPoll_failure_count [of r fault d N] assms(1-3) by (auto simp: A counts_as_failure_def)
  next
    case PollAuthoritativeSuccess
    then show ?thesis
      using Success_apply_failure_count [of r fault d N] assms by (auto simp: A)
  next
    case PollDegradedSnapshot
    then show ?thesis
      using RecordPoll_failure_count [of r fault d N] assms(1-3) by (simp add: A counts_as_failure_def not_Success_degraded)
  next
    case PollFailure
    then show ?thesis
      using RecordPoll_failure_count [of r fault d N] assms(1-3) by (simp add: A counts_as_failure_def not_Success_failure)
  qed
qed

theorem consecutive_failures_step_witness:
  "consecutive_failures ''phoenix-fire-mapserver''
     (snd (Apply no_faults 5 (sample_outage 160) showing_db)) =
   Suc (consecutive_failures ''phoenix-fire-mapserver'' showing_db)"
proof -
  have "no_faults RecordPollStmt showing_db = None" "res_Err (sample_outage 160) \<noteq> Some pending_error"
    "res_Classification (sample_outage 160) = PollFailure" "res_Source (sample_outage 160) = ''phoenix-fire-mapserver''"
    by code_simp+
  then show ?thesis
    using consecutive_failures_step [of showing_db no_faults "sample_outage 160" 5] showing_db_facts(1)
    by (simp add: Let_def split: prod.splits)
qed

section \<open>An apply that always fails stays silent\<close>

text \<open>
  A database that refuses the incident statements: every authoritative poll is recorded as failed.
\<close>

definition stuck_polls :: "(faults \<times> PollResult) list" where
  "stuck_polls = map (\<lambda>t. (sweep_fault, sample_result t [])) [160, 220, 280, 340, 400]"

definition stuck_db :: database where
  "stuck_db = foldl (\<lambda>d p. snd (Apply (fst p) 5 (snd p) d)) showing_db stuck_polls"

text \<open>
  Five polls in a row whose applies all fail leave five unsuccessful rows with an error each, and
  a count of consecutive failures of zero.
\<close>

theorem failed_applies_not_counted:
  "map sp_success (source_polls stuck_db) = [True, False, False, False, False, False] \<and>
   list_all (\<lambda>p. sp_error p = Some ''sweep cleared phoenix-fire-mapserver: timeout'') (tl (source_polls stuck_db)) \<and>
   consecutive_failures ''phoenix-fire-mapserver'' stuck_db = 0"
  by code_simp

end
