(* ===== verification/Source_Status.thy ===== *)
theory Source_Status
  imports Poll_Meta Phxfire_Client
begin

text \<open>
  How the API judges a source (\<^verbatim>\<open>internal/api/source_status.go\<close>) and aggregates the judgements
  (\<^verbatim>\<open>internal/api/health.go\<close>). The three status strings are a datatype, ordered by severity.
\<close>

section \<open>Status\<close>

datatype source_status = StatusOK | StatusDegraded | StatusDown

definition status_string :: "source_status \<Rightarrow> string" where
  "status_string st = (case st of StatusOK \<Rightarrow> ''ok'' | StatusDegraded \<Rightarrow> ''degraded'' | StatusDown \<Rightarrow> ''down'')"

fun severity :: "source_status \<Rightarrow> nat" where
  "severity StatusOK = 0"
| "severity StatusDegraded = 1"
| "severity StatusDown = 2"

instantiation source_status :: linorder
begin

definition less_eq_source_status :: "source_status \<Rightarrow> source_status \<Rightarrow> bool" where
  "s \<le> t \<longleftrightarrow> severity s \<le> severity t"

definition less_source_status :: "source_status \<Rightarrow> source_status \<Rightarrow> bool" where
  "s < t \<longleftrightarrow> severity s < severity t"

instance
proof
  fix s t u :: source_status
  show "s < t \<longleftrightarrow> s \<le> t \<and> \<not> t \<le> s"
    by (auto simp: less_eq_source_status_def less_source_status_def)
  show "s \<le> s" by (simp add: less_eq_source_status_def)
  show "s \<le> t \<Longrightarrow> t \<le> u \<Longrightarrow> s \<le> u" by (simp add: less_eq_source_status_def)
  show "s \<le> t \<Longrightarrow> t \<le> s \<Longrightarrow> s = t" by (cases s; cases t) (simp_all add: less_eq_source_status_def)
  show "s \<le> t \<or> t \<le> s" by (auto simp: less_eq_source_status_def)
qed

end

lemmas status_order = less_eq_source_status_def less_source_status_def

record ApiConfig =
  cfg_Sources :: "string list"
  cfg_StaleAfter :: duration
  cfg_SourceDegradedAfter :: duration
  cfg_SourceDownAfter :: duration
  cfg_SourceDownFailures :: int
  cfg_FrozenDownAfter :: duration
  cfg_DefaultParserVersion :: string
  cfg_AdminToken :: string
  cfg_AllowedOrigins :: "string list"
  cfg_FireStationsURL :: string
  cfg_PaidTierEnabled :: bool

record Thresholds =
  degradedAfter :: duration
  downAfter :: duration
  downFailures :: int
  frozenDownAfter :: duration

definition sourceThresholds :: "ApiConfig \<Rightarrow> Thresholds" where
  "sourceThresholds cfg =
     \<lparr>degradedAfter =
        (if cfg_SourceDegradedAfter cfg \<le> 0 then 3 * minute else cfg_SourceDegradedAfter cfg),
      downAfter =
        (if cfg_SourceDownAfter cfg \<le> 0
         then (if cfg_StaleAfter cfg \<le> 0 then 10 * minute else cfg_StaleAfter cfg)
         else cfg_SourceDownAfter cfg),
      downFailures = (if cfg_SourceDownFailures cfg \<le> 0 then 3 else cfg_SourceDownFailures cfg),
      frozenDownAfter =
        (if cfg_FrozenDownAfter cfg \<le> 0 then 10 * minute else cfg_FrozenDownAfter cfg)\<rparr>"

definition known_reasons :: "string list" where
  "known_reasons =
     [''healthy'', ''recent_failures'', ''success_overdue'', ''contract_invalid'',
      ''snapshot_incomplete'', ''payload_frozen'', ''never_succeeded'']"

definition stableSourceReason :: "string \<Rightarrow> string \<Rightarrow> string" where
  "stableSourceReason reason fallback = (if reason \<in> set known_reasons then reason else fallback)"

definition classifySourceStatus ::
  "time \<Rightarrow> time option \<Rightarrow> int \<Rightarrow> PollClassification \<Rightarrow> string \<Rightarrow> time option \<Rightarrow> Thresholds \<Rightarrow>
   source_status \<times> string" where
  "classifySourceStatus now lastSuccess failures cls reason unchanged th =
     (case lastSuccess of
        None \<Rightarrow> (StatusDown, ''never_succeeded'')
      | Some success \<Rightarrow>
          if reason = ''payload_frozen'' \<and>
             (case unchanged of None \<Rightarrow> False | Some u \<Rightarrow> Sub now u \<ge> frozenDownAfter th)
          then (StatusDown, ''payload_frozen'')
          else if failures \<ge> downFailures th
          then (StatusDown, stableSourceReason reason ''recent_failures'')
          else
            (let age = Sub now success
             in if age \<ge> downAfter th
                then (if reason = ''payload_frozen'' then (StatusDown, ''payload_frozen'')
                      else (StatusDown, ''success_overdue''))
                else if cls = PollDegradedSnapshot
                then (StatusDegraded, stableSourceReason reason ''snapshot_incomplete'')
                else if failures > 0 \<or> cls = PollFailure
                then (StatusDegraded, stableSourceReason reason ''recent_failures'')
                else if age \<ge> degradedAfter th then (StatusDegraded, ''success_overdue'')
                else (StatusOK, ''healthy'')))"

definition elapsedSeconds :: "time \<Rightarrow> time \<Rightarrow> int" where
  "elapsedSeconds now then' = max 0 (whole_seconds (Sub now then'))"

definition meta_status :: "'a StalenessMeta_scheme \<Rightarrow> time \<Rightarrow> ApiConfig \<Rightarrow> source_status \<times> string" where
  "meta_status meta now cfg =
     classifySourceStatus now (SourceLastSuccessAt meta) (SourceConsecutiveFailures meta)
       (LatestPollClassification meta) (LatestPollReason meta) (LatestUnchangedSince meta)
       (sourceThresholds cfg)"

text \<open>\<^verbatim>\<open>applySourceStatus\<close> sets the status, the reason and the data age of the metadata.\<close>

definition applySourceStatus ::
  "'a StalenessMeta_scheme \<Rightarrow> time \<Rightarrow> ApiConfig \<Rightarrow> 'a StalenessMeta_scheme \<times> source_status \<times> string" where
  "applySourceStatus meta now cfg =
     (meta\<lparr>DataAgeSeconds :=
        (case SourceLastSuccessAt meta of
           None \<Rightarrow> None
         | Some t \<Rightarrow> (case DataAgeSeconds meta of
                      None \<Rightarrow> Some (elapsedSeconds now t)
                    | Some a \<Rightarrow> Some a))\<rparr>,
      meta_status meta now cfg)"

definition incidentIsLastKnown :: "'a StalenessMeta_scheme \<Rightarrow> source_status \<Rightarrow> time \<Rightarrow> bool" where
  "incidentIsLastKnown meta status lastConfirmed =
     (status \<noteq> StatusOK \<or>
      (case SourceLastSuccessAt meta of None \<Rightarrow> True | Some t \<Rightarrow> lastConfirmed < t))"

section \<open>Health\<close>

record CanaryHealth =
  ch_CheckedAt :: "time option"
  ch_Passed :: "bool option"
  ch_Drift :: "string option"
  ch_ParserVersion :: string

record SourceHealthRow =
  sh_Source :: string
  sh_Meta :: StalenessMeta
  sh_Canary :: "CanaryHealth option"

record canaryHealthResponse =
  cr_CheckedAt :: "time option"
  cr_Passed :: "bool option"
  cr_Drift :: "string option"

record sourceHealthResponse =
  hr_Status :: source_status
  hr_StatusReason :: string
  hr_LastSuccessAt :: "time option"
  hr_LastAttemptAt :: "time option"
  hr_SecondsSinceSuccess :: "int option"
  hr_ConsecutiveFailures :: int
  hr_FeatureCount :: "int option"
  hr_ParserVersion :: string
  hr_Canary :: "canaryHealthResponse option"

definition buildSourceHealthResponse :: "SourceHealthRow \<Rightarrow> time \<Rightarrow> ApiConfig \<Rightarrow> sourceHealthResponse" where
  "buildSourceHealthResponse row now cfg =
     (let m = sh_Meta row;
          (status, reason) = meta_status m now cfg;
          canary_failed = (case sh_Canary row of
                             None \<Rightarrow> False | Some c \<Rightarrow> ch_Passed c = Some False);
          (status', reason') =
            (if status = StatusOK \<and> canary_failed then (StatusDegraded, ''contract_invalid'')
             else (status, reason))
      in \<lparr>hr_Status = status', hr_StatusReason = reason',
          hr_LastSuccessAt = SourceLastSuccessAt m, hr_LastAttemptAt = SourceLastAttemptAt m,
          hr_SecondsSinceSuccess = map_option (elapsedSeconds now) (SourceLastSuccessAt m),
          hr_ConsecutiveFailures = SourceConsecutiveFailures m,
          hr_FeatureCount = LatestFeatureCount m, hr_ParserVersion = MetaParserVersion m,
          hr_Canary =
            map_option (\<lambda>c. \<lparr>cr_CheckedAt = ch_CheckedAt c, cr_Passed = ch_Passed c, cr_Drift = ch_Drift c\<rparr>)
              (sh_Canary row)\<rparr>)"

definition worsen :: "source_status \<Rightarrow> source_status \<Rightarrow> source_status" where
  "worsen state status =
     (if status = StatusDown then StatusDown
      else if state \<noteq> StatusDown \<and> status = StatusDegraded then StatusDegraded
      else state)"

fun health_rows ::
  "source_status \<Rightarrow> SourceHealthRow list \<Rightarrow> time \<Rightarrow> ApiConfig \<Rightarrow> source_status \<times> (string \<times> sourceHealthResponse) list" where
  "health_rows state [] now cfg = (state, [])"
| "health_rows state (source # sources) now cfg =
     (let row = buildSourceHealthResponse source now cfg;
          rest = health_rows (worsen state (hr_Status row)) sources now cfg
      in (fst rest, (sh_Source source, row) # snd rest))"

text \<open>
  \<^verbatim>\<open>healthHandler\<close>: the database is reachable when the ping and the health query succeed; a failed
  query yields no rows.
\<close>

record healthResponse =
  health_Code :: int
  health_State :: source_status
  health_DBReachable :: bool
  health_ServerTime :: time
  health_Sources :: "(string \<times> sourceHealthResponse) list"

definition healthHandler ::
  "bool \<Rightarrow> error + SourceHealthRow list \<Rightarrow> time \<Rightarrow> ApiConfig \<Rightarrow> healthResponse" where
  "healthHandler ping_ok rows now cfg =
     (let dbOK = (ping_ok \<and> (case rows of Inl _ \<Rightarrow> False | Inr _ \<Rightarrow> True));
          sources = (case rows of Inl _ \<Rightarrow> [] | Inr rs \<Rightarrow> rs);
          body = health_rows (if dbOK then StatusOK else StatusDown) sources now cfg
      in \<lparr>health_Code = (if fst body = StatusDown then 503 else 200), health_State = fst body,
          health_DBReachable = dbOK, health_ServerTime = now, health_Sources = snd body\<rparr>)"

section \<open>The judgement\<close>

lemma thresholds_positive:
  "0 < degradedAfter (sourceThresholds cfg)" "0 < downAfter (sourceThresholds cfg)"
  "0 < downFailures (sourceThresholds cfg)" "0 < frozenDownAfter (sourceThresholds cfg)"
  by (simp_all add: sourceThresholds_def duration_defs)

lemma Sub_mono: "t \<le> t' \<Longrightarrow> Sub t u \<le> Sub t' u"
  by (auto simp: Sub_def)

lemma stableSourceReason_known: "fallback \<in> set known_reasons \<Longrightarrow> stableSourceReason reason fallback \<in> set known_reasons"
  by (simp add: stableSourceReason_def)

text \<open>
  A source only gets worse as time passes without a new poll: with everything else fixed, a later
  clock and a higher failure count never give a better status.
\<close>

theorem classifySourceStatus_mono:
  assumes "now \<le> now'" and "failures \<le> failures'"
  shows "fst (classifySourceStatus now success failures cls reason unchanged th) \<le>
    fst (classifySourceStatus now' success failures' cls reason unchanged th)"
proof (cases success)
  case None
  then show ?thesis by (simp add: classifySourceStatus_def)
next
  case (Some t)
  have "Sub now t \<le> Sub now' t" by (rule Sub_mono) (rule assms)
  moreover have "\<And>u. Sub now u \<le> Sub now' u" by (rule Sub_mono) (rule assms)
  ultimately show ?thesis
    using assms(2) Some
    by (auto simp: classifySourceStatus_def Let_def status_order split: option.split)
      (meson order_trans)+
qed

theorem classifySourceStatus_mono_witness:
  "fst (classifySourceStatus 100 (Some 0) 1 PollFailure ''recent_failures'' None
       \<lparr>degradedAfter = 50, downAfter = 300, downFailures = 3, frozenDownAfter = 500\<rparr>) \<le>
   fst (classifySourceStatus 400 (Some 0) 2 PollFailure ''recent_failures'' None
       \<lparr>degradedAfter = 50, downAfter = 300, downFailures = 3, frozenDownAfter = 500\<rparr>)"
  by (rule classifySourceStatus_mono) simp_all

lemma classifySourceStatus_reason:
  "snd (classifySourceStatus now success failures cls reason unchanged th) \<in> set known_reasons"
  by (auto simp: classifySourceStatus_def Let_def stableSourceReason_def known_reasons_def split: option.split)

text \<open>
  The reason is always one of the seven the API documents, whatever reason the adapter stored,
  and the status is ok exactly when the source succeeded more recently than the degrading age, its
  latest attempt is neither degraded nor failed, nothing failed since, and no frozen payload is
  overdue.
\<close>

theorem classifySourceStatus_ok_iff:
  "snd (classifySourceStatus now success failures cls reason unchanged th) \<in> set known_reasons \<and>
   (fst (classifySourceStatus now success failures cls reason unchanged th) = StatusOK) =
   (case success of
      None \<Rightarrow> False
    | Some t \<Rightarrow>
        Sub now t < min (degradedAfter th) (downAfter th) \<and> failures \<le> 0 \<and> failures < downFailures th \<and>
        cls \<notin> {PollDegradedSnapshot, PollFailure} \<and>
        \<not> (reason = ''payload_frozen'' \<and>
           (case unchanged of None \<Rightarrow> False | Some u \<Rightarrow> frozenDownAfter th \<le> Sub now u)))"
proof -
  show ?thesis
    using classifySourceStatus_reason [of now success failures cls reason unchanged th]
    by (auto simp: classifySourceStatus_def Let_def split: option.split)
qed

section \<open>The aggregate\<close>

lemma worsen_max: "worsen state status = max status state"
  by (cases status; cases state) (simp_all add: worsen_def max_def status_order)

lemma health_rows_state:
  "fst (health_rows state sources now cfg) =
     fold max (map (\<lambda>s. hr_Status (buildSourceHealthResponse s now cfg)) sources) state"
  by (induction sources arbitrary: state) (simp_all add: Let_def worsen_max)

lemma fold_max_in: "fold max xs (s :: 'a :: linorder) \<in> insert s (set xs) \<and> (\<forall>x \<in> insert s (set xs). x \<le> fold max xs s)"
proof (induction xs arbitrary: s)
  case Nil
  then show ?case by simp
next
  case (Cons x xs)
  have "max x s = x \<or> max x s = s" "x \<le> max x s" "s \<le> max x s" by (auto simp: max_def)
  then show ?case using Cons.IH [of "max x s"] by (auto intro: order_trans)
qed

definition reported :: "error + SourceHealthRow list \<Rightarrow> time \<Rightarrow> ApiConfig \<Rightarrow> source_status list" where
  "reported rows now cfg =
     (case rows of
        Inl _ \<Rightarrow> []
      | Inr rs \<Rightarrow> map (\<lambda>s. hr_Status (buildSourceHealthResponse s now cfg)) rs)"

text \<open>
  The health state is the worst of the statuses of the configured sources and of the database,
  which counts as ok or down: it is one of them and none is worse; and the response is 503 exactly
  when it is down.
\<close>

theorem healthHandler_worst:
  "let h = healthHandler ping_ok rows now cfg;
       statuses = (if health_DBReachable h then StatusOK else StatusDown) # reported rows now cfg
   in health_State h \<in> set statuses \<and> list_all (\<lambda>s. s \<le> health_State h) statuses \<and>
      (health_Code h = 503) = (health_State h = StatusDown) \<and>
      health_DBReachable h = (ping_ok \<and> (case rows of Inl _ \<Rightarrow> False | Inr _ \<Rightarrow> True))"
proof -
  let ?ok = "ping_ok \<and> (case rows of Inl _ \<Rightarrow> False | Inr _ \<Rightarrow> True)"
  let ?start = "if ?ok then StatusOK else StatusDown"
  have "health_State (healthHandler ping_ok rows now cfg) = fold max (reported rows now cfg) ?start"
    by (cases rows) (simp_all add: healthHandler_def health_rows_state reported_def Let_def)
  moreover have "health_DBReachable (healthHandler ping_ok rows now cfg) = ?ok"
    "(health_Code (healthHandler ping_ok rows now cfg) = 503) =
     (health_State (healthHandler ping_ok rows now cfg) = StatusDown)"
    by (simp_all add: healthHandler_def Let_def)
  ultimately show ?thesis
    using fold_max_in [of "reported rows now cfg" ?start] by (simp add: Let_def list_all_iff)
qed

end
