(* ===== verification/Regex.thy ===== *)
theory Regex
  imports Go_Prelude
begin

text \<open>
  The part of Go's \<^verbatim>\<open>regexp\<close> package the dispatch parser uses: leftmost-first matching with
  greedy repetition and captures. A match is explored the way a backtracking engine explores it: the
  list of all ways to match, the preferred way first. Offsets count characters.
\<close>

section \<open>Patterns\<close>

datatype regex =
    Eps
  | Cls "char \<Rightarrow> bool"
  | Seq regex regex
  | Alt regex regex
  | Star regex
  | Upto nat regex
  | Capture nat regex
  | WordBoundary
  | BeginText
  | EndText

definition Plus :: "regex \<Rightarrow> regex" where "Plus r = Seq r (Star r)"
definition Opt :: "regex \<Rightarrow> regex" where "Opt r = Upto 1 r"

fun seqs :: "regex list \<Rightarrow> regex" where
  "seqs [] = Eps"
| "seqs [r] = r"
| "seqs (r # rs) = Seq r (seqs rs)"

fun alts :: "regex list \<Rightarrow> regex" where
  "alts [] = Cls (\<lambda>_. False)"
| "alts [r] = r"
| "alts (r # rs) = Alt r (alts rs)"

text \<open>A literal under \<^verbatim>\<open>(?i)\<close>, written in lower case.\<close>

definition lit :: "string \<Rightarrow> regex" where
  "lit s = seqs (map (\<lambda>x. Cls (\<lambda>c. lower_char c = x)) s)"

definition re_space :: "char \<Rightarrow> bool" where
  "re_space c \<longleftrightarrow> c = CHR '' '' \<or> c = CHR 0x09 \<or> c = CHR 0x0A \<or> c = CHR 0x0C \<or> c = CHR 0x0D"

definition re_alnum :: "char \<Rightarrow> bool" where
  "re_alnum c \<longleftrightarrow> is_lower c \<or> is_upper c \<or> is_digit c"

definition re_word :: "char \<Rightarrow> bool" where
  "re_word c \<longleftrightarrow> re_alnum c \<or> c = CHR ''_''"

section \<open>Matching\<close>

record mstate =
  at_index :: nat
  prev_char :: "char option"
  remaining :: string
  groups :: "(nat \<times> nat \<times> nat) list"

fun eat :: "(char \<Rightarrow> bool) \<Rightarrow> mstate \<Rightarrow> mstate list" where
  "eat p s =
     (case remaining s of
        [] \<Rightarrow> []
      | c # cs \<Rightarrow>
          if p c then [s\<lparr>at_index := Suc (at_index s), prev_char := Some c, remaining := cs\<rparr>] else [])"

definition word_before :: "mstate \<Rightarrow> bool" where
  "word_before s = (case prev_char s of None \<Rightarrow> False | Some c \<Rightarrow> re_word c)"

definition word_after :: "mstate \<Rightarrow> bool" where
  "word_after s = (case remaining s of [] \<Rightarrow> False | c # _ \<Rightarrow> re_word c)"

fun repeat :: "(mstate \<Rightarrow> mstate list) \<Rightarrow> nat \<Rightarrow> mstate \<Rightarrow> mstate list" where
  "repeat f 0 s = [s]"
| "repeat f (Suc n) s = concat (map (repeat f n) (f s)) @ [s]"

text \<open>
  Every pattern under a star consumes at least one character, so as many rounds as characters remain
  are enough.
\<close>

primrec matches :: "regex \<Rightarrow> mstate \<Rightarrow> mstate list" where
  "matches Eps s = [s]"
| "matches (Cls p) s = eat p s"
| "matches (Seq a b) s = concat (map (matches b) (matches a s))"
| "matches (Alt a b) s = matches a s @ matches b s"
| "matches (Star a) s = repeat (matches a) (length (remaining s)) s"
| "matches (Upto n a) s = repeat (matches a) n s"
| "matches (Capture k a) s =
     map (\<lambda>t. t\<lparr>groups := (k, at_index s, at_index t) # groups t\<rparr>) (matches a s)"
| "matches WordBoundary s = (if word_before s \<noteq> word_after s then [s] else [])"
| "matches BeginText s = (if prev_char s = None then [s] else [])"
| "matches EndText s = (if remaining s = [] then [s] else [])"

record found =
  m_start :: nat
  m_end :: nat
  m_groups :: "(nat \<times> nat \<times> nat) list"

fun search_from :: "regex \<Rightarrow> char option \<Rightarrow> nat \<Rightarrow> string \<Rightarrow> found option" where
  "search_from r prev i s =
     (case matches r \<lparr>at_index = i, prev_char = prev, remaining = s, groups = []\<rparr> of
        t # _ \<Rightarrow> Some \<lparr>m_start = i, m_end = at_index t, m_groups = groups t\<rparr>
      | [] \<Rightarrow> (case s of [] \<Rightarrow> None | c # cs \<Rightarrow> search_from r (Some c) (Suc i) cs))"

declare search_from.simps [simp del]

definition find_first :: "regex \<Rightarrow> string \<Rightarrow> found option" where
  "find_first r s = search_from r None 0 s"

text \<open>
  All matches, each search starting where the last match ended; the patterns of the parser never
  match the empty string, so every round moves on.
\<close>

fun find_all_from :: "regex \<Rightarrow> nat \<Rightarrow> char option \<Rightarrow> nat \<Rightarrow> string \<Rightarrow> found list" where
  "find_all_from r 0 prev i s = []"
| "find_all_from r (Suc fuel) prev i s =
     (case search_from r prev i s of
        None \<Rightarrow> []
      | Some m \<Rightarrow>
          let n = m_end m - i
          in m # (if m_end m = m_start m then []
                  else find_all_from r fuel (Some (s ! (n - 1))) (m_end m) (drop n s)))"

definition find_all :: "regex \<Rightarrow> string \<Rightarrow> found list" where
  "find_all r s = find_all_from r (Suc (length s)) None 0 s"

definition group :: "nat \<Rightarrow> found \<Rightarrow> (nat \<times> nat) option" where
  "group k m = map_of (m_groups m) k"

definition substr :: "nat \<Rightarrow> nat \<Rightarrow> string \<Rightarrow> string" where
  "substr a b s = take (b - a) (drop a s)"

definition group_text :: "nat \<Rightarrow> found \<Rightarrow> string \<Rightarrow> string" where
  "group_text k m s = (case group k m of None \<Rightarrow> [] | Some (a, b) \<Rightarrow> substr a b s)"

text \<open>\<^verbatim>\<open>ReplaceAllString\<close>, the template given as a function of the match.\<close>

fun replace_found :: "(found \<Rightarrow> string) \<Rightarrow> string \<Rightarrow> nat \<Rightarrow> found list \<Rightarrow> string" where
  "replace_found tmpl s i [] = drop i s"
| "replace_found tmpl s i (m # ms) = substr i (m_start m) s @ tmpl m @ replace_found tmpl s (m_end m) ms"

definition replace_all :: "regex \<Rightarrow> (found \<Rightarrow> string) \<Rightarrow> string \<Rightarrow> string" where
  "replace_all r tmpl s = replace_found tmpl s 0 (find_all r s)"

text \<open>
  Code equations that wait for the text: evaluation does not unfold a search whose text is not yet
  a value.
\<close>

lemma find_first_code [code]:
  "find_first r [] = search_from r None 0 []"
  "find_first r (c # cs) = search_from r None 0 (c # cs)"
  by (simp_all add: find_first_def)

lemma find_all_code [code]:
  "find_all r [] = find_all_from r 1 None 0 []"
  "find_all r (c # cs) = find_all_from r (Suc (Suc (length cs))) None 0 (c # cs)"
  by (simp_all add: find_all_def)

lemma replace_all_code [code]:
  "replace_all r tmpl [] = replace_found tmpl [] 0 (find_all r [])"
  "replace_all r tmpl (c # cs) = replace_found tmpl (c # cs) 0 (find_all r (c # cs))"
  by (simp_all add: replace_all_def)

section \<open>Matches stay inside the text\<close>

text \<open>A state that some characters lead to from another.\<close>

definition advances :: "mstate \<Rightarrow> mstate \<Rightarrow> bool" where
  "advances s t \<longleftrightarrow>
     at_index s \<le> at_index t \<and> at_index t + length (remaining t) = at_index s + length (remaining s)"

lemma advances_refl [simp]: "advances s s"
  by (simp add: advances_def)

lemma advances_trans: "advances s t \<Longrightarrow> advances t u \<Longrightarrow> advances s u"
  by (simp add: advances_def)

lemma repeat_advances:
  assumes "\<And>s t. t \<in> set (f s) \<Longrightarrow> advances s t" "t \<in> set (repeat f n s)"
  shows "advances s t"
  using assms(2)
proof (induction n arbitrary: s)
  case 0
  then show ?case by simp
next
  case (Suc n)
  then show ?case using assms(1) advances_trans by fastforce
qed

lemma matches_advances: "t \<in> set (matches r s) \<Longrightarrow> advances s t"
proof (induction r arbitrary: s t)
  case (Cls p)
  then show ?case by (cases "remaining s") (auto simp: advances_def split: if_splits)
next
  case (Seq a b)
  then show ?case using advances_trans by fastforce
next
  case (Star r)
  show ?case by (rule repeat_advances [of "matches r"]) (use Star in auto)
next
  case (Upto n r)
  show ?case by (rule repeat_advances [of "matches r"]) (use Upto in auto)
next
  case (Capture k r)
  then show ?case by (fastforce simp: advances_def)
qed (auto split: if_splits)

lemma search_from_bounds:
  "search_from r prev i s = Some m \<Longrightarrow> i \<le> m_start m \<and> m_start m \<le> m_end m \<and> m_end m \<le> i + length s"
proof (induction s arbitrary: prev i)
  case Nil
  then show ?case
    using matches_advances [of _ r "\<lparr>at_index = i, prev_char = prev, remaining = [], groups = []\<rparr>"]
    by (fastforce simp: search_from.simps advances_def split: list.splits)
next
  case (Cons c cs)
  show ?case
  proof (cases "matches r \<lparr>at_index = i, prev_char = prev, remaining = c # cs, groups = []\<rparr>")
    case Nil
    then show ?thesis using Cons by (fastforce simp: search_from.simps)
  next
    case (Cons t ts)
    then show ?thesis
      using matches_advances [of t r "\<lparr>at_index = i, prev_char = prev, remaining = c # cs, groups = []\<rparr>"]
        \<open>search_from r prev i (c # cs) = Some m\<close>
      by (auto simp: search_from.simps advances_def)
  qed
qed

lemma find_first_bounds: "find_first r s = Some m \<Longrightarrow> m_start m \<le> m_end m \<and> m_end m \<le> length s"
  unfolding find_first_def by (drule search_from_bounds) simp

lemma find_all_from_bounds:
  "m \<in> set (find_all_from r fuel prev i s) \<Longrightarrow> i \<le> m_start m \<and> m_start m \<le> m_end m \<and> m_end m \<le> i + length s"
proof (induction fuel arbitrary: prev i s)
  case 0
  then show ?case by simp
next
  case (Suc fuel)
  show ?case
  proof (cases "search_from r prev i s")
    case None
    then show ?thesis using Suc.prems by simp
  next
    case (Some k)
    note K = search_from_bounds [OF Some]
    have "m = k \<or> m \<in> set (find_all_from r fuel (Some (s ! (m_end k - i - 1))) (m_end k) (drop (m_end k - i) s))"
      using Suc.prems Some by (auto simp: Let_def split: if_splits)
    then show ?thesis
    proof
      assume "m \<in> set (find_all_from r fuel (Some (s ! (m_end k - i - 1))) (m_end k) (drop (m_end k - i) s))"
      from Suc.IH [OF this] K show ?thesis by simp
    qed (use K in simp)
  qed
qed

lemma find_all_bounds: "m \<in> set (find_all r s) \<Longrightarrow> m_start m \<le> m_end m \<and> m_end m \<le> length s"
  unfolding find_all_def by (drule find_all_from_bounds) simp

lemma find_all_from_disjoint:
  "sorted_wrt (\<lambda>m n. m_end m \<le> m_start n) (find_all_from r fuel prev i s)"
proof (induction fuel arbitrary: prev i s)
  case 0
  then show ?case by simp
next
  case (Suc fuel)
  then show ?case
    using find_all_from_bounds by (fastforce simp: Let_def split: option.split)
qed

text \<open>The matches of one pattern are disjoint and in the order of the text.\<close>

lemma find_all_disjoint: "sorted_wrt (\<lambda>m n. m_end m \<le> m_start n) (find_all r s)"
  unfolding find_all_def by (rule find_all_from_disjoint)

end
