(* ===== verification/Dispatch_Parser.thy ===== *)
theory Dispatch_Parser
  imports Regex "HOL-Library.Monad_Syntax"
begin

text \<open>
  The transcript parser (\<^verbatim>\<open>internal/dispatch/parser/natures.go\<close> and \<^verbatim>\<open>parser.go\<close>): known
  natures, the patterns, and \<^verbatim>\<open>ParseTranscript\<close> with its helpers.

  Go panics when the bounds of a slice expression are out of order or out of range. Slices whose
  bounds come from different searches go through \<^verbatim>\<open>go_slice\<close>, which has no value then, and the
  functions that use it return an option: \<^verbatim>\<open>None\<close> is the panic. Slices inside one match are in range
  (theory Regex).
\<close>

section \<open>Natures\<close>

definition knownDispatchNatures :: "(string \<times> string list) list" where
  "knownDispatchNatures =
    [(''Motor Vehicle Accident With Motorcycle'', []),
     (''Residential Fire Alarm'', []),
     (''Commercial Fire Alarm'', []),
     (''Level of Consciousness'', []),
     (''Difficulty Breathing'', []),
     (''Smoke Investigation'', []),
     (''Medical Assignment'', []),
     (''Breathing Problems'', []),
     (''Cardiac Problems'', []),
     (''Cardiac Problem'', []),
     (''Unknown Trouble'', []),
     (''Motor Vehicle Accident'', []),
     (''Vehicle Accident'', []),
     (''Vehicle Crash'', []),
     (''Structure Fire'', []),
     (''Working Fire'', []),
     (''Brush Fire'', []),
     (''Trash Fire'', []),
     (''House Fire'', []),
     (''Injured Person'', []),
     (''Animal Issue'', []),
     (''Ill Person'', [''Hill Person'']),
     (''Gas Leak'', [''Natural Gas Leak'']),
     (''Sick Person'', []),
     (''Welfare Check'', []),
     (''Check Welfare'', []),
     (''Overdose'', []),
     (''Seizure'', []),
     (''Assault'', []),
     (''Hazmat'', []),
     (''Stroke'', []),
     (''Fall'', [])]"

text \<open>All phrases with the nature they stand for, in the order the two loops visit them.\<close>

definition naturePhrases :: "(string \<times> string) list" where
  "naturePhrases =
     concat (map (\<lambda>(canonical, phrases). (canonical, canonical) # map (\<lambda>p. (p, canonical)) phrases)
       knownDispatchNatures)"

fun normalize_from :: "bool \<Rightarrow> string \<Rightarrow> string" where
  "normalize_from lastSpace [] = []"
| "normalize_from lastSpace (r # rs) =
     (if is_lower r \<or> is_digit r then r # normalize_from False rs
      else if lastSpace then normalize_from True rs
      else CHR '' '' # normalize_from True rs)"

definition normalizeNatureForMatch :: "string \<Rightarrow> string" where
  "normalizeNatureForMatch s = TrimSpace (normalize_from True (ToLower s))"

fun best_nature :: "string \<Rightarrow> (string \<times> string) list \<Rightarrow> (string \<times> nat \<times> nat) option \<Rightarrow> (string \<times> nat \<times> nat) option" where
  "best_nature cand [] best = best"
| "best_nature cand ((phrase, canonical) # rest) best =
     (case Index cand ('' '' @ normalizeNatureForMatch phrase @ '' '') of
        None \<Rightarrow> best_nature cand rest best
      | Some i \<Rightarrow>
          (case best of
             None \<Rightarrow> best_nature cand rest (Some (canonical, i, length phrase))
           | Some (b, bi, bl) \<Rightarrow>
               if i < bi \<or> (i = bi \<and> length phrase > bl)
               then best_nature cand rest (Some (canonical, i, length phrase))
               else best_nature cand rest best))"

definition matchKnownNature :: "string \<Rightarrow> string" where
  "matchKnownNature candidate =
     (let cand = '' '' @ normalizeNatureForMatch candidate @ '' ''
      in if TrimSpace cand = [] then []
         else (case best_nature cand naturePhrases None of None \<Rightarrow> [] | Some (b, _) \<Rightarrow> b))"

section \<open>Patterns\<close>

definition sp :: regex where "sp = Cls re_space"
definition digit :: regex where "digit = Cls is_digit"
definition alnum :: regex where "alnum = Cls re_alnum"
definition space_or_dash :: regex where "space_or_dash = Cls (\<lambda>c. re_space c \<or> c = CHR ''-'')"
definition amr_gap :: regex where
  "amr_gap = Star (Cls (\<lambda>c. re_space c \<or> c = CHR ''.'' \<or> c = CHR ''-''))"

definition cdecPattern :: regex where
  "cdecPattern =
     seqs [WordBoundary,
           alts [lit ''cdec'',
                 seqs [lit ''sea'', Opt space_or_dash, lit ''deck''],
                 seqs [lit ''sea'', Opt space_or_dash, lit ''beck''],
                 lit ''seabex'', lit ''fedex'', lit ''cdc'',
                 seqs [lit ''k'', Opt space_or_dash, lit ''deck''],
                 lit ''cadeck''],
           Opt space_or_dash, Capture 1 (Plus digit), WordBoundary]"

definition unitPattern :: regex where
  "unitPattern =
     seqs [WordBoundary,
           Capture 1 (alts (map lit [''engine'', ''ladder'', ''battalion'', ''rescue'', ''squad'',
             ''truck'', ''medic'', ''chief'', ''amr''])),
           Opt space_or_dash, Capture 2 (Plus digit), WordBoundary]"

definition hyphenatedAMRPattern :: regex where
  "hyphenatedAMRPattern =
     seqs [WordBoundary, lit ''a'', amr_gap, lit ''m'', amr_gap, lit ''r'', amr_gap,
           Capture 1 (Seq digit (Plus (Seq amr_gap digit))), WordBoundary]"

definition directionPattern :: regex where
  "directionPattern =
     alts [lit ''north'', lit ''south'', lit ''east'', lit ''west'', lit ''n'', lit ''s'', lit ''e'',
           lit ''w'', seqs [lit ''e'', Opt space_or_dash, lit ''suite'']]"

definition streetSuffixPattern :: regex where
  "streetSuffixPattern =
     alts (map lit [''avenue'', ''street'', ''road'', ''drive'', ''place'', ''boulevard'', ''way'',
       ''court'', ''lane'', ''ave'', ''st'', ''rd'', ''dr'', ''pl'', ''blvd''])"

definition streetNamePattern :: regex where
  "streetNamePattern = Seq (Plus alnum) (Upto 5 (Seq (Plus space_or_dash) (Plus alnum)))"

definition conjunction :: regex where
  "conjunction = alts [lit ''and'', lit ''at'', lit ''/'']"

definition addressPatterns :: "regex list" where
  "addressPatterns =
     [seqs [WordBoundary, Plus digit, Opt (Seq space_or_dash (Plus digit)),
            Plus (Cls (\<lambda>c. re_space c \<or> c = CHR '','' \<or> c = CHR ''.'')),
            directionPattern, Plus sp, streetNamePattern, Plus sp, streetSuffixPattern, WordBoundary],
      seqs [WordBoundary, directionPattern, Plus sp, streetNamePattern, Plus sp, streetSuffixPattern,
            Plus sp, conjunction, Plus sp, directionPattern, Plus sp, streetNamePattern, Plus sp,
            streetSuffixPattern, WordBoundary],
      seqs [WordBoundary, streetNamePattern, Plus sp, streetSuffixPattern, Plus sp, conjunction,
            Plus sp, streetNamePattern, Plus sp, streetSuffixPattern, WordBoundary],
      seqs [WordBoundary, directionPattern, Plus sp, Plus digit, Upto 2 (Cls (\<lambda>c. is_lower c \<or> is_upper c)),
            Plus sp, streetSuffixPattern, WordBoundary],
      seqs [WordBoundary, lit ''signal'', Plus sp, lit ''butte'',
            Opt (Seq (Plus sp) (alts [lit ''road'', lit ''rd''])), Plus sp, conjunction, Plus sp,
            Plus digit, Opt (seqs [Plus sp, lit ''over'', Plus sp, lit ''under'']), WordBoundary],
      seqs [WordBoundary,
            alts [lit ''i'', lit ''interstate'', lit ''us'', lit ''sr'',
                  seqs [lit ''state'', Plus sp, lit ''route''], lit ''loop''],
            Star sp, Opt (lit ''-''), Star sp, Plus digit,
            Opt (seqs [Plus sp, conjunction, Plus sp, streetNamePattern, Plus sp, streetSuffixPattern]),
            WordBoundary]]"

definition whitespacePattern :: regex where "whitespacePattern = Plus sp"

definition plain_direction :: regex where
  "plain_direction =
     alts [lit ''north'', lit ''south'', lit ''east'', lit ''west'', lit ''n'', lit ''s'', lit ''e'', lit ''w'']"

definition punctuatedDirectionPattern :: regex where
  "punctuatedDirectionPattern =
     seqs [WordBoundary, Capture 1 (Seq (Plus digit) (Opt (Seq (lit ''-'') (Plus digit)))), Star sp,
           Cls (\<lambda>c. c = CHR '','' \<or> c = CHR ''.''), Star sp, Capture 2 plain_direction, WordBoundary]"

definition splitHouseNumberPattern :: regex where
  "splitHouseNumberPattern =
     seqs [WordBoundary, Capture 1 (seqs [digit, digit, Upto 3 digit]), Plus sp,
           Capture 2 (seqs [digit, digit, Upto 2 digit]), Plus sp, Capture 3 plain_direction, WordBoundary]"

definition esuiteDirectionPattern :: regex where
  "esuiteDirectionPattern = seqs [WordBoundary, lit ''e'', Opt space_or_dash, lit ''suite'', WordBoundary]"

definition overUnderSuffixPattern :: regex where
  "overUnderSuffixPattern = seqs [Plus sp, lit ''over'', Plus sp, lit ''under'', EndText]"

definition leadingNatureAddressNoisePatterns :: "regex list" where
  "leadingNatureAddressNoisePatterns =
     [seqs [BeginText, lit ''working'', Plus sp, lit ''fire'', Plus sp],
      seqs [BeginText, lit ''house'', Plus sp, lit ''fire'', Plus sp],
      seqs [BeginText, lit ''structure'', Plus sp, lit ''fire'', Plus sp]]"

section \<open>Units\<close>

record ExpectedUnit =
  eu_UnitName :: string
  eu_UnitType :: string

record ParsedDispatch =
  pd_Nature :: string
  pd_Channel :: string
  pd_Units :: "ExpectedUnit list"
  pd_LocationText :: string

record unitMatch =
  um_start :: nat
  um_end :: nat
  um_unit :: ExpectedUnit

definition go_slice :: "nat \<Rightarrow> nat \<Rightarrow> string \<Rightarrow> string option" where
  "go_slice a b s = (if a \<le> b \<and> b \<le> length s then Some (substr a b s) else None)"

definition compactDigits :: "string \<Rightarrow> string" where
  "compactDigits s = filter is_digit s"

definition canonicalUnitType :: "string \<Rightarrow> string" where
  "canonicalUnitType s0 =
     (let s = ToLower (TrimSpace s0)
      in if s = ''amr'' then ''AMR''
         else (case s of [] \<Rightarrow> [] | c # cs \<Rightarrow> upper_char c # cs))"

definition typed_match :: "string \<Rightarrow> found \<Rightarrow> unitMatch list" where
  "typed_match text m =
     (let unitType = canonicalUnitType (group_text 1 m text);
          digits = compactDigits (group_text 2 m text)
      in if digits = [] then []
         else [\<lparr>um_start = m_start m, um_end = m_end m,
                um_unit = \<lparr>eu_UnitName = unitType @ '' '' @ digits, eu_UnitType = unitType\<rparr>\<rparr>])"

definition amr_match :: "string \<Rightarrow> found \<Rightarrow> unitMatch list" where
  "amr_match text m =
     (let digits = compactDigits (group_text 1 m text)
      in if digits = [] then []
         else [\<lparr>um_start = m_start m, um_end = m_end m,
                um_unit = \<lparr>eu_UnitName = ''AMR '' @ digits, eu_UnitType = ''AMR''\<rparr>\<rparr>])"

fun dedupe :: "string list \<Rightarrow> ('a \<Rightarrow> string) \<Rightarrow> 'a list \<Rightarrow> 'a list" where
  "dedupe seen key [] = []"
| "dedupe seen key (x # xs) =
     (let k = ToLower (key x)
      in if k \<in> set seen then dedupe seen key xs else x # dedupe (k # seen) key xs)"

definition dedupeUnitMatches :: "unitMatch list \<Rightarrow> unitMatch list" where
  "dedupeUnitMatches ms = dedupe [] (\<lambda>m. eu_UnitName (um_unit m)) ms"

definition match_before :: "unitMatch \<Rightarrow> unitMatch \<Rightarrow> bool" where
  "match_before m n \<longleftrightarrow> (if um_start m = um_start n then um_end m < um_end n else um_start m < um_start n)"

text \<open>\<^verbatim>\<open>sort.SliceStable\<close>: a stable sort by start, then end.\<close>

fun insert_match :: "unitMatch \<Rightarrow> unitMatch list \<Rightarrow> unitMatch list" where
  "insert_match m [] = [m]"
| "insert_match m (n # ns) = (if match_before n m then n # insert_match m ns else m # n # ns)"

definition sort_matches :: "unitMatch list \<Rightarrow> unitMatch list" where
  "sort_matches ms = foldr insert_match ms []"

definition findUnitMatches :: "string \<Rightarrow> unitMatch list" where
  "findUnitMatches text =
     dedupeUnitMatches (sort_matches
       (concat (map (typed_match text) (find_all unitPattern text)) @
        concat (map (amr_match text) (find_all hyphenatedAMRPattern text))))"

definition extractUnits :: "string \<Rightarrow> ExpectedUnit list" where
  "extractUnits text = dedupe [] eu_UnitName (map um_unit (findUnitMatches text))"

section \<open>Addresses\<close>

fun noise_phrase_offset :: "string \<Rightarrow> (string \<times> string) list \<Rightarrow> nat \<Rightarrow> nat" where
  "noise_phrase_offset lower [] best = best"
| "noise_phrase_offset lower ((phrase, _) # rest) best =
     (let prefix = ToLower phrase @ '' ''
      in if HasPrefix lower prefix \<and> length prefix > best
         then noise_phrase_offset lower rest (length prefix)
         else noise_phrase_offset lower rest best)"

fun noise_pattern_offset :: "regex list \<Rightarrow> string \<Rightarrow> nat" where
  "noise_pattern_offset [] s = 0"
| "noise_pattern_offset (p # ps) s =
     (case find_first p s of
        Some m \<Rightarrow> if m_start m = 0 then m_end m else noise_pattern_offset ps s
      | None \<Rightarrow> noise_pattern_offset ps s)"

definition leadingAddressNoiseOffset :: "string \<Rightarrow> nat" where
  "leadingAddressNoiseOffset s =
     (let best = noise_phrase_offset (ToLower s) naturePhrases 0
      in if best > 0 then best else noise_pattern_offset leadingNatureAddressNoisePatterns s)"

definition rewrite_address :: "string \<Rightarrow> string" where
  "rewrite_address c0 =
     (let c1 = replace_all esuiteDirectionPattern (\<lambda>_. ''East'') c0;
          c2 = replace_all punctuatedDirectionPattern
                 (\<lambda>m. group_text 1 m c1 @ '' '' @ group_text 2 m c1) c1;
          c3 = replace_all splitHouseNumberPattern
                 (\<lambda>m. group_text 1 m c2 @ group_text 2 m c2 @ '' '' @ group_text 3 m c2) c2;
          c4 = replace_all overUnderSuffixPattern (\<lambda>_. []) c3;
          c5 = replace_all whitespacePattern (\<lambda>_. '' '') c4
      in TrimSpace (Trim ''.,'' (TrimSpace c5)))"

definition cleanAddress :: "string \<Rightarrow> string \<times> nat" where
  "cleanAddress raw =
     (let cleaned = Trim ''.,'' (TrimSpace raw);
          startOffset = leadingAddressNoiseOffset cleaned;
          cleaned' = (if startOffset > 0 then TrimSpace (drop startOffset cleaned) else cleaned)
      in (rewrite_address cleaned', startOffset))"

fun best_address :: "regex list \<Rightarrow> string \<Rightarrow> (nat \<times> nat) option \<Rightarrow> (nat \<times> nat) option" where
  "best_address [] window best = best"
| "best_address (p # ps) window best =
     (case find_first p window of
        None \<Rightarrow> best_address ps window best
      | Some m \<Rightarrow>
          (case best of
             None \<Rightarrow> best_address ps window (Some (m_start m, m_end m))
           | Some (bs, be) \<Rightarrow>
               if m_start m < bs then best_address ps window (Some (m_start m, m_end m))
               else best_address ps window best))"

definition findAddressInRange :: "string \<Rightarrow> nat \<Rightarrow> nat \<Rightarrow> (string \<times> nat \<times> nat) option" where
  "findAddressInRange text start end0 =
     (let end' = min end0 (length text)
      in if start \<ge> end' then None
         else
           (let window = substr start end' text
            in case best_address addressPatterns window None of
                 None \<Rightarrow> None
               | Some (bs, be) \<Rightarrow>
                   (let (address, startOffset) = cleanAddress (substr (start + bs) (start + be) text)
                    in if address = [] then None
                       else Some (address, start + bs + startOffset, start + be))))"

definition findAddressAfter :: "string \<Rightarrow> nat \<Rightarrow> (string \<times> nat \<times> nat) option" where
  "findAddressAfter text start = findAddressInRange text start (length text)"

definition findAddressBefore :: "string \<Rightarrow> nat \<Rightarrow> (string \<times> nat \<times> nat) option" where
  "findAddressBefore text end' = findAddressInRange text 0 end'"

section \<open>Channels and natures\<close>

definition separators :: string where
  "separators = '' '' @ [CHR 0x09, CHR 0x0D, CHR 0x0A] @ ''.,;:-''"

definition extractCDECChannel :: "string \<Rightarrow> string" where
  "extractCDECChannel text =
     (case find_first cdecPattern text of
        None \<Rightarrow> []
      | Some m \<Rightarrow> ''CDEC '' @ group_text 1 m text)"

fun skip_markers :: "nat \<Rightarrow> string \<Rightarrow> string" where
  "skip_markers 0 candidate = candidate"
| "skip_markers (Suc fuel) candidate =
     (case find_first cdecPattern candidate of
        None \<Rightarrow> candidate
      | Some m \<Rightarrow>
          if m_start m \<noteq> 0 then candidate
          else skip_markers fuel (Trim separators (drop (m_end m) candidate)))"

definition extractNature :: "string \<Rightarrow> string" where
  "extractNature pre =
     (let markers = find_all cdecPattern pre
      in if markers = [] then []
         else
           (let c0 = Trim separators (drop (m_end (last markers)) pre);
                c1 = skip_markers (length c0) c0;
                c2 = (case IndexAny c1 ''.;'' of None \<Rightarrow> c1 | Some i \<Rightarrow> take i c1);
                c3 = Trim separators c2;
                nature = matchKnownNature c3
            in if c3 = [] then [] else if nature \<noteq> [] then nature else ''Dispatch Call''))"

fun channel_end :: "nat \<Rightarrow> string \<Rightarrow> nat \<Rightarrow> nat" where
  "channel_end 0 text end0 = end0"
| "channel_end (Suc fuel) text end0 =
     (if end0 < length text
      then
        (let tail = drop end0 text;
             trimmed = TrimLeft separators tail;
             offset = length tail - length trimmed
         in case find_first cdecPattern trimmed of
              None \<Rightarrow> end0
            | Some m \<Rightarrow> if m_start m \<noteq> 0 then end0 else channel_end fuel text (end0 + offset + m_end m))
      else end0)"

definition channelSequenceEnd :: "string \<Rightarrow> nat \<Rightarrow> nat" where
  "channelSequenceEnd text start = channel_end (length text) text start"

definition nextCDECMarkerStart :: "string \<Rightarrow> nat \<Rightarrow> nat option" where
  "nextCDECMarkerStart text start =
     (if start \<ge> length text then None
      else map_option (\<lambda>m. start + m_start m) (find_first cdecPattern (drop start text)))"

definition lastCDECMarkerStart :: "string \<Rightarrow> nat option" where
  "lastCDECMarkerStart text =
     (let markers = find_all cdecPattern text
      in if markers = [] then None else Some (m_start (last markers)))"

section \<open>Segments\<close>

fun group_back :: "string \<Rightarrow> nat \<Rightarrow> unitMatch list \<Rightarrow> nat option" where
  "group_back text groupStart [] = Some groupStart"
| "group_back text groupStart (m # ms) =
     do {
       between \<leftarrow> go_slice (um_end m) groupStart text;
       (if ContainsAny between ''.;'' \<or> length (Fields between) > 4 then Some groupStart
        else group_back text (um_start m) ms)
     }"

definition dispatchSegmentStart :: "string \<Rightarrow> nat \<Rightarrow> nat option" where
  "dispatchSegmentStart text channelStart =
     do {
       front \<leftarrow> go_slice 0 channelStart text;
       (case rev (findUnitMatches front) of
          [] \<Rightarrow> Some channelStart
        | m # ms \<Rightarrow> group_back text (um_start m) ms)
     }"

definition extendSegmentToTrailingUnit :: "string \<Rightarrow> nat \<Rightarrow> nat option" where
  "extendSegmentToTrailingUnit text segmentEnd =
     (let limit = min (segmentEnd + 100) (length text);
          limit' = (case nextCDECMarkerStart text segmentEnd of
                      None \<Rightarrow> limit | Some n \<Rightarrow> if n < limit then n else limit)
      in do {
           tail \<leftarrow> go_slice segmentEnd limit' text;
           (case findUnitMatches tail of
              [] \<Rightarrow> Some segmentEnd
            | m # _ \<Rightarrow> Some (segmentEnd + um_end m))
         })"

definition segment_units :: "string \<Rightarrow> nat \<Rightarrow> nat \<Rightarrow> (string \<times> ExpectedUnit list) option" where
  "segment_units text segmentStart segmentEnd =
     do {
       segment \<leftarrow> go_slice segmentStart segmentEnd text;
       (if extractUnits segment \<noteq> [] then Some (segment, extractUnits segment)
        else
          do {
            extendedEnd \<leftarrow> extendSegmentToTrailingUnit text segmentEnd;
            (if extendedEnd > segmentEnd
             then do {
                    segment' \<leftarrow> go_slice segmentStart extendedEnd text;
                    Some (segment', extractUnits segment')
                  }
             else Some (segment, []))
          })
     }"

definition parseChannelFirstSegment :: "string \<Rightarrow> found \<Rightarrow> (error + ParsedDispatch) option" where
  "parseChannelFirstSegment text channelLoc =
     (let channelStart = m_start channelLoc;
          channelEnd = channelSequenceEnd text (m_end channelLoc)
      in case findAddressAfter text channelEnd of
           None \<Rightarrow> Some (Inl ''missing_address'')
         | Some (address, addressStart, addressEnd) \<Rightarrow>
             if (case nextCDECMarkerStart text channelEnd of None \<Rightarrow> False | Some n \<Rightarrow> n < addressStart)
             then Some (Inl ''missing_address'')
             else
               do {
                 segmentStart \<leftarrow> dispatchSegmentStart text channelStart;
                 (segment, units) \<leftarrow> segment_units text segmentStart addressEnd;
                 (if units = [] then Some (Inl ''missing_unit'')
                  else
                    do {
                      pre \<leftarrow> go_slice 0 (addressStart - segmentStart) segment;
                      channelText \<leftarrow> go_slice channelStart channelEnd text;
                      (if extractNature pre = [] then Some (Inl ''missing_nature'')
                       else Some (Inr \<lparr>pd_Nature = extractNature pre,
                                       pd_Channel = extractCDECChannel channelText,
                                       pd_Units = units, pd_LocationText = address\<rparr>))
                    })
               })"

definition parseAddressBeforeChannelSegment :: "string \<Rightarrow> found \<Rightarrow> (error + ParsedDispatch) option" where
  "parseAddressBeforeChannelSegment text channelLoc =
     (let channelStart = m_start channelLoc;
          channelEnd = channelSequenceEnd text (m_end channelLoc)
      in case findAddressBefore text channelStart of
           None \<Rightarrow> Some (Inl ''missing_address'')
         | Some (address, addressStart, addressEnd) \<Rightarrow>
             do {
               front \<leftarrow> go_slice 0 addressStart text;
               (if lastCDECMarkerStart front \<noteq> None then Some (Inl ''missing_address'')
                else
                  do {
                    back \<leftarrow> go_slice addressEnd channelEnd text;
                    channelText \<leftarrow> go_slice channelStart channelEnd text;
                    (let units = extractUnits back; nature = matchKnownNature front
                     in if units = [] then Some (Inl ''missing_unit'')
                        else if nature = [] then Some (Inl ''missing_nature'')
                        else Some (Inr \<lparr>pd_Nature = nature, pd_Channel = extractCDECChannel channelText,
                                        pd_Units = units, pd_LocationText = address\<rparr>))
                  })
             })"

definition ParseTranscript :: "string \<Rightarrow> float64 \<Rightarrow> (error + ParsedDispatch) option" where
  "ParseTranscript text0 confidence =
     (let text = TrimSpace text0
      in if fless confidence (Fin (80 / 100)) then Some (Inl ''low_confidence'')
         else
           (case find_first cdecPattern text of
              None \<Rightarrow> Some (Inl ''missing_cdec'')
            | Some channelLoc \<Rightarrow>
                do {
                  res \<leftarrow> parseChannelFirstSegment text channelLoc;
                  (case res of
                     Inr parsed \<Rightarrow> Some (Inr parsed)
                   | Inl reason \<Rightarrow>
                       if reason \<noteq> ''missing_address'' then Some (Inl reason)
                       else parseAddressBeforeChannelSegment text channelLoc)
                }))"

section \<open>Every index stays in range\<close>

lemma length_dropWhile_le: "length (dropWhile p s) \<le> length s"
  by (induction s) auto

lemma length_trim_by: "length (trim_by p s) \<le> length s"
  using length_dropWhile_le [of p "rev (dropWhile p s)"] length_dropWhile_le [of p s]
  by (simp add: trim_by_def)

lemma length_Trim: "length (Trim cs s) \<le> length s" "length (TrimSpace s) \<le> length s"
  by (simp_all add: Trim_def TrimSpace_def length_trim_by)

lemma length_substr: "a \<le> b \<Longrightarrow> b \<le> length s \<Longrightarrow> length (substr a b s) = b - a"
  by (simp add: substr_def)

lemma go_slice_some: "a \<le> b \<Longrightarrow> b \<le> length s \<Longrightarrow> go_slice a b s = Some (substr a b s)"
  by (simp add: go_slice_def)

lemma noise_phrase_offset_le:
  "best \<le> length lower \<Longrightarrow> noise_phrase_offset lower ps best \<le> length lower"
proof (induction lower ps best rule: noise_phrase_offset.induct)
  case (1 lower best)
  then show ?case by simp
next
  case (2 lower phrase x rest best)
  then show ?case
    using prefix_length_le [of "ToLower phrase @ '' ''" lower]
    by (auto simp: Let_def HasPrefix_def simp del: prefix_length_le)
qed

lemma noise_pattern_offset_le: "noise_pattern_offset ps s \<le> length s"
  by (induction ps) (auto split: option.split dest: find_first_bounds)

lemma leadingAddressNoiseOffset_le: "leadingAddressNoiseOffset s \<le> length s"
  using noise_phrase_offset_le [of 0 "ToLower s" naturePhrases] noise_pattern_offset_le
  by (simp add: leadingAddressNoiseOffset_def Let_def ToLower_def)

lemma cleanAddress_offset: "snd (cleanAddress raw) \<le> length raw"
proof -
  have "snd (cleanAddress raw) \<le> length (Trim ''.,'' (TrimSpace raw))"
    by (simp add: cleanAddress_def Let_def leadingAddressNoiseOffset_le)
  also have "\<dots> \<le> length raw"
    using length_Trim(1) [of "''.,''" "TrimSpace raw"] length_Trim(2) [of raw] by linarith
  finally show ?thesis .
qed

lemma best_address_bounds:
  "best_address ps w best = Some (a, b) \<Longrightarrow>
   (case best of None \<Rightarrow> True | Some (x, y) \<Rightarrow> x \<le> y \<and> y \<le> length w) \<Longrightarrow> a \<le> b \<and> b \<le> length w"
proof (induction ps arbitrary: best)
  case Nil
  then show ?case by simp
next
  case (Cons p ps)
  then show ?case
    using find_first_bounds [of p w]
    by (auto split: option.splits prod.splits if_splits)
qed

lemma findAddressInRange_bounds:
  assumes "findAddressInRange t start end0 = Some (address, s, e)"
  shows "address \<noteq> [] \<and> start \<le> s \<and> s \<le> e \<and> e \<le> end0 \<and> e \<le> length t"
proof -
  let ?hi = "min end0 (length t)" and ?w = "substr start (min end0 (length t)) t"
  have lt: "start < ?hi" using assms by (auto simp: findAddressInRange_def Let_def split: if_splits)
  then have nle: "\<not> ?hi \<le> start" by linarith
  obtain bs be where b: "best_address addressPatterns ?w None = Some (bs, be)"
  proof (cases "best_address addressPatterns ?w None")
    case None
    then show ?thesis using assms nle by (simp add: findAddressInRange_def Let_def split: if_splits)
  next
    case (Some p)
    then show ?thesis by (cases p) (rule that, simp)
  qed
  have w: "length ?w = ?hi - start" using lt by (intro length_substr) auto
  have bb: "bs \<le> be" "start + be \<le> ?hi"
    using best_address_bounds [OF b] w lt by auto
  obtain a off where c: "cleanAddress (substr (start + bs) (start + be) t) = (a, off)" by fastforce
  have "off \<le> length (substr (start + bs) (start + be) t)"
    using cleanAddress_offset [of "substr (start + bs) (start + be) t"] c by simp
  also have "\<dots> = be - bs" using bb by (subst length_substr) auto
  finally have "off \<le> be - bs" .
  moreover have "address \<noteq> []" "s = start + bs + off" "e = start + be"
    using assms lt b c by (auto simp: findAddressInRange_def Let_def split: if_splits)
  ultimately show ?thesis using bb by auto
qed

lemma length_TrimLeft: "length (TrimLeft cs s) \<le> length s"
  by (simp add: TrimLeft_def length_dropWhile_le)

lemma channel_end_bounds:
  "e \<le> length t \<Longrightarrow> e \<le> channel_end fuel t e \<and> channel_end fuel t e \<le> length t"
proof (induction fuel arbitrary: e)
  case 0
  then show ?case by simp
next
  case (Suc fuel)
  let ?r = "TrimLeft separators (drop e t)"
  show ?case
  proof (cases "find_first cdecPattern ?r")
    case None
    then show ?thesis using Suc.prems by (simp add: Let_def)
  next
    case (Some m)
    let ?n = "e + (length (drop e t) - length ?r) + m_end m"
    have "?n \<le> length t"
      using find_first_bounds [OF Some] length_TrimLeft [of separators "drop e t"] Suc.prems
        length_drop [of e t] by linarith
    then show ?thesis using Suc.IH [of ?n] Suc.prems Some by (auto simp: Let_def)
  qed
qed

lemma channelSequenceEnd_bounds:
  "e \<le> length t \<Longrightarrow> e \<le> channelSequenceEnd t e \<and> channelSequenceEnd t e \<le> length t"
  by (simp add: channelSequenceEnd_def channel_end_bounds)

lemma nextCDECMarkerStart_ge: "nextCDECMarkerStart t start = Some n \<Longrightarrow> start \<le> n"
  by (auto simp: nextCDECMarkerStart_def split: if_splits)

subsection \<open>Unit matches\<close>

lemma dedupe_subset: "set (dedupe seen key xs) \<subseteq> set xs"
proof (induction xs arbitrary: seen)
  case (Cons x xs)
  then show ?case using Cons.IH [of seen] Cons.IH [of "ToLower (key x) # seen"] by (auto simp: Let_def)
qed simp

lemma dedupe_distinct:
  "distinct (map (\<lambda>x. ToLower (key x)) (dedupe seen key xs)) \<and>
   (\<forall>x \<in> set (dedupe seen key xs). ToLower (key x) \<notin> set seen)"
proof (induction xs arbitrary: seen)
  case (Cons x xs)
  then show ?case using Cons.IH [of seen] Cons.IH [of "ToLower (key x) # seen"] by (auto simp: Let_def)
qed simp

lemma set_insert_match: "set (insert_match m ns) = insert m (set ns)"
  by (induction ns) auto

lemma set_sort_matches: "set (sort_matches ms) = set ms"
  by (induction ms) (simp_all add: sort_matches_def set_insert_match)

definition proper_unit :: "ExpectedUnit \<Rightarrow> bool" where
  "proper_unit u \<longleftrightarrow>
     (let rest = drop (length (eu_UnitType u)) (eu_UnitName u)
      in prefix (eu_UnitType u @ '' '') (eu_UnitName u) \<and> tl rest \<noteq> [] \<and> list_all is_digit (tl rest))"

lemma proper_unitI:
  "digits \<noteq> [] \<Longrightarrow> list_all is_digit digits \<Longrightarrow>
   proper_unit \<lparr>eu_UnitName = t @ '' '' @ digits, eu_UnitType = t\<rparr>"
  by (simp add: proper_unit_def)

lemma compactDigits_digits: "list_all is_digit (compactDigits s)"
  by (simp add: compactDigits_def list_all_iff)

lemma findUnitMatches_proper:
  "m \<in> set (findUnitMatches t) \<Longrightarrow>
   um_start m \<le> um_end m \<and> um_end m \<le> length t \<and> proper_unit (um_unit m)"
proof -
  assume "m \<in> set (findUnitMatches t)"
  then have "m \<in> set (concat (map (typed_match t) (find_all unitPattern t)) @
        concat (map (amr_match t) (find_all hyphenatedAMRPattern t)))"
    using dedupe_subset by (fastforce simp: findUnitMatches_def dedupeUnitMatches_def set_sort_matches)
  then consider f where "f \<in> set (find_all unitPattern t)" "m \<in> set (typed_match t f)"
    | f where "f \<in> set (find_all hyphenatedAMRPattern t)" "m \<in> set (amr_match t f)"
    by auto
  then show ?thesis
  proof cases
    case 1
    then show ?thesis
      using find_all_bounds [OF 1(1)] proper_unitI [OF _ compactDigits_digits]
      by (auto simp: typed_match_def Let_def split: if_splits)
  next
    case 2
    then show ?thesis
      using find_all_bounds [OF 2(1)] proper_unitI [OF _ compactDigits_digits, of _ "''AMR''"]
      by (auto simp: amr_match_def Let_def split: if_splits)
  qed
qed

definition proper_units :: "ExpectedUnit list \<Rightarrow> bool" where
  "proper_units us \<longleftrightarrow> list_all proper_unit us \<and> distinct (map (\<lambda>u. ToLower (eu_UnitName u)) us)"

lemma extractUnits_proper: "proper_units (extractUnits t)"
  using dedupe_subset [of "[]" eu_UnitName "map um_unit (findUnitMatches t)"]
    dedupe_distinct [of eu_UnitName "[]" "map um_unit (findUnitMatches t)"] findUnitMatches_proper
  by (fastforce simp: proper_units_def extractUnits_def list_all_iff)

subsection \<open>Segments\<close>

definition disjoint_matches :: "unitMatch list \<Rightarrow> bool" where
  "disjoint_matches ms \<longleftrightarrow> sorted_wrt (\<lambda>m n. um_end m \<le> um_start n) ms"

lemma group_back_some:
  assumes "sorted_wrt (\<lambda>n m. um_end m \<le> um_start n) ms" "list_all (\<lambda>m. um_start m \<le> um_end m \<and> um_end m \<le> g) ms"
    "g \<le> length t"
  shows "\<exists>s. group_back t g ms = Some s \<and> s \<le> g"
  using assms
proof (induction ms arbitrary: g)
  case Nil
  then show ?case by simp
next
  case (Cons m ms)
  have "\<exists>s. group_back t (um_start m) ms = Some s \<and> s \<le> um_start m"
    using Cons.prems by (intro Cons.IH) (auto simp: list_all_iff)
  then show ?case using Cons.prems by (fastforce simp: go_slice_some)
qed

lemma dispatchSegmentStart_some:
  assumes "c \<le> length t" "disjoint_matches (findUnitMatches (take c t))"
  obtains s where "dispatchSegmentStart t c = Some s" "s \<le> c"
proof (cases "rev (findUnitMatches (take c t))")
  case Nil
  then have "dispatchSegmentStart t c = Some c"
    using assms(1) by (simp add: dispatchSegmentStart_def go_slice_some substr_def)
  then show ?thesis by (rule that) simp
next
  case (Cons m ms)
  then have fm: "findUnitMatches (take c t) = rev ms @ [m]"
    by (metis rev.simps(2) rev_rev_ident)
  have m: "um_start m \<le> c"
    using findUnitMatches_proper [of m "take c t"] fm assms(1) by auto
  have "\<exists>s. group_back t (um_start m) ms = Some s \<and> s \<le> um_start m"
  proof (rule group_back_some)
    show "sorted_wrt (\<lambda>n m. um_end m \<le> um_start n) ms"
      using assms(2) by (simp add: fm disjoint_matches_def sorted_wrt_append sorted_wrt_rev)
    show "list_all (\<lambda>k. um_start k \<le> um_end k \<and> um_end k \<le> um_start m) ms"
      using assms(2) findUnitMatches_proper [of _ "take c t"]
      by (auto simp: fm disjoint_matches_def sorted_wrt_append list_all_iff)
  qed (use m assms(1) in simp)
  then show ?thesis
    using assms(1) Cons m by (auto simp: dispatchSegmentStart_def go_slice_some substr_def intro: that)
qed

lemma extendSegmentToTrailingUnit_some:
  assumes "e \<le> length t"
  obtains x where "extendSegmentToTrailingUnit t e = Some x" "e \<le> x" "x \<le> length t"
proof -
  let ?l = "min (e + 100) (length t)"
  let ?l' = "case nextCDECMarkerStart t e of None \<Rightarrow> ?l | Some n \<Rightarrow> if n < ?l then n else ?l"
  have l: "e \<le> ?l'" "?l' \<le> length t"
    using assms nextCDECMarkerStart_ge [of t e] by (auto split: option.split)
  then have s: "go_slice e ?l' t = Some (substr e ?l' t)" by (rule go_slice_some)
  show ?thesis
  proof (cases "findUnitMatches (substr e ?l' t)")
    case Nil
    then show ?thesis using s assms by (intro that [of e]) (simp_all add: extendSegmentToTrailingUnit_def Let_def)
  next
    case (Cons m ms)
    then have "um_end m \<le> length (substr e ?l' t)"
      using findUnitMatches_proper [of m "substr e ?l' t"] by simp
    then have "um_end m \<le> ?l' - e" using length_substr [OF l] by simp
    then have "e + um_end m \<le> length t" using l by linarith
    then show ?thesis
      using s Cons by (intro that [of "e + um_end m"]) (simp_all add: extendSegmentToTrailingUnit_def Let_def)
  qed
qed

lemma segment_units_some:
  assumes "s \<le> e" "e \<le> length t"
  obtains seg us where "segment_units t s e = Some (seg, us)" "e - s \<le> length seg" "proper_units us"
proof -
  have s: "go_slice s e t = Some (substr s e t)" using assms by (rule go_slice_some)
  obtain x where x: "extendSegmentToTrailingUnit t e = Some x" "e \<le> x" "x \<le> length t"
    using assms(2) by (rule extendSegmentToTrailingUnit_some)
  have sx: "go_slice s x t = Some (substr s x t)" using assms x by (intro go_slice_some) auto
  have len: "length (substr s e t) = e - s" "length (substr s x t) = x - s"
    using assms x by (simp_all add: length_substr)
  have nil: "proper_units []" by (simp add: proper_units_def)
  show ?thesis
  proof (cases "extractUnits (substr s e t) = []")
    case False
    then show ?thesis
      using s len extractUnits_proper by (intro that [of "substr s e t" "extractUnits (substr s e t)"]) (simp_all add: segment_units_def)
  next
    case True
    then show ?thesis
      using s x sx len nil extractUnits_proper [of "substr s x t"]
      by (cases "e < x") (auto simp: segment_units_def intro!: that)
  qed
qed

lemma best_nature_canonical:
  "best_nature cand ps best = Some (b, i, l) \<Longrightarrow> b \<in> fst ` set_option best \<union> snd ` set ps"
proof (induction ps arbitrary: best)
  case Nil
  then show ?case by force
next
  case (Cons p ps)
  obtain phrase canonical where p: "p = (phrase, canonical)" by (cases p)
  have "b \<in> fst ` set_option best' \<union> snd ` set ps" if "best_nature cand ps best' = Some (b, i, l)" for best'
    using Cons.IH that by blast
  moreover have "\<exists>best'. best_nature cand ps best' = Some (b, i, l) \<and>
      fst ` set_option best' \<subseteq> insert canonical (fst ` set_option best)"
    using Cons.prems unfolding p best_nature.simps by (fastforce split: option.splits prod.splits if_splits)
  ultimately show ?case unfolding p by fastforce
qed

lemma naturePhrases_canonical: "snd ` set naturePhrases \<subseteq> set (map fst knownDispatchNatures)"
  by (force simp: naturePhrases_def)

lemma matchKnownNature_canonical:
  assumes "matchKnownNature s \<noteq> []"
  shows "matchKnownNature s \<in> set (map fst knownDispatchNatures)"
proof -
  let ?c = "'' '' @ normalizeNatureForMatch s @ '' ''"
  obtain b i l where "best_nature ?c naturePhrases None = Some (b, i, l)" "matchKnownNature s = b"
    using assms by (auto simp: matchKnownNature_def Let_def simp del: append_Cons split: if_splits option.splits)
  then show ?thesis using best_nature_canonical [of ?c naturePhrases None b i l] naturePhrases_canonical by auto
qed

definition dispatch_nature :: "string \<Rightarrow> bool" where
  "dispatch_nature n \<longleftrightarrow> n \<in> set (''Dispatch Call'' # map fst knownDispatchNatures)"

lemma matchKnownNature_nature: "matchKnownNature s \<noteq> [] \<Longrightarrow> dispatch_nature (matchKnownNature s)"
  using matchKnownNature_canonical [of s] by (simp only: dispatch_nature_def) simp

lemma extractNature_nature: "extractNature s \<noteq> [] \<Longrightarrow> dispatch_nature (extractNature s)"
  using matchKnownNature_nature
  by (auto simp: extractNature_def Let_def dispatch_nature_def [of "''Dispatch Call''"] split: if_splits)

definition reject_reasons :: "error list" where
  "reject_reasons = [''low_confidence'', ''missing_cdec'', ''missing_address'', ''missing_unit'', ''missing_nature'']"

definition proper_dispatch :: "ParsedDispatch \<Rightarrow> bool" where
  "proper_dispatch p \<longleftrightarrow>
     dispatch_nature (pd_Nature p) \<and> pd_Units p \<noteq> [] \<and> proper_units (pd_Units p) \<and> pd_LocationText p \<noteq> []"

definition proper_outcome :: "error + ParsedDispatch \<Rightarrow> bool" where
  "proper_outcome r = (case r of Inl reason \<Rightarrow> reason \<in> set reject_reasons | Inr p \<Rightarrow> proper_dispatch p)"

lemma proper_outcome_simps [simp]:
  "proper_outcome (Inl ''low_confidence'')" "proper_outcome (Inl ''missing_cdec'')"
  "proper_outcome (Inl ''missing_address'')" "proper_outcome (Inl ''missing_unit'')"
  "proper_outcome (Inl ''missing_nature'')" "proper_outcome (Inr p) = proper_dispatch p"
  by (simp_all add: proper_outcome_def reject_reasons_def)

lemma group_back_le:
  "group_back t g ms = Some s \<Longrightarrow> list_all (\<lambda>m. um_start m \<le> um_end m) ms \<Longrightarrow> s \<le> g"
proof (induction ms arbitrary: g)
  case Nil
  then show ?case by simp
next
  case (Cons m ms)
  show ?case
  proof (cases "um_end m \<le> g \<and> g \<le> length t")
    case False
    then show ?thesis using Cons.prems by (auto simp: go_slice_def)
  next
    case True
    then show ?thesis
      using Cons.prems Cons.IH [of "um_start m"] by (auto simp: go_slice_some split: if_splits)
  qed
qed

lemma dispatchSegmentStart_le:
  assumes "dispatchSegmentStart t c = Some s" "c \<le> length t"
  shows "s \<le> c"
proof (cases "rev (findUnitMatches (take c t))")
  case Nil
  then show ?thesis using assms by (simp add: dispatchSegmentStart_def go_slice_some substr_def)
next
  case (Cons m ms)
  then have fm: "findUnitMatches (take c t) = rev ms @ [m]"
    by (metis rev.simps(2) rev_rev_ident)
  have "list_all (\<lambda>m. um_start m \<le> um_end m) ms" "um_start m \<le> c"
    using findUnitMatches_proper [of _ "take c t"] fm assms(2) by (fastforce simp: list_all_iff)+
  then show ?thesis
    using assms Cons group_back_le [of t "um_start m" ms s]
    by (simp add: dispatchSegmentStart_def go_slice_some substr_def)
qed

lemma parseChannelFirstSegment_outcome:
  assumes loc: "m_start m \<le> m_end m" "m_end m \<le> length t"
  shows "case parseChannelFirstSegment t m of
      None \<Rightarrow> \<not> disjoint_matches (findUnitMatches (take (m_start m) t)) | Some r \<Rightarrow> proper_outcome r"
proof (cases "findAddressAfter t (channelSequenceEnd t (m_end m))")
  case None
  then show ?thesis by (simp add: parseChannelFirstSegment_def Let_def)
next
  case (Some x)
  let ?ce = "channelSequenceEnd t (m_end m)"
  obtain address as ae where x: "x = (address, as, ae)" by (cases x)
  have ad: "address \<noteq> []" "?ce \<le> as" "as \<le> ae" "ae \<le> length t"
    using findAddressInRange_bounds [of t ?ce "length t" address as ae] Some x
    by (auto simp: findAddressAfter_def)
  have ce: "m_end m \<le> ?ce" "?ce \<le> length t" using channelSequenceEnd_bounds [OF loc(2)] by simp_all
  have c: "m_start m \<le> length t" using loc by simp
  show ?thesis
  proof (cases "dispatchSegmentStart t (m_start m)")
    case None
    then have "\<not> disjoint_matches (findUnitMatches (take (m_start m) t))"
      using dispatchSegmentStart_some [OF c] by fastforce
    then show ?thesis using \<open>findAddressAfter t ?ce = Some x\<close> x None
      by (simp add: parseChannelFirstSegment_def Let_def)
  next
    case ss: (Some ss)
    note le = dispatchSegmentStart_le [OF ss c]
    obtain seg us where seg: "segment_units t ss ae = Some (seg, us)" "ae - ss \<le> length seg" "proper_units us"
      using segment_units_some [of ss ae t] le ce ad loc by (metis order_trans)
    have pre: "go_slice 0 (as - ss) seg = Some (substr 0 (as - ss) seg)"
      using seg ad by (intro go_slice_some) auto
    have ch: "go_slice (m_start m) ?ce t = Some (substr (m_start m) ?ce t)"
      using loc ce by (intro go_slice_some) auto
    show ?thesis
      using Some x ss seg pre ch ad extractNature_nature
      by (simp add: parseChannelFirstSegment_def Let_def proper_dispatch_def)
  qed
qed

lemma parseAddressBeforeChannelSegment_outcome:
  assumes loc: "m_start m \<le> m_end m" "m_end m \<le> length t"
  shows "\<exists>r. parseAddressBeforeChannelSegment t m = Some r \<and> proper_outcome r"
proof (cases "findAddressBefore t (m_start m)")
  case None
  then show ?thesis by (simp add: parseAddressBeforeChannelSegment_def Let_def)
next
  case (Some x)
  let ?ce = "channelSequenceEnd t (m_end m)"
  obtain address as ae where x: "x = (address, as, ae)" by (cases x)
  have ad: "address \<noteq> []" "as \<le> ae" "ae \<le> m_start m"
    using findAddressInRange_bounds [of t 0 "m_start m" address as ae] Some x
    by (auto simp: findAddressBefore_def)
  have ce: "m_end m \<le> ?ce" "?ce \<le> length t" using channelSequenceEnd_bounds [OF loc(2)] by simp_all
  have sl: "go_slice 0 as t = Some (substr 0 as t)" "go_slice ae ?ce t = Some (substr ae ?ce t)"
    "go_slice (m_start m) ?ce t = Some (substr (m_start m) ?ce t)"
    using ad loc ce by (auto intro!: go_slice_some)
  show ?thesis
    using Some x sl ad extractUnits_proper matchKnownNature_nature
    by (simp add: parseAddressBeforeChannelSegment_def Let_def proper_dispatch_def)
qed

text \<open>
  C10. \<^verbatim>\<open>ParseTranscript\<close> always has one of three outcomes. It rejects with one of its five reasons; or
  the confidence is not below 0.80 and the dispatch has a canonical nature (or the generic one), a
  non-empty location and a non-empty list of units, each named by its type, a blank and a number,
  no two alike up to case; or it panics, and then two unit matches before the channel overlap.
\<close>

theorem ParseTranscript_outcome:
  "case ParseTranscript t c of
     None \<Rightarrow> (\<exists>m. find_first cdecPattern (TrimSpace t) = Some m \<and>
                \<not> disjoint_matches (findUnitMatches (take (m_start m) (TrimSpace t))))
   | Some (Inl reason) \<Rightarrow> reason \<in> set reject_reasons
   | Some (Inr p) \<Rightarrow> \<not> fless c (Fin (80 / 100)) \<and> proper_dispatch p"
proof -
  let ?t = "TrimSpace t"
  consider "fless c (Fin (80 / 100))" | "\<not> fless c (Fin (80 / 100))" "find_first cdecPattern ?t = None"
    | m where "\<not> fless c (Fin (80 / 100))" "find_first cdecPattern ?t = Some m"
    by fastforce
  then show ?thesis
  proof cases
    case 1
    then show ?thesis by (simp add: ParseTranscript_def Let_def reject_reasons_def)
  next
    case 2
    then show ?thesis by (simp add: ParseTranscript_def Let_def reject_reasons_def)
  next
    case (3 m)
    note loc = find_first_bounds [OF 3(2)]
    have "case ParseTranscript t c of
        None \<Rightarrow> \<not> disjoint_matches (findUnitMatches (take (m_start m) ?t)) | Some r \<Rightarrow> proper_outcome r"
      using 3 parseChannelFirstSegment_outcome [of m ?t] parseAddressBeforeChannelSegment_outcome [of m ?t] loc
      by (auto simp: ParseTranscript_def Let_def split: option.splits sum.splits)
    then show ?thesis using 3 by (auto simp: proper_outcome_def split: option.splits sum.splits)
  qed
qed

lemma amr_overlap_panics: "ParseTranscript ''AMR 2-14 CDEC 5 fall 1 n a st'' (Fin 1) = None"
  by code_simp

text \<open>
  A hyphenated AMR number before the channel makes \<^verbatim>\<open>ParseTranscript\<close> panic: the plain unit
  pattern matches "AMR 2", the hyphenated one "AMR 2-14", both matches start at the same place, and
  \<^verbatim>\<open>dispatchSegmentStart\<close> slices from the end of the one to the start of the other.
\<close>

theorem ParseTranscript_amr_panics:
  "ParseTranscript ''AMR 2-14 CDEC 5 fall 1 n a st'' (Fin 1) = None"
  by (rule amr_overlap_panics)

text \<open>The same transcript without the hyphen parses.\<close>

lemma ParseTranscript_amr_plain:
  "ParseTranscript ''AMR 214 CDEC 5 fall 1 n a st'' (Fin 1) =
     Some (Inr \<lparr>pd_Nature = ''Fall'', pd_Channel = ''CDEC 5'',
                pd_Units = [\<lparr>eu_UnitName = ''AMR 214'', eu_UnitType = ''AMR''\<rparr>],
                pd_LocationText = ''1 n a st''\<rparr>)"
  by code_simp

end
