(* ===== verification/Geocode.thy ===== *)
theory Geocode
  imports Database
begin

text \<open>
  Address geocoding (\<^verbatim>\<open>internal/geocode\<close>): the error values and \<^verbatim>\<open>IsPermanentFailure\<close>, the Mapbox
  client up to the HTTP exchange, the Postgres cache, and the cached geocoder that combines a cache
  with a provider.

  The HTTP exchange, the outgoing rate limiter and the URL parser's verdict are arguments; a JSON
  body arrives decoded. The \<^verbatim>\<open>Cache\<close> interface is a record of two operations, and a locale states
  what the cached geocoder relies on. Timestamps are stored at full resolution.
\<close>

section \<open>Errors\<close>

text \<open>
  \<^verbatim>\<open>Joined\<close> is \<^verbatim>\<open>fmt.Errorf\<close> with two wrapped errors; every other wrapped error is opaque to
  the callers and is its message.
\<close>

datatype geo_error =
    ErrNoResult
  | StatusError int
  | Joined geo_error geo_error
  | GeoErr error

fun geo_Error :: "geo_error \<Rightarrow> string" where
  "geo_Error ErrNoResult = ''geocode no result''"
| "geo_Error (StatusError code) = ''mapbox status '' @ Itoa code"
| "geo_Error (Joined a b) = geo_Error a @ '': '' @ geo_Error b"
| "geo_Error (GeoErr m) = m"

fun errors_Is_NoResult :: "geo_error \<Rightarrow> bool" where
  "errors_Is_NoResult ErrNoResult = True"
| "errors_Is_NoResult (Joined a b) = (errors_Is_NoResult a \<or> errors_Is_NoResult b)"
| "errors_Is_NoResult _ = False"

fun errors_As_StatusError :: "geo_error \<Rightarrow> int option" where
  "errors_As_StatusError (StatusError code) = Some code"
| "errors_As_StatusError (Joined a b) =
     (case errors_As_StatusError a of Some code \<Rightarrow> Some code | None \<Rightarrow> errors_As_StatusError b)"
| "errors_As_StatusError _ = None"

definition IsPermanentFailure :: "geo_error option \<Rightarrow> bool" where
  "IsPermanentFailure err =
     (case err of
        None \<Rightarrow> False
      | Some e \<Rightarrow> if errors_Is_NoResult e then True else errors_As_StatusError e = Some 400)"

record GeoResult =
  geo_Lon :: rat
  geo_Lat :: rat

definition no_geo :: GeoResult where "no_geo = \<lparr>geo_Lon = 0, geo_Lat = 0\<rparr>"

section \<open>The Mapbox client\<close>

record geo_request =
  rq_url :: string
  rq_query :: "(string \<times> string) list"
  rq_accept :: string

text \<open>An answer is its status and its decoded body: the centers of the features.\<close>

type_synonym http_client = "geo_request \<Rightarrow> error + int \<times> (error + rat list list)"
type_synonym waiter = "error option"

record MapboxClient =
  mb_token :: string
  mb_baseURL :: string
  mb_httpClient :: http_client
  mb_limiter :: "waiter option"

datatype MapboxOption =
    WithBaseURL string
  | WithHTTPClient "http_client option"
  | WithLimiter "waiter option"

fun apply_option :: "MapboxOption \<Rightarrow> MapboxClient \<Rightarrow> MapboxClient" where
  "apply_option (WithBaseURL u) c = c\<lparr>mb_baseURL := rev (dropWhile (\<lambda>x. x = CHR ''/'') (rev u))\<rparr>"
| "apply_option (WithHTTPClient h) c = (case h of None \<Rightarrow> c | Some k \<Rightarrow> c\<lparr>mb_httpClient := k\<rparr>)"
| "apply_option (WithLimiter l) c = (case l of None \<Rightarrow> c | Some k \<Rightarrow> c\<lparr>mb_limiter := Some k\<rparr>)"

definition defaultMapboxBaseURL :: string where "defaultMapboxBaseURL = ''https://api.mapbox.com''"
definition phoenixSuffix :: string where "phoenixSuffix = '', Phoenix, AZ''"
definition failedCacheTTL :: duration where "failedCacheTTL = 24 * hour"

text \<open>
  \<^verbatim>\<open>internal/ratelimit/token_bucket.go\<close>: \<^verbatim>\<open>limiter\<close> is the rate library, which makes a bucket of an interval and
  a burst and waits for a token; \<^verbatim>\<open>http\<close> stands for the client with its timeout.
\<close>

definition NewTokenBucket :: "(duration \<Rightarrow> int \<Rightarrow> waiter) \<Rightarrow> duration \<Rightarrow> int \<Rightarrow> waiter" where
  "NewTokenBucket limiter every burst =
     limiter (if every \<le> 0 then second else every) (if burst \<le> 0 then 1 else burst)"

definition NewMapboxClient ::
  "http_client \<Rightarrow> (duration \<Rightarrow> int \<Rightarrow> waiter) \<Rightarrow> string \<Rightarrow> MapboxOption list \<Rightarrow> error + MapboxClient" where
  "NewMapboxClient http limiter token0 opts =
     (let token = TrimSpace token0
      in if token = [] then Inl ''MAPBOX_TOKEN is required for dispatch parser geocoding''
         else Inr (fold apply_option opts
                     \<lparr>mb_token = token, mb_baseURL = defaultMapboxBaseURL, mb_httpClient = http,
                      mb_limiter = Some (NewTokenBucket limiter (second div 5) 5)\<rparr>))"

text \<open>\<^verbatim>\<open>url.PathEscape\<close>: the bytes of the UTF-8 encoding, escaped unless allowed in a segment.\<close>

definition hex_digit :: "nat \<Rightarrow> char" where
  "hex_digit n = char_of (if n < 10 then 48 + n else 55 + n)"

definition percent :: "nat \<Rightarrow> string" where
  "percent b = [CHR ''%'', hex_digit (b div 16), hex_digit (b mod 16)]"

definition segment_char :: "char \<Rightarrow> bool" where
  "segment_char c \<longleftrightarrow> is_lower c \<or> is_upper c \<or> is_digit c \<or> c \<in> set ''-_.~$&+=:@''"

definition escape_char :: "char \<Rightarrow> string" where
  "escape_char c =
     (if segment_char c then [c]
      else if code_of c < 128 then percent (code_of c)
      else percent (192 + code_of c div 64) @ percent (128 + code_of c mod 64))"

definition PathEscape :: "string \<Rightarrow> string" where
  "PathEscape s = concat (map escape_char s)"

definition geocode_query :: "string \<Rightarrow> string" where
  "geocode_query address =
     (if Contains (ToLower address) ''phoenix'' then address else address @ phoenixSuffix)"

definition geocode_request :: "MapboxClient \<Rightarrow> string \<Rightarrow> geo_request" where
  "geocode_request c address =
     \<lparr>rq_url = mb_baseURL c @ ''/geocoding/v5/mapbox.places/'' @ PathEscape (geocode_query address) @ ''.json'',
      rq_query = [(''access_token'', mb_token c), (''bbox'', ''-112.5,33.0,-111.5,33.9''),
                  (''country'', ''us''), (''limit'', ''1''), (''proximity'', ''-112.0740,33.4484''),
                  (''types'', ''address,place'')],
      rq_accept = ''application/json''\<rparr>"

definition MapboxGeocode :: "(string \<Rightarrow> error option) \<Rightarrow> MapboxClient \<Rightarrow> string \<Rightarrow> geo_error + GeoResult" where
  "MapboxGeocode bad_url c address0 =
     (let address = TrimSpace address0
      in if address = [] then Inl ErrNoResult
         else
           (case (case mb_limiter c of None \<Rightarrow> None | Some w \<Rightarrow> w) of
              Some e \<Rightarrow> Inl (GeoErr e)
            | None \<Rightarrow>
                (let req = geocode_request c address
                 in case bad_url (rq_url req) of
                      Some e \<Rightarrow> Inl (GeoErr (''mapbox url: '' @ e))
                    | None \<Rightarrow>
                        (case mb_httpClient c req of
                           Inl e \<Rightarrow> Inl (GeoErr (''mapbox http: '' @ e))
                         | Inr (status, body) \<Rightarrow>
                             if status < 200 \<or> status \<ge> 300
                             then (if status = 400 then Inl (Joined ErrNoResult (StatusError status))
                                   else Inl (StatusError status))
                             else
                               (case body of
                                  Inl e \<Rightarrow> Inl (GeoErr (''mapbox decode: '' @ e))
                                | Inr ((lon # lat # _) # _) \<Rightarrow> Inr \<lparr>geo_Lon = lon, geo_Lat = lat\<rparr>
                                | Inr _ \<Rightarrow> Inl ErrNoResult)))))"

section \<open>The cache\<close>

record CacheEntry =
  ce_Result :: GeoResult
  ce_Success :: bool
  ce_GeocodedAt :: time

record 's Cache =
  ca_Lookup :: "string \<Rightarrow> time \<Rightarrow> 's \<Rightarrow> (error + CacheEntry option) \<times> 's"
  ca_Store :: "string \<Rightarrow> GeoResult \<Rightarrow> bool \<Rightarrow> time \<Rightarrow> 's \<Rightarrow> error option \<times> 's"

definition entry_of :: "geocode_entry \<Rightarrow> CacheEntry" where
  "entry_of g =
     \<lparr>ce_Result = \<lparr>geo_Lon = (case gc_lon g of None \<Rightarrow> 0 | Some x \<Rightarrow> x),
                   geo_Lat = (case gc_lat g of None \<Rightarrow> 0 | Some x \<Rightarrow> x)\<rparr>,
      ce_Success = gc_success g, ce_GeocodedAt = gc_geocoded_at g\<rparr>"

definition find_geocode :: "string \<Rightarrow> database \<Rightarrow> geocode_entry option" where
  "find_geocode address d = List.find (\<lambda>g. gc_address g = address) (geocode_cache d)"

definition PostgresLookup ::
  "faults \<Rightarrow> string \<Rightarrow> time \<Rightarrow> database \<Rightarrow> (error + CacheEntry option) \<times> database" where
  "PostgresLookup fault address now d =
     (case fault (GeocodeLookupStmt address) d of
        Some e \<Rightarrow> (Inl e, d)
      | None \<Rightarrow>
          (Inr (map_option entry_of (find_geocode address d)),
           d\<lparr>geocode_cache := update_where (\<lambda>g. gc_address g = address)
                (\<lambda>g. g\<lparr>gc_hits := gc_hits g + 1\<rparr>) (geocode_cache d)\<rparr>))"

definition stored_row :: "string \<Rightarrow> GeoResult \<Rightarrow> bool \<Rightarrow> time \<Rightarrow> geocode_entry" where
  "stored_row address result success now =
     \<lparr>gc_address = address,
      gc_lon = (if success then Some (geo_Lon result) else None),
      gc_lat = (if success then Some (geo_Lat result) else None),
      gc_geocoded_at = now, gc_success = success, gc_hits = 0\<rparr>"

definition PostgresStore ::
  "faults \<Rightarrow> string \<Rightarrow> GeoResult \<Rightarrow> bool \<Rightarrow> time \<Rightarrow> database \<Rightarrow> error option \<times> database" where
  "PostgresStore fault address result success now d =
     (case fault (GeocodeStoreStmt address) d of
        Some e \<Rightarrow> (Some e, d)
      | None \<Rightarrow>
          (None,
           (case find_geocode address d of
              None \<Rightarrow> d\<lparr>geocode_cache := geocode_cache d @ [stored_row address result success now]\<rparr>
            | Some _ \<Rightarrow>
                d\<lparr>geocode_cache := update_where (\<lambda>g. gc_address g = address)
                     (\<lambda>g. (stored_row address result success now)\<lparr>gc_hits := gc_hits g\<rparr>)
                     (geocode_cache d)\<rparr>)))"

definition NewPostgresCache :: "faults \<Rightarrow> database Cache" where
  "NewPostgresCache fault = \<lparr>ca_Lookup = PostgresLookup fault, ca_Store = PostgresStore fault\<rparr>"

section \<open>The cached geocoder\<close>

definition ask_provider ::
  "'s Cache option \<Rightarrow> (string \<Rightarrow> geo_error + GeoResult) \<Rightarrow> time \<Rightarrow> string \<Rightarrow> 's \<Rightarrow> (geo_error + GeoResult) \<times> 's" where
  "ask_provider cache provider now address s =
     (case provider address of
        Inl err \<Rightarrow>
          (Inl err,
           (case cache of
              None \<Rightarrow> s
            | Some c \<Rightarrow>
                if IsPermanentFailure (Some err) then snd (ca_Store c address no_geo False now s) else s))
      | Inr result \<Rightarrow>
          (case cache of
             None \<Rightarrow> (Inr result, s)
           | Some c \<Rightarrow>
               (case ca_Store c address result True now s of
                  (Some e, s1) \<Rightarrow> (Inl (GeoErr e), s1)
                | (None, s1) \<Rightarrow> (Inr result, s1))))"

definition CachedGeocode ::
  "'s Cache option \<Rightarrow> (string \<Rightarrow> geo_error + GeoResult) \<Rightarrow> time \<Rightarrow> string \<Rightarrow> 's \<Rightarrow> (geo_error + GeoResult) \<times> 's" where
  "CachedGeocode cache provider now address s =
     (case cache of
        None \<Rightarrow> ask_provider cache provider now address s
      | Some c \<Rightarrow>
          (case ca_Lookup c address now s of
             (Inl e, s1) \<Rightarrow> (Inl (GeoErr e), s1)
           | (Inr None, s1) \<Rightarrow> ask_provider cache provider now address s1
           | (Inr (Some entry), s1) \<Rightarrow>
               if ce_Success entry then (Inr (ce_Result entry), s1)
               else if Sub now (ce_GeocodedAt entry) < failedCacheTTL then (Inl ErrNoResult, s1)
               else ask_provider cache provider now address s1))"

section \<open>The specification of geocoding\<close>

text \<open>
  A successful entry answers for good; a failed one answers for 24 hours; otherwise the provider is
  asked, and its answer or its permanent failure is kept.
\<close>

definition asked_spec ::
  "(string \<Rightarrow> geo_error + GeoResult) \<Rightarrow> time \<Rightarrow> string \<Rightarrow> (string \<Rightarrow> CacheEntry option) \<Rightarrow>
   (geo_error + GeoResult) \<times> (string \<Rightarrow> CacheEntry option)" where
  "asked_spec provider now a m =
     (case provider a of
        Inl err \<Rightarrow>
          (Inl err, if IsPermanentFailure (Some err)
                    then m(a \<mapsto> \<lparr>ce_Result = no_geo, ce_Success = False, ce_GeocodedAt = now\<rparr>) else m)
      | Inr r \<Rightarrow> (Inr r, m(a \<mapsto> \<lparr>ce_Result = r, ce_Success = True, ce_GeocodedAt = now\<rparr>)))"

definition geocode_spec ::
  "(string \<Rightarrow> geo_error + GeoResult) \<Rightarrow> time \<Rightarrow> string \<Rightarrow> (string \<Rightarrow> CacheEntry option) \<Rightarrow>
   (geo_error + GeoResult) \<times> (string \<Rightarrow> CacheEntry option)" where
  "geocode_spec provider now a m =
     (case m a of
        Some e \<Rightarrow>
          if ce_Success e then (Inr (ce_Result e), m)
          else if Sub now (ce_GeocodedAt e) < failedCacheTTL then (Inl ErrNoResult, m)
          else asked_spec provider now a m
      | None \<Rightarrow> asked_spec provider now a m)"

section \<open>What the cached geocoder relies on\<close>

text \<open>
  \<^verbatim>\<open>view\<close> is the cache as a partial map. A lookup changes no entry and, when it returns, returns
  the entry; a store that returns has replaced it; a failing operation leaves the entries alone.
\<close>

locale address_cache =
  fixes cache :: "'s Cache" and view :: "'s \<Rightarrow> string \<Rightarrow> CacheEntry option"
  assumes lookup_view: "ca_Lookup cache a now s = (r, s') \<Longrightarrow> view s' = view s"
    and lookup_entry: "ca_Lookup cache a now s = (Inr e, s') \<Longrightarrow> e = view s a"
    and store_view: "ca_Store cache a g ok t s = (None, s') \<Longrightarrow>
      view s' = (view s)(a \<mapsto> \<lparr>ce_Result = (if ok then g else no_geo), ce_Success = ok, ce_GeocodedAt = t\<rparr>)"
    and store_failed: "ca_Store cache a g ok t s = (Some m, s') \<Longrightarrow> view s' = view s"
begin

lemma answer_is_cached:
  assumes "CachedGeocode (Some cache) provider now a s = (Inr r, s')"
  shows "\<exists>e. view s' a = Some e \<and> ce_Success e \<and> ce_Result e = r"
proof -
  obtain l s1 where l: "ca_Lookup cache a now s = (l, s1)" by fastforce
  have ask: "\<exists>e. view s' a = Some e \<and> ce_Success e \<and> ce_Result e = r"
    if "ask_provider (Some cache) provider now a s1 = (Inr r, s')"
    using that store_view [of a _ True now s1 s']
    by (fastforce simp: ask_provider_def split: sum.splits prod.splits option.splits)
  show ?thesis
    using assms ask l lookup_view [OF l] lookup_entry [of a now s _ s1]
    by (auto simp: CachedGeocode_def split: sum.splits option.splits if_splits)
qed

lemma transient_not_cached:
  assumes "provider a = Inl err" "\<not> IsPermanentFailure (Some err)"
    "CachedGeocode (Some cache) provider now a s = (r, s')"
  shows "view s' = view s"
  using assms lookup_view [of a now s]
  by (fastforce simp: CachedGeocode_def ask_provider_def split: sum.splits prod.splits option.splits if_splits)

end

text \<open>A cache whose operations never fail.\<close>

locale reliable_cache = address_cache +
  assumes lookup_total: "isl (fst (ca_Lookup cache a now s)) = False"
    and store_total: "fst (ca_Store cache a r ok t s) = None"
begin

lemma ask_refines:
  "apsnd view (ask_provider (Some cache) provider now a s) = asked_spec provider now a (view s)"
proof -
  have st: "\<exists>s'. ca_Store cache a r ok now s = (None, s') \<and>
      view s' = (view s)(a \<mapsto> \<lparr>ce_Result = (if ok then r else no_geo), ce_Success = ok, ce_GeocodedAt = now\<rparr>)" for r ok
    using store_total [of a r ok now s] store_view [of a r ok now s]
    by (metis prod.collapse)
  obtain s1 where s1: "ca_Store cache a no_geo False now s = (None, s1)"
    "view s1 = (view s)(a \<mapsto> \<lparr>ce_Result = no_geo, ce_Success = False, ce_GeocodedAt = now\<rparr>)"
    using st [of no_geo False] by auto
  show ?thesis
  proof (cases "provider a")
    case (Inl err)
    then show ?thesis using s1 by (simp add: ask_provider_def asked_spec_def)
  next
    case (Inr r)
    then show ?thesis using st [of r True] by (auto simp: ask_provider_def asked_spec_def)
  qed
qed

lemma refines_spec:
  "apsnd view (CachedGeocode (Some cache) provider now a s) = geocode_spec provider now a (view s)"
proof -
  obtain r s1 where rs: "ca_Lookup cache a now s = (r, s1)" by fastforce
  obtain e where "r = Inr e" using lookup_total [of a now s] rs by (cases r) simp_all
  with rs have l: "ca_Lookup cache a now s = (Inr (view s a), s1)" "view s1 = view s"
    using lookup_entry [of a now s e s1] lookup_view [of a now s r s1] by simp_all
  show ?thesis
  proof (cases "view s a")
    case None
    then show ?thesis
      using l(1) ask_refines [of provider now a s1, unfolded l(2)] l(2) by (simp add: CachedGeocode_def geocode_spec_def)
  next
    case (Some e)
    then show ?thesis
      using l(1) ask_refines [of provider now a s1, unfolded l(2)] l(2) by (simp add: CachedGeocode_def geocode_spec_def)
  qed
qed

end

section \<open>The Postgres cache keeps the contract\<close>

definition cache_view :: "database \<Rightarrow> string \<Rightarrow> CacheEntry option" where
  "cache_view d a = map_option entry_of (find_geocode a d)"

lemma find_geocode_update:
  "(\<And>g. gc_address g = a \<Longrightarrow> gc_address (f g) = a) \<Longrightarrow>
   List.find (\<lambda>g. gc_address g = b) (update_where (\<lambda>g. gc_address g = a) f gs) =
     map_option (\<lambda>g. if b = a then f g else g) (List.find (\<lambda>g. gc_address g = b) gs)"
  by (induction gs) (auto simp: update_where_def)

lemma PostgresLookup_view: "cache_view (snd (PostgresLookup fault a now d)) = cache_view d"
proof
  fix b
  show "cache_view (snd (PostgresLookup fault a now d)) b = cache_view d b"
    using find_geocode_update [of a "\<lambda>g. g\<lparr>gc_hits := gc_hits g + 1\<rparr>" b "geocode_cache d"]
    by (auto simp: PostgresLookup_def cache_view_def find_geocode_def entry_of_def option.map_comp o_def
        split: option.splits intro!: option.map_cong)
qed

lemma PostgresStore_view:
  "fault (GeocodeStoreStmt a) d = None \<Longrightarrow>
   cache_view (snd (PostgresStore fault a r ok t d)) =
     (cache_view d)(a \<mapsto> \<lparr>ce_Result = (if ok then r else no_geo), ce_Success = ok, ce_GeocodedAt = t\<rparr>)"
proof
  fix b
  assume "fault (GeocodeStoreStmt a) d = None"
  then show "cache_view (snd (PostgresStore fault a r ok t d)) b =
     ((cache_view d)(a \<mapsto> \<lparr>ce_Result = (if ok then r else no_geo), ce_Success = ok, ce_GeocodedAt = t\<rparr>)) b"
    using find_geocode_update [of a "\<lambda>g. (stored_row a r ok t)\<lparr>gc_hits := gc_hits g\<rparr>" b "geocode_cache d"]
    by (cases "find_geocode a d")
      (auto simp: PostgresStore_def cache_view_def find_geocode_def entry_of_def stored_row_def no_geo_def find_append
        option.map_ident split: option.splits)
qed

interpretation postgres: address_cache "NewPostgresCache fault" cache_view for fault
proof
  show "ca_Lookup (NewPostgresCache fault) a now s = (r, s') \<Longrightarrow> cache_view s' = cache_view s" for a now s r s'
    using PostgresLookup_view [of fault a now s] by (simp add: NewPostgresCache_def)
  show "ca_Lookup (NewPostgresCache fault) a now s = (Inr e, s') \<Longrightarrow> e = cache_view s a" for a now s e s'
    by (auto simp: NewPostgresCache_def PostgresLookup_def cache_view_def split: option.splits)
  show "ca_Store (NewPostgresCache fault) a r ok t s = (None, s') \<Longrightarrow>
      cache_view s' = (cache_view s)(a \<mapsto> \<lparr>ce_Result = (if ok then r else no_geo), ce_Success = ok, ce_GeocodedAt = t\<rparr>)"
    for a r ok t s s'
    using PostgresStore_view [of fault a s r ok t]
    by (cases "fault (GeocodeStoreStmt a) s") (auto simp: NewPostgresCache_def PostgresStore_def)
  show "ca_Store (NewPostgresCache fault) a r ok t s = (Some e, s') \<Longrightarrow> cache_view s' = cache_view s" for a r ok t s e s'
    by (auto simp: NewPostgresCache_def PostgresStore_def split: option.splits)
qed

interpretation sound_postgres: reliable_cache "NewPostgresCache no_faults" cache_view
  by unfold_locales (auto simp: NewPostgresCache_def PostgresLookup_def PostgresStore_def no_faults_def)

section \<open>Properties\<close>

text \<open>
  C28. Over the Postgres cache the cached geocoder implements its specification: seen through the
  partial map of entries, every call gives the answer and the entries the specification gives.
\<close>

theorem CachedGeocode_refines:
  "apsnd cache_view (CachedGeocode (Some (NewPostgresCache no_faults)) provider now a d) =
     geocode_spec provider now a (cache_view d)"
  by (rule sound_postgres.refines_spec)

fun geocode_all ::
  "faults \<Rightarrow> ((string \<Rightarrow> geo_error + GeoResult) \<times> time \<times> string) list \<Rightarrow> database \<Rightarrow> database" where
  "geocode_all fault [] d = d"
| "geocode_all fault ((provider, now, a) # calls) d =
     geocode_all fault calls (snd (CachedGeocode (Some (NewPostgresCache fault)) provider now a d))"

lemma CachedGeocode_keeps_answer:
  assumes "cache_view d a = Some e" "ce_Success e"
  shows "cache_view (snd (CachedGeocode (Some (NewPostgresCache no_faults)) provider now b d)) a = Some e"
proof -
  have "cache_view (snd (CachedGeocode (Some (NewPostgresCache no_faults)) provider now b d)) =
      snd (geocode_spec provider now b (cache_view d))"
    using sound_postgres.refines_spec [of provider now b d] by (metis snd_apsnd)
  then show ?thesis
    using assms by (cases "a = b") (auto simp: geocode_spec_def asked_spec_def split: option.split sum.split)
qed

lemma geocode_all_keeps_answer:
  "cache_view d a = Some e \<Longrightarrow> ce_Success e \<Longrightarrow> cache_view (geocode_all no_faults calls d) a = Some e"
  by (induction calls arbitrary: d) (auto simp: CachedGeocode_keeps_answer)

text \<open>
  Once an address has been geocoded, the answer stands: after any calls for any addresses, at
  any times and whatever the provider then says, geocoding the address gives the same coordinates.
\<close>

theorem geocoded_address_stable:
  assumes "CachedGeocode (Some (NewPostgresCache no_faults)) provider now a d = (Inr r, d1)"
  shows "fst (CachedGeocode (Some (NewPostgresCache no_faults)) provider' now' a (geocode_all no_faults calls d1)) = Inr r"
proof -
  obtain e where e: "cache_view d1 a = Some e" "ce_Success e" "ce_Result e = r"
    using postgres.answer_is_cached [OF assms] by blast
  note k = geocode_all_keeps_answer [OF e(1,2), of calls]
  have "fst (CachedGeocode (Some (NewPostgresCache no_faults)) provider' now' a (geocode_all no_faults calls d1)) =
      fst (geocode_spec provider' now' a (cache_view (geocode_all no_faults calls d1)))"
    by (metis fst_apsnd sound_postgres.refines_spec)
  then show ?thesis using k e by (simp add: geocode_spec_def)
qed

definition sample_provider :: "string \<Rightarrow> geo_error + GeoResult" where
  "sample_provider a =
     (if a = ''1 n a st'' then Inr \<lparr>geo_Lon = - 112, geo_Lat = 33\<rparr> else Inl (GeoErr ''mapbox http: timeout''))"

theorem geocoded_address_stable_witness:
  "fst (CachedGeocode (Some (NewPostgresCache no_faults)) (\<lambda>_. Inl ErrNoResult) 9 ''1 n a st''
     (geocode_all no_faults [(sample_provider, 7, ''2 s b st'')]
       (snd (CachedGeocode (Some (NewPostgresCache no_faults)) sample_provider 5 ''1 n a st'' empty_db)))) =
   Inr \<lparr>geo_Lon = - 112, geo_Lat = 33\<rparr>"
proof -
  have "CachedGeocode (Some (NewPostgresCache no_faults)) sample_provider 5 ''1 n a st'' empty_db =
      (Inr \<lparr>geo_Lon = - 112, geo_Lat = 33\<rparr>,
       snd (CachedGeocode (Some (NewPostgresCache no_faults)) sample_provider 5 ''1 n a st'' empty_db))"
    by (simp add: CachedGeocode_def ask_provider_def NewPostgresCache_def PostgresLookup_def PostgresStore_def
        no_faults_def find_geocode_def empty_db_def sample_provider_def)
  from geocoded_address_stable [OF this, of "\<lambda>_. Inl ErrNoResult" 9 "[(sample_provider, 7, ''2 s b st'')]"]
  show ?thesis .
qed

definition permanent_failure :: "geo_error + GeoResult \<Rightarrow> bool" where
  "permanent_failure r = (case r of Inl e \<Rightarrow> IsPermanentFailure (Some e) | Inr _ \<Rightarrow> False)"

text \<open>
  The Mapbox client fails permanently exactly when the address is blank, Mapbox answers 400, or
  it answers with success and a body without a usable center; a refused wait, a transport error,
  another status and a broken body are all transient. Only permanent failures enter the cache.
\<close>

theorem MapboxGeocode_permanent_iff:
  "permanent_failure (MapboxGeocode bad_url c a) \<longleftrightarrow>
     TrimSpace a = [] \<or>
     mb_limiter c \<in> {None, Some None} \<and> bad_url (rq_url (geocode_request c (TrimSpace a))) = None \<and>
     (case mb_httpClient c (geocode_request c (TrimSpace a)) of
        Inl _ \<Rightarrow> False
      | Inr (status, body) \<Rightarrow>
          status = 400 \<or>
          status \<in> {200..<300} \<and>
          (case body of Inl _ \<Rightarrow> False | Inr [] \<Rightarrow> True | Inr (center # _) \<Rightarrow> length center < 2))"
  by (auto simp: permanent_failure_def MapboxGeocode_def IsPermanentFailure_def Let_def
      split: option.splits sum.splits prod.splits list.splits if_splits)

end
