(* ===== verification/Dispatch_Worker.thy ===== *)
theory Dispatch_Worker
  imports Incident_Store Dispatch_Parser Geocode
begin

text \<open>
  The worker that turns dispatch transcripts into incidents (\<^verbatim>\<open>internal/dispatch/parser/worker.go\<close>):
  the queue over \<^verbatim>\<open>dispatch_transcripts\<close>, one transcript per transaction, batches, and the retry cap of
  transient geocoding failures.

  Everything the surroundings decide in one pass is a record \<^verbatim>\<open>pass\<close>: the readings of the clocks, the
  rows other workers hold locked, the faults of the database and the geocoder's provider. A pass that
  panics in the parser rolls its transaction back and has no result. The geocoder works on its own
  connection, so what it caches stays whatever becomes of the transaction.
\<close>

section \<open>The worker\<close>

definition sdr_source :: string where "sdr_source = ''sdr_audio''"
definition sdr_parser_version :: string where "sdr_parser_version = ''sdr-audio-fallback-phase2''"
definition defaultDispatchMaxAge :: duration where "defaultDispatchMaxAge = 2 * hour"
definition defaultGeocodeMaxAttempts :: int where "defaultGeocodeMaxAttempts = 5"

record Worker =
  wk_maxAge :: duration
  wk_maxGeocodeAttempts :: int

record WorkerOptions =
  wo_MaxAge :: duration
  wo_MaxGeocodeAttempts :: int

definition NewWorker :: "WorkerOptions \<Rightarrow> Worker" where
  "NewWorker opts =
     \<lparr>wk_maxAge = (if wo_MaxAge opts \<le> 0 then defaultDispatchMaxAge else wo_MaxAge opts),
      wk_maxGeocodeAttempts =
        (if wo_MaxGeocodeAttempts opts \<le> 0 then defaultGeocodeMaxAttempts
         else wo_MaxGeocodeAttempts opts)\<rparr>"

datatype processOutcome =
    outcomeNoRows
  | outcomeGateFailed
  | outcomeStaleCapture
  | outcomeGeocodeFailed
  | outcomeGeocodeRetry
  | outcomeInserted

record BatchStats =
  bs_BatchSize :: int
  bs_GatePassCount :: int
  bs_GateFailCount :: int
  bs_StaleCaptureCount :: int
  bs_GeocodePassCount :: int
  bs_GeocodeFailCount :: int
  bs_IncidentsInserted :: int
  bs_BatchDuration :: duration
  bs_LastProcessedTranscript :: int

record pass =
  ps_now :: time
  ps_geocode_now :: time
  ps_insert_now :: time
  ps_db_now :: time
  ps_locked :: "int list"
  ps_faults :: faults
  ps_provider :: "string \<Rightarrow> geo_error + GeoResult"

section \<open>The queue\<close>

record transcriptRow =
  tr_ID :: int
  tr_CapturedAt :: time
  tr_ReceivedAt :: time
  tr_DisplayText :: string
  tr_VerificationConfidence :: float64
  tr_GeocodeAttempts :: int

definition attempts_of :: "dispatch_transcript \<Rightarrow> int" where
  "attempts_of t = (case dt_geocode_attempts t of None \<Rightarrow> 0 | Some n \<Rightarrow> n)"

definition queued :: "dispatch_transcript \<Rightarrow> bool" where
  "queued t \<longleftrightarrow> dt_parsed_at t = None"

text \<open>The order of the queue; rows that agree in both keys come in the order of the table.\<close>

definition next_transcript :: "int list \<Rightarrow> database \<Rightarrow> dispatch_transcript option" where
  "next_transcript locked d =
     max_by (\<lambda>t. (- attempts_of t, - dt_received_at t))
       (filter (\<lambda>t. queued t \<and> dt_id t \<notin> set locked) (dispatch_transcripts d))"

definition row_of :: "dispatch_transcript \<Rightarrow> transcriptRow" where
  "row_of t =
     \<lparr>tr_ID = dt_id t, tr_CapturedAt = dt_captured_at t, tr_ReceivedAt = dt_received_at t,
      tr_DisplayText = dt_display_text t,
      tr_VerificationConfidence =
        (case dt_verification_confidence t of None \<Rightarrow> Fin 0 | Some c \<Rightarrow> c),
      tr_GeocodeAttempts = attempts_of t\<rparr>"

definition lockNextTranscript :: "pass \<Rightarrow> database \<Rightarrow> error + transcriptRow option" where
  "lockNextTranscript ps d =
     (case ps_faults ps LockTranscriptStmt d of
        Some e \<Rightarrow> Inl (''lock dispatch transcript: '' @ e)
      | None \<Rightarrow> Inr (map_option row_of (next_transcript (ps_locked ps) d)))"

definition staleCapture :: "Worker \<Rightarrow> pass \<Rightarrow> time \<Rightarrow> bool" where
  "staleCapture w ps capturedAt \<longleftrightarrow> Sub (ps_now ps) capturedAt > wk_maxAge w"

definition update_transcript ::
  "int \<Rightarrow> (dispatch_transcript \<Rightarrow> dispatch_transcript) \<Rightarrow> database \<Rightarrow> database" where
  "update_transcript i f d =
     d\<lparr>dispatch_transcripts := update_where (\<lambda>t. dt_id t = i) f (dispatch_transcripts d)\<rparr>"

definition markTranscriptParsed :: "pass \<Rightarrow> int \<Rightarrow> int option \<Rightarrow> database \<Rightarrow> error + database" where
  "markTranscriptParsed ps i incidentDBID d =
     (case ps_faults ps (MarkParsedStmt i) d of
        Some e \<Rightarrow> Inl (''mark dispatch transcript parsed '' @ Itoa i @ '': '' @ e)
      | None \<Rightarrow>
          Inr (update_transcript i
                 (\<lambda>t. t\<lparr>dt_parsed_at := Some (ps_db_now ps), dt_parsed_incident_id := incidentDBID\<rparr>) d))"

definition recordTranscriptGeocodeAttempt :: "pass \<Rightarrow> int \<Rightarrow> int \<Rightarrow> database \<Rightarrow> error + database" where
  "recordTranscriptGeocodeAttempt ps i attempts d =
     (case ps_faults ps (GeocodeAttemptStmt i) d of
        Some e \<Rightarrow> Inl (''record dispatch transcript geocode attempt '' @ Itoa i @ '': '' @ e)
      | None \<Rightarrow> Inr (update_transcript i (\<lambda>t. t\<lparr>dt_geocode_attempts := Some attempts\<rparr>) d))"

definition markTranscriptParsedAfterGeocodeAttempts ::
  "pass \<Rightarrow> int \<Rightarrow> int option \<Rightarrow> int \<Rightarrow> database \<Rightarrow> error + database" where
  "markTranscriptParsedAfterGeocodeAttempts ps i incidentDBID attempts d =
     (case ps_faults ps (MarkParsedStmt i) d of
        Some e \<Rightarrow> Inl (''mark dispatch transcript parsed after geocode attempts '' @ Itoa i @ '': '' @ e)
      | None \<Rightarrow>
          Inr (update_transcript i
                 (\<lambda>t. t\<lparr>dt_parsed_at := Some (ps_db_now ps), dt_parsed_incident_id := incidentDBID,
                       dt_geocode_attempts := Some attempts\<rparr>) d))"

section \<open>Incidents\<close>

definition incidentUnitsJSON :: "ExpectedUnit list \<Rightarrow> Unit list" where
  "incidentUnitsJSON units =
     map (\<lambda>u. \<lparr>unit_Unit = eu_UnitName u, unit_Status = ''Dispatched'', unit_UnitType = eu_UnitType u\<rparr>) units"

definition parser_poll :: "int \<Rightarrow> time \<Rightarrow> source_poll" where
  "parser_poll i now =
     \<lparr>sp_poll_id = i, sp_source = sdr_source, sp_request_url = ''dispatch_transcripts'',
      sp_started_at = now, sp_finished_at = now, sp_status_code = 200, sp_latency_ms = 0,
      sp_feature_count = 1, sp_payload_sha256 = None, sp_parser_version = sdr_parser_version,
      sp_success = True, sp_error = None, sp_notes = None\<rparr>"

definition insertParserPoll :: "pass \<Rightarrow> time \<Rightarrow> database \<Rightarrow> error + int \<times> database" where
  "insertParserPoll ps now d =
     (case ps_faults ps ParserPollStmt d of
        Some e \<Rightarrow> Inl (''insert SDR source poll: '' @ e)
      | None \<Rightarrow>
          Inr (seq_poll d,
               d\<lparr>source_polls := source_polls d @ [parser_poll (seq_poll d) now],
                 seq_poll := seq_poll d + 1\<rparr>))"

definition sdr_incident_id :: "int \<Rightarrow> string" where
  "sdr_incident_id i = ''sdr-'' @ Itoa i"

text \<open>The row an incident gets, and the columns the upsert replaces in an existing one.\<close>

definition sdr_row ::
  "int \<Rightarrow> transcriptRow \<Rightarrow> ParsedDispatch \<Rightarrow> GeoResult \<Rightarrow> time \<Rightarrow> int \<Rightarrow> incident_row" where
  "sdr_row i row parsed geo now pollID =
     \<lparr>ir_id = i, ir_source = sdr_source, ir_incident_id = sdr_incident_id (tr_ID row),
      ir_nature_code = [], ir_nature_desc = pd_Nature parsed,
      ir_units = incidentUnitsJSON (pd_Units parsed), ir_channel = pd_Channel parsed,
      ir_symbol_code = [], ir_location_text = pd_LocationText parsed,
      ir_lon = geo_Lon geo, ir_lat = geo_Lat geo, ir_incident_date = tr_CapturedAt row,
      ir_received_at = now, ir_last_seen_at = now, ir_last_seen_poll_id = pollID,
      ir_missing_since = None, ir_cleared_at = None, ir_reopen_count = 0,
      ir_raw = None, ir_raw_dropped_at = None\<rparr>"

definition sdr_conflict_row :: "incident_row \<Rightarrow> incident_row \<Rightarrow> incident_row" where
  "sdr_conflict_row excluded r =
     excluded\<lparr>ir_id := ir_id r, ir_received_at := ir_received_at r,
              ir_reopen_count := ir_reopen_count r, ir_raw := ir_raw r,
              ir_raw_dropped_at := ir_raw_dropped_at r\<rparr>"

definition upsert_sdr :: "incident_row \<Rightarrow> database \<Rightarrow> int \<times> database" where
  "upsert_sdr new d =
     (case find_incident (ir_source new) (ir_incident_id new) d of
        None \<Rightarrow>
          (ir_id new, d\<lparr>incidents := incidents d @ [new], seq_incident := seq_incident d + 1\<rparr>)
      | Some r \<Rightarrow>
          (ir_id r,
           d\<lparr>incidents := update_where (\<lambda>r. ir_source r = ir_source new \<and> ir_incident_id r = ir_incident_id new)
                (sdr_conflict_row new) (incidents d)\<rparr>))"

fun insert_sdr_units ::
  "pass \<Rightarrow> string \<Rightarrow> time \<Rightarrow> int \<Rightarrow> ExpectedUnit list \<Rightarrow> database \<Rightarrow> error + database" where
  "insert_sdr_units ps iid now pollID [] d = Inr d"
| "insert_sdr_units ps iid now pollID (u # us) d =
     (case ps_faults ps (SDRUnitStmt iid (eu_UnitName u)) d of
        Some e \<Rightarrow> Inl (''insert SDR incident unit '' @ iid @ ''/'' @ eu_UnitName u @ '': '' @ e)
      | None \<Rightarrow>
          insert_sdr_units ps iid now pollID us
            (d\<lparr>incident_units := incident_units d @
                 [\<lparr>iu_id = seq_unit d, iu_source = sdr_source, iu_incident_id = iid,
                   iu_unit = eu_UnitName u, iu_status = ''Dispatched'', iu_first_observed_at = now,
                   iu_last_observed_at = now, iu_first_poll_id = pollID, iu_last_poll_id = pollID\<rparr>],
               seq_unit := seq_unit d + 1\<rparr>))"

definition insertIncident ::
  "pass \<Rightarrow> transcriptRow \<Rightarrow> ParsedDispatch \<Rightarrow> GeoResult \<Rightarrow> database \<Rightarrow> error + int \<times> database" where
  "insertIncident ps row parsed geo d =
     (let now = ps_insert_now ps; iid = sdr_incident_id (tr_ID row)
      in case insertParserPoll ps now d of
           Inl e \<Rightarrow> Inl e
         | Inr (pollID, d1) \<Rightarrow>
             (case ps_faults ps (SDRIncidentStmt iid) d1 of
                Some e \<Rightarrow> Inl (''insert SDR incident '' @ iid @ '': '' @ e)
              | None \<Rightarrow>
                  (let (dbid, d2) = upsert_sdr (sdr_row (seq_incident d1) row parsed geo now pollID) d1
                   in case insert_sdr_units ps iid now pollID (pd_Units parsed) d2 of
                        Inl e \<Rightarrow> Inl e
                      | Inr d3 \<Rightarrow> Inr (dbid, d3))))"

section \<open>One transcript\<close>

text \<open>\<^verbatim>\<open>commit_tx\<close>: the commit, which leaves the tables as they were when it fails.\<close>

definition commit_tx ::
  "pass \<Rightarrow> processOutcome \<Rightarrow> int \<Rightarrow> database \<Rightarrow> error + database \<Rightarrow> (processOutcome \<times> int \<times> error option) \<times> database" where
  "commit_tx ps outcome i d res =
     (case res of
        Inl e \<Rightarrow> ((outcomeNoRows, i, Some e), d)
      | Inr d' \<Rightarrow>
          (case ps_faults ps CommitParse d' of
             Some e \<Rightarrow> ((outcomeNoRows, i, Some e), d)
           | None \<Rightarrow> ((outcome, i, None), d')))"

definition geocode_pass :: "pass \<Rightarrow> string \<Rightarrow> database \<Rightarrow> (geo_error + GeoResult) \<times> database" where
  "geocode_pass ps address d =
     CachedGeocode (Some (NewPostgresCache (ps_faults ps))) (ps_provider ps) (ps_geocode_now ps) address d"

definition process_parsed ::
  "Worker \<Rightarrow> pass \<Rightarrow> transcriptRow \<Rightarrow> ParsedDispatch \<Rightarrow> database \<Rightarrow> (processOutcome \<times> int \<times> error option) \<times> database" where
  "process_parsed w ps row parsed d =
     (let i = tr_ID row
      in case geocode_pass ps (pd_LocationText parsed) d of
           (Inl err, d1) \<Rightarrow>
             if \<not> IsPermanentFailure (Some err)
             then
               (let attempts = tr_GeocodeAttempts row + 1
                in if attempts \<ge> wk_maxGeocodeAttempts w
                   then commit_tx ps outcomeGeocodeFailed i d1
                          (markTranscriptParsedAfterGeocodeAttempts ps i None attempts d1)
                   else commit_tx ps outcomeGeocodeRetry i d1
                          (recordTranscriptGeocodeAttempt ps i attempts d1))
             else commit_tx ps outcomeGeocodeFailed i d1 (markTranscriptParsed ps i None d1)
         | (Inr geo, d1) \<Rightarrow>
             commit_tx ps outcomeInserted i d1
               (case insertIncident ps row parsed geo d1 of
                  Inl e \<Rightarrow> Inl e
                | Inr (dbid, d2) \<Rightarrow> markTranscriptParsed ps i (Some dbid) d2))"

definition processNext ::
  "Worker \<Rightarrow> pass \<Rightarrow> database \<Rightarrow> (processOutcome \<times> int \<times> error option) option \<times> database" where
  "processNext w ps d =
     (case ps_faults ps BeginParse d of
        Some e \<Rightarrow> (Some (outcomeNoRows, 0, Some (''begin dispatch parse tx: '' @ e)), d)
      | None \<Rightarrow>
          (case lockNextTranscript ps d of
             Inl e \<Rightarrow> (Some (outcomeNoRows, 0, Some e), d)
           | Inr None \<Rightarrow> apfst Some (commit_tx ps outcomeNoRows 0 d (Inr d))
           | Inr (Some row) \<Rightarrow>
               if staleCapture w ps (tr_CapturedAt row)
               then apfst Some (commit_tx ps outcomeStaleCapture (tr_ID row) d
                                  (markTranscriptParsed ps (tr_ID row) None d))
               else
                 (case ParseTranscript (tr_DisplayText row) (tr_VerificationConfidence row) of
                    None \<Rightarrow> (None, d)
                  | Some (Inl reason) \<Rightarrow>
                      apfst Some (commit_tx ps outcomeGateFailed (tr_ID row) d
                                    (markTranscriptParsed ps (tr_ID row) None d))
                  | Some (Inr parsed) \<Rightarrow> apfst Some (process_parsed w ps row parsed d))))"

section \<open>Batches\<close>

definition empty_stats :: BatchStats where
  "empty_stats =
     \<lparr>bs_BatchSize = 0, bs_GatePassCount = 0, bs_GateFailCount = 0, bs_StaleCaptureCount = 0,
      bs_GeocodePassCount = 0, bs_GeocodeFailCount = 0, bs_IncidentsInserted = 0,
      bs_BatchDuration = 0, bs_LastProcessedTranscript = 0\<rparr>"

fun count_outcome :: "processOutcome \<Rightarrow> BatchStats \<Rightarrow> BatchStats" where
  "count_outcome outcomeGateFailed s = s\<lparr>bs_GateFailCount := bs_GateFailCount s + 1\<rparr>"
| "count_outcome outcomeStaleCapture s =
     s\<lparr>bs_GateFailCount := bs_GateFailCount s + 1, bs_StaleCaptureCount := bs_StaleCaptureCount s + 1\<rparr>"
| "count_outcome outcomeGeocodeFailed s =
     s\<lparr>bs_GatePassCount := bs_GatePassCount s + 1, bs_GeocodeFailCount := bs_GeocodeFailCount s + 1\<rparr>"
| "count_outcome outcomeGeocodeRetry s =
     s\<lparr>bs_GatePassCount := bs_GatePassCount s + 1, bs_GeocodeFailCount := bs_GeocodeFailCount s + 1\<rparr>"
| "count_outcome outcomeInserted s =
     s\<lparr>bs_GatePassCount := bs_GatePassCount s + 1, bs_GeocodePassCount := bs_GeocodePassCount s + 1,
       bs_IncidentsInserted := bs_IncidentsInserted s + 1\<rparr>"
| "count_outcome outcomeNoRows s = s"

text \<open>
  The loop of \<^verbatim>\<open>ProcessBatch\<close>. The first argument is what is left of the limit; the passes are numbered
  from \<^verbatim>\<open>k\<close>. The result is the statistics with the error, or nothing when the parser panics.
\<close>

fun process_loop ::
  "nat \<Rightarrow> Worker \<Rightarrow> (nat \<Rightarrow> pass) \<Rightarrow> nat \<Rightarrow> BatchStats \<Rightarrow> database \<Rightarrow> (BatchStats \<times> error option) option \<times> database" where
  "process_loop 0 w ps k s d = (Some (s, None), d)"
| "process_loop (Suc n) w ps k s d =
     (case processNext w (ps k) d of
        (None, d1) \<Rightarrow> (None, d1)
      | (Some (outcome, i, Some e), d1) \<Rightarrow> (Some (s, Some e), d1)
      | (Some (outcome, i, None), d1) \<Rightarrow>
          if outcome = outcomeNoRows then (Some (s, None), d1)
          else
            (let s1 = count_outcome outcome
                        (s\<lparr>bs_BatchSize := bs_BatchSize s + 1, bs_LastProcessedTranscript := i\<rparr>)
             in if outcome = outcomeGeocodeRetry then (Some (s1, None), d1)
                else process_loop n w ps (Suc k) s1 d1))"

definition ProcessBatch ::
  "Worker \<Rightarrow> (nat \<Rightarrow> pass) \<Rightarrow> duration \<Rightarrow> int \<Rightarrow> database \<Rightarrow> (BatchStats \<times> error option) option \<times> database" where
  "ProcessBatch w ps elapsed limit0 d =
     (let limit = (if limit0 \<le> 0 then 50 else limit0)
      in apfst (map_option (apfst (\<lambda>s. s\<lparr>bs_BatchDuration := elapsed\<rparr>)))
           (process_loop (nat limit) w ps 0 empty_stats d))"

text \<open>
  \<^verbatim>\<open>Run\<close>: one round for each entry of the list, until the context is done at its end, an error in the
  parser ends the process, or the entries run out. A full batch starts the next round at once; the
  result lists the waits between rounds, \<^verbatim>\<open>None\<close> for no wait.
\<close>

fun Run ::
  "Worker \<Rightarrow> duration \<Rightarrow> ((nat \<Rightarrow> pass) \<times> duration) list \<Rightarrow> database \<Rightarrow> duration option list option \<times> database" where
  "Run w interval0 [] d = (Some [], d)"
| "Run w interval0 ((ps, elapsed) # rounds) d =
     (let interval = (if interval0 \<le> 0 then 5 * second else interval0)
      in case ProcessBatch w ps elapsed 50 d of
           (None, d1) \<Rightarrow> (None, d1)
         | (Some (stats, err), d1) \<Rightarrow>
             (case Run w interval0 rounds d1 of
                (None, d2) \<Rightarrow> (None, d2)
              | (Some waits, d2) \<Rightarrow>
                  (Some ((if bs_BatchSize stats \<ge> 50 then None else Some interval) # waits), d2)))"

section \<open>What a pass changes\<close>

definition only_cache :: "database \<Rightarrow> database \<Rightarrow> bool" where
  "only_cache d d' \<longleftrightarrow> (\<exists>gc. d' = d\<lparr>geocode_cache := gc\<rparr>)"

lemma only_cache_refl [simp]: "only_cache d d"
  unfolding only_cache_def by (rule exI [of _ "geocode_cache d"]) simp

lemma only_cache_update [simp]: "only_cache d (d\<lparr>geocode_cache := gc\<rparr>)"
  by (auto simp: only_cache_def)

lemma only_cache_trans: "only_cache d d' \<Longrightarrow> only_cache d' d'' \<Longrightarrow> only_cache d d''"
  by (auto simp: only_cache_def)

lemma PostgresLookup_frame: "only_cache d (snd (PostgresLookup fault a now d))"
  by (simp add: PostgresLookup_def split: option.split)

lemma PostgresStore_frame: "only_cache d (snd (PostgresStore fault a g ok t d))"
  by (simp add: PostgresStore_def split: option.split)

lemma ask_provider_frame: "only_cache d (snd (ask_provider (Some (NewPostgresCache fault)) provider now a d))"
  using PostgresStore_frame [of d fault a no_geo False now] PostgresStore_frame [of d fault a _ True now]
  by (auto simp: ask_provider_def NewPostgresCache_def split: sum.split prod.split option.split) (metis snd_conv)+

lemma geocode_pass_frame:
  assumes "geocode_pass ps a d = (r, d')"
  shows "only_cache d d'"
proof -
  obtain l d1 where l: "PostgresLookup (ps_faults ps) a (ps_geocode_now ps) d = (l, d1)" by fastforce
  have d1: "only_cache d d1" using PostgresLookup_frame [of d "ps_faults ps" a "ps_geocode_now ps"] l by simp
  have "d' = d1 \<or> d' = snd (ask_provider (Some (NewPostgresCache (ps_faults ps))) (ps_provider ps) (ps_geocode_now ps) a d1)"
    using assms l
    by (auto simp: geocode_pass_def CachedGeocode_def NewPostgresCache_def split: sum.splits option.splits if_splits)
  then show ?thesis using d1 ask_provider_frame only_cache_trans by metis
qed

lemma insert_sdr_units_frame:
  "insert_sdr_units ps iid now pid us d = Inr d' \<Longrightarrow>
   \<exists>units n. d' = d\<lparr>incident_units := units, seq_unit := n\<rparr>"
proof (induction us arbitrary: d)
  case Nil
  then have "d' = d\<lparr>incident_units := incident_units d, seq_unit := seq_unit d\<rparr>" by simp
  then show ?case by blast
next
  case (Cons u us)
  then show ?case by (fastforce split: option.splits)
qed

lemma upsert_sdr_frame: "\<exists>rows n. snd (upsert_sdr new d) = d\<lparr>incidents := rows, seq_incident := n\<rparr>"
proof (cases "find_incident (ir_source new) (ir_incident_id new) d")
  case None
  then show ?thesis by (auto simp: upsert_sdr_def)
next
  case (Some r)
  then have "snd (upsert_sdr new d) =
      d\<lparr>incidents := update_where (\<lambda>r. ir_source r = ir_source new \<and> ir_incident_id r = ir_incident_id new)
          (sdr_conflict_row new) (incidents d), seq_incident := seq_incident d\<rparr>"
    by (simp add: upsert_sdr_def)
  then show ?thesis by blast
qed

lemma insertIncident_transcripts:
  assumes "insertIncident ps row parsed geo d = Inr (i, d')"
  shows "dispatch_transcripts d' = dispatch_transcripts d"
proof -
  obtain pid d1 where p: "insertParserPoll ps (ps_insert_now ps) d = Inr (pid, d1)"
    using assms by (auto simp: insertIncident_def Let_def split: sum.splits)
  obtain j d2 where u: "upsert_sdr (sdr_row (seq_incident d1) row parsed geo (ps_insert_now ps) pid) d1 = (j, d2)"
    by fastforce
  have "insert_sdr_units ps (sdr_incident_id (tr_ID row)) (ps_insert_now ps) pid (pd_Units parsed) d2 = Inr d'"
    using assms p u by (auto simp: insertIncident_def Let_def split: sum.splits option.splits)
  from insert_sdr_units_frame [OF this]
  have "dispatch_transcripts d' = dispatch_transcripts d2" by auto
  moreover have "dispatch_transcripts d2 = dispatch_transcripts d1"
    using upsert_sdr_frame [of "sdr_row (seq_incident d1) row parsed geo (ps_insert_now ps) pid" d1] u by auto
  moreover have "dispatch_transcripts d1 = dispatch_transcripts d"
    using p by (auto simp: insertParserPoll_def split: option.splits)
  ultimately show ?thesis by simp
qed

lemma commit_tx_elim:
  assumes "commit_tx ps oc i d res = ((oc', i', e), d')"
  obtains (failed) m where "e = Some m" "d' = d"
    | (committed) "e = None" "oc' = oc" "i' = i" "res = Inr d'"
proof (cases res)
  case (Inl m)
  then show ?thesis using assms failed [of m] by (simp add: commit_tx_def)
next
  case (Inr d1)
  show ?thesis
  proof (cases "ps_faults ps CommitParse d1")
    case None
    then show ?thesis using assms Inr committed by (auto simp: commit_tx_def)
  next
    case (Some m)
    then show ?thesis using assms Inr failed [of m] by (auto simp: commit_tx_def)
  qed
qed

section \<open>The outcomes of a pass\<close>

definition finishing :: "(dispatch_transcript \<Rightarrow> dispatch_transcript) \<Rightarrow> bool" where
  "finishing f \<longleftrightarrow> (\<forall>t. dt_parsed_at (f t) \<noteq> None \<and> dt_id (f t) = dt_id t)"

definition transcript_panics :: "dispatch_transcript \<Rightarrow> bool" where
  "transcript_panics t \<longleftrightarrow> ParseTranscript (dt_display_text t) (tr_VerificationConfidence (row_of t)) = None"

abbreviation touches :: "int \<Rightarrow> (dispatch_transcript \<Rightarrow> dispatch_transcript) \<Rightarrow> database \<Rightarrow> database \<Rightarrow> bool" where
  "touches i f d d' \<equiv>
     dispatch_transcripts d' = update_where (\<lambda>t. dt_id t = i) f (dispatch_transcripts d)"

lemma touchesI: "finishing f \<Longrightarrow> touches i f d d' \<Longrightarrow> \<exists>f. finishing f \<and> touches i f d d'"
  by blast

lemma markTranscriptParsed_rewrites:
  "markTranscriptParsed ps i x d = Inr d' \<Longrightarrow> \<exists>f. finishing f \<and> touches i f d d'"
  by (rule touchesI [of "\<lambda>t. t\<lparr>dt_parsed_at := Some (ps_db_now ps), dt_parsed_incident_id := x\<rparr>"])
    (auto simp: markTranscriptParsed_def update_transcript_def finishing_def split: option.splits)

lemma markAfterAttempts_rewrites:
  "markTranscriptParsedAfterGeocodeAttempts ps i x n d = Inr d' \<Longrightarrow> \<exists>f. finishing f \<and> touches i f d d'"
  by (rule touchesI [of "\<lambda>t. t\<lparr>dt_parsed_at := Some (ps_db_now ps), dt_parsed_incident_id := x,
      dt_geocode_attempts := Some n\<rparr>"])
    (auto simp: markTranscriptParsedAfterGeocodeAttempts_def update_transcript_def finishing_def
      split: option.splits)

lemma only_cache_transcripts: "only_cache d d' \<Longrightarrow> dispatch_transcripts d' = dispatch_transcripts d"
  by (auto simp: only_cache_def)

lemma process_parsed_cases:
  assumes "process_parsed w ps (row_of t) parsed d = ((oc, i, e), d')"
  obtains (failed) m where "e = Some m" "only_cache d d'"
    | (finished) f where "e = None" "i = dt_id t" "oc \<notin> {outcomeNoRows, outcomeGeocodeRetry}" "finishing f"
        "touches (dt_id t) f d d'"
    | (retried) "e = None" "i = dt_id t" "oc = outcomeGeocodeRetry" "attempts_of t + 1 < wk_maxGeocodeAttempts w"
        "touches (dt_id t) (\<lambda>x. x\<lparr>dt_geocode_attempts := Some (attempts_of t + 1)\<rparr>) d d'"
proof -
  obtain r d1 where g: "geocode_pass ps (pd_LocationText parsed) d = (r, d1)" by fastforce
  note oc1 = geocode_pass_frame [OF g]
  note tr = only_cache_transcripts [OF oc1]
  have row: "tr_ID (row_of t) = dt_id t" "tr_GeocodeAttempts (row_of t) = attempts_of t"
    by (simp_all add: row_of_def)
  show ?thesis
  proof (cases r)
    case (Inr geo)
    let ?res = "case insertIncident ps (row_of t) parsed geo d1 of Inl e \<Rightarrow> Inl e
                | Inr (dbid, d2) \<Rightarrow> markTranscriptParsed ps (dt_id t) (Some dbid) d2"
    have "commit_tx ps outcomeInserted (dt_id t) d1 ?res = ((oc, i, e), d')"
      using assms g Inr row by (simp add: process_parsed_def Let_def)
    then show ?thesis
    proof (cases rule: commit_tx_elim)
      case (failed m)
      then show ?thesis using oc1 that(1) by simp
    next
      case committed
      then obtain dbid d2 where d2: "insertIncident ps (row_of t) parsed geo d1 = Inr (dbid, d2)"
        "markTranscriptParsed ps (dt_id t) (Some dbid) d2 = Inr d'"
        by (auto split: sum.splits)
      obtain f where "finishing f" "touches (dt_id t) f d2 d'"
        using markTranscriptParsed_rewrites [OF d2(2)] by blast
      then show ?thesis
        using committed insertIncident_transcripts [OF d2(1)] tr by (intro that(2)) simp_all
    qed
  next
    case (Inl err)
    let ?n = "attempts_of t + 1"
    consider "IsPermanentFailure (Some err)"
      | "\<not> IsPermanentFailure (Some err)" "?n \<ge> wk_maxGeocodeAttempts w"
      | "\<not> IsPermanentFailure (Some err)" "?n < wk_maxGeocodeAttempts w" by linarith
    then show ?thesis
    proof cases
      case 1
      then have "commit_tx ps outcomeGeocodeFailed (dt_id t) d1 (markTranscriptParsed ps (dt_id t) None d1) =
          ((oc, i, e), d')"
        using assms g Inl row by (simp add: process_parsed_def Let_def)
      then show ?thesis
        using oc1 markTranscriptParsed_rewrites [of ps "dt_id t" None d1 d'] tr
        by (cases rule: commit_tx_elim) (auto intro: that)
    next
      case 2
      then have "commit_tx ps outcomeGeocodeFailed (dt_id t) d1
          (markTranscriptParsedAfterGeocodeAttempts ps (dt_id t) None ?n d1) = ((oc, i, e), d')"
        using assms g Inl row by (simp add: process_parsed_def Let_def)
      then show ?thesis
        using oc1 markAfterAttempts_rewrites [of ps "dt_id t" None ?n d1 d'] tr
        by (cases rule: commit_tx_elim) (auto intro: that)
    next
      case 3
      then have "commit_tx ps outcomeGeocodeRetry (dt_id t) d1
          (recordTranscriptGeocodeAttempt ps (dt_id t) ?n d1) = ((oc, i, e), d')"
        using assms g Inl row by (simp add: process_parsed_def Let_def)
      then show ?thesis
        using oc1 3 tr
        by (cases rule: commit_tx_elim)
          (auto intro: that simp: recordTranscriptGeocodeAttempt_def update_transcript_def split: option.splits)
    qed
  qed
qed

lemma skip_cases:
  assumes "commit_tx ps oc i d (markTranscriptParsed ps i None d) = ((oc', i', e), d')"
  obtains m where "e = Some m" "d' = d"
    | f where "e = None" "oc' = oc" "i' = i" "finishing f" "touches i f d d'"
  using assms markTranscriptParsed_rewrites [of ps i None d d'] by (cases rule: commit_tx_elim) blast+

lemma processNext_cases:
  assumes "processNext w ps d = (res, d')"
  obtains (panicked) t where "res = None" "next_transcript (ps_locked ps) d = Some t" "transcript_panics t"
        "\<not> staleCapture w ps (dt_captured_at t)" "d' = d"
    | (failed) oc i m where "res = Some (oc, i, Some m)" "only_cache d d'"
    | (idle) i where "res = Some (outcomeNoRows, i, None)" "next_transcript (ps_locked ps) d = None" "d' = d"
    | (finished) t oc f where "res = Some (oc, dt_id t, None)" "next_transcript (ps_locked ps) d = Some t"
        "oc \<notin> {outcomeNoRows, outcomeGeocodeRetry}" "finishing f" "touches (dt_id t) f d d'"
    | (retried) t where "res = Some (outcomeGeocodeRetry, dt_id t, None)"
        "next_transcript (ps_locked ps) d = Some t" "attempts_of t + 1 < wk_maxGeocodeAttempts w"
        "touches (dt_id t) (\<lambda>x. x\<lparr>dt_geocode_attempts := Some (attempts_of t + 1)\<rparr>) d d'"
proof -
  note on_panic = that(1) and on_failed = that(2) and on_idle = that(3) and on_finished = that(4) and on_retried = that(5)
  consider e where "ps_faults ps BeginParse d = Some e"
    | e where "ps_faults ps BeginParse d = None" "lockNextTranscript ps d = Inl e"
    | "ps_faults ps BeginParse d = None" "lockNextTranscript ps d = Inr None"
    | row where "ps_faults ps BeginParse d = None" "lockNextTranscript ps d = Inr (Some row)"
    by (metis option.exhaust sum.exhaust)
  then show ?thesis
  proof cases
    case (1 e)
    then show ?thesis using assms by (intro on_failed) (auto simp: processNext_def)
  next
    case (2 e)
    then show ?thesis using assms by (intro on_failed) (auto simp: processNext_def)
  next
    case 3
    then have n: "next_transcript (ps_locked ps) d = None"
      by (auto simp: lockNextTranscript_def split: option.splits)
    obtain oc i e where r: "commit_tx ps outcomeNoRows 0 d (Inr d) = ((oc, i, e), d')" "res = Some (oc, i, e)"
      using 3 assms by (cases "commit_tx ps outcomeNoRows 0 d (Inr d)") (auto simp: processNext_def)
    show ?thesis
      using r(1)
    proof (cases rule: commit_tx_elim)
      case (failed m)
      then show ?thesis by (intro on_failed [of oc i m]) (use r(2) in simp_all)
    next
      case committed
      then show ?thesis by (intro on_idle [of i]) (use r(2) n in simp_all)
    qed
  next
    case (4 row)
    obtain t where t: "next_transcript (ps_locked ps) d = Some t" "row = row_of t"
      using 4 by (auto simp: lockNextTranscript_def split: option.splits)
    have row: "tr_ID row = dt_id t" "tr_CapturedAt row = dt_captured_at t" "tr_DisplayText row = dt_display_text t"
      by (simp_all add: t row_of_def)
    have skip: ?thesis if "commit_tx ps oc (dt_id t) d (markTranscriptParsed ps (dt_id t) None d) = ((oc', i, e), d')"
        "res = Some (oc', i, e)" "oc \<notin> {outcomeNoRows, outcomeGeocodeRetry}" for oc oc' i e
      using that(1)
    proof (cases rule: skip_cases)
      case (1 m)
      then show ?thesis by (intro on_failed [of oc' i m]) (use that(2) in simp_all)
    next
      case (2 f)
      then show ?thesis by (intro on_finished [of oc t f]) (use that(2,3) t in simp_all)
    qed
    let ?parse = "ParseTranscript (tr_DisplayText row) (tr_VerificationConfidence row)"
    consider "staleCapture w ps (tr_CapturedAt row)"
      | "\<not> staleCapture w ps (tr_CapturedAt row)" "?parse = None"
      | reason where "\<not> staleCapture w ps (tr_CapturedAt row)" "?parse = Some (Inl reason)"
      | parsed where "\<not> staleCapture w ps (tr_CapturedAt row)" "?parse = Some (Inr parsed)"
      by (metis option.exhaust sum.exhaust)
    then show ?thesis
    proof cases
      case 1
      obtain oc' i e where "commit_tx ps outcomeStaleCapture (dt_id t) d (markTranscriptParsed ps (dt_id t) None d) =
          ((oc', i, e), d')" "res = Some (oc', i, e)"
        using 1 4 assms row
        by (cases "commit_tx ps outcomeStaleCapture (dt_id t) d (markTranscriptParsed ps (dt_id t) None d)")
          (auto simp: processNext_def)
      then show ?thesis by (rule skip) simp
    next
      case 2
      then show ?thesis
        using 4 assms row t by (intro on_panic [of t]) (auto simp: processNext_def transcript_panics_def)
    next
      case (3 reason)
      obtain oc' i e where "commit_tx ps outcomeGateFailed (dt_id t) d (markTranscriptParsed ps (dt_id t) None d) =
          ((oc', i, e), d')" "res = Some (oc', i, e)"
        using 3 4 assms row
        by (cases "commit_tx ps outcomeGateFailed (dt_id t) d (markTranscriptParsed ps (dt_id t) None d)")
          (auto simp: processNext_def)
      then show ?thesis by (rule skip) simp
    next
      case (4 parsed)
      obtain oc i e where r: "process_parsed w ps (row_of t) parsed d = ((oc, i, e), d')" "res = Some (oc, i, e)"
        using 4 \<open>lockNextTranscript ps d = Inr (Some row)\<close> \<open>ps_faults ps BeginParse d = None\<close> assms t
        by (cases "process_parsed w ps (row_of t) parsed d") (auto simp: processNext_def)
      show ?thesis
        using r(1)
      proof (cases rule: process_parsed_cases)
        case (failed m)
        then show ?thesis using r(2) on_failed by blast
      next
        case (finished f)
        then show ?thesis using r(2) t on_finished by blast
      next
        case retried
        then show ?thesis using r(2) t on_retried by blast
      qed
    qed
  qed
qed

section \<open>The queue drains\<close>

text \<open>
  No transcript waits with as many attempts as the cap; \<^verbatim>\<open>queue_work\<close> bounds the passes the waiting
  transcripts can still take.
\<close>

definition queue_ok :: "Worker \<Rightarrow> database \<Rightarrow> bool" where
  "queue_ok w d \<longleftrightarrow>
     distinct (map dt_id (dispatch_transcripts d)) \<and>
     list_all (\<lambda>t. queued t \<longrightarrow> attempts_of t < wk_maxGeocodeAttempts w) (dispatch_transcripts d)"

definition row_work :: "Worker \<Rightarrow> dispatch_transcript \<Rightarrow> nat" where
  "row_work w t = (if queued t then nat (wk_maxGeocodeAttempts w - attempts_of t) else 0)"

definition queue_work :: "Worker \<Rightarrow> database \<Rightarrow> nat" where
  "queue_work w d = sum_list (map (row_work w) (dispatch_transcripts d))"

definition panic_free :: "database \<Rightarrow> bool" where
  "panic_free d \<longleftrightarrow> list_all (\<lambda>t. queued t \<longrightarrow> \<not> transcript_panics t) (dispatch_transcripts d)"

lemma sum_update_less:
  fixes g :: "'a \<Rightarrow> nat"
  assumes "distinct (map k rows)" "t \<in> set rows" "g (f t) < g t"
  shows "sum_list (map g (update_where (\<lambda>x. k x = k t) f rows)) < sum_list (map g rows)"
  using assms(1,2)
proof (induction rows)
  case Nil
  then show ?case by simp
next
  case (Cons r rows)
  show ?case
  proof (cases "r = t")
    case True
    then have "update_where (\<lambda>x. k x = k t) f rows = rows"
      using Cons.prems by (intro update_where_none) (auto simp: image_iff)
    then show ?thesis using True assms(3) by (simp add: update_where_def)
  next
    case False
    then have "k r \<noteq> k t" using Cons.prems by auto
    then show ?thesis using False Cons by (simp add: update_where_def)
  qed
qed

lemma list_all_update:
  "list_all P rows \<Longrightarrow> (\<And>x. x \<in> set rows \<Longrightarrow> q x \<Longrightarrow> P x \<Longrightarrow> P (f x)) \<Longrightarrow> list_all P (update_where q f rows)"
  by (auto simp: list_all_iff update_where_def)

lemma next_transcriptD:
  "next_transcript locked d = Some t \<Longrightarrow> t \<in> set (dispatch_transcripts d) \<and> queued t \<and> dt_id t \<notin> set locked"
  by (auto simp: next_transcript_def dest!: max_by_SomeD)

lemma update_ids: "(\<And>x. dt_id (f x) = dt_id x) \<Longrightarrow> map dt_id (update_where q f rows) = map dt_id rows"
  by (rule map_update_where)

lemma panics_attempts [simp]:
  "transcript_panics (x\<lparr>dt_geocode_attempts := n\<rparr>) = transcript_panics x"
  by (simp add: transcript_panics_def row_of_def)

lemma processNext_queue:
  assumes "processNext w ps d = (Some (oc, i, None), d')" "queue_ok w d"
  shows "queue_ok w d' \<and> (panic_free d \<longrightarrow> panic_free d') \<and>
    (if oc = outcomeNoRows then d' = d else queue_work w d' < queue_work w d)"
  using assms(1)
proof (cases rule: processNext_cases)
  case idle
  then show ?thesis using assms(2) by simp
next
  case (finished t oc' f)
  let ?rows = "dispatch_transcripts d"
  note t = next_transcriptD [OF finished(2)]
  have f: "dt_id (f x) = dt_id x" "\<not> queued (f x)" for x
    using finished(4) by (auto simp: finishing_def queued_def)
  have "0 < row_work w t" using t assms(2) by (auto simp: row_work_def queue_ok_def list_all_iff)
  then have "row_work w (f t) < row_work w t" using f by (simp add: row_work_def)
  then have "queue_work w d' < queue_work w d"
    using sum_update_less [of dt_id ?rows t "row_work w" f] t assms(2) finished(5)
    by (simp add: queue_work_def queue_ok_def)
  moreover have "queue_ok w d'"
    using assms(2) finished(5) f by (auto simp: queue_ok_def update_ids intro!: list_all_update)
  moreover have "panic_free d \<longrightarrow> panic_free d'"
    using finished(5) f by (auto simp: panic_free_def intro!: list_all_update)
  ultimately show ?thesis using finished(1,3) by simp
next
  case (retried t)
  let ?rows = "dispatch_transcripts d"
  let ?f = "\<lambda>x. x\<lparr>dt_geocode_attempts := Some (attempts_of t + 1)\<rparr>"
  note t = next_transcriptD [OF retried(2)]
  have f: "dt_id (?f x) = dt_id x" "queued (?f x) = queued x" "attempts_of (?f x) = attempts_of t + 1" for x
    by (simp_all add: queued_def attempts_of_def)
  have "row_work w (?f t) < row_work w t" using t retried(3) f [of t] by (simp add: row_work_def)
  then have "queue_work w d' < queue_work w d"
    using sum_update_less [of dt_id ?rows t "row_work w" ?f] t assms(2) retried(4)
    by (simp add: queue_work_def queue_ok_def)
  moreover have "queue_ok w d'"
    using assms(2) retried(3,4) f by (auto simp: queue_ok_def update_ids intro!: list_all_update)
  moreover have "panic_free d \<longrightarrow> panic_free d'"
    using retried(4) f by (auto simp: panic_free_def intro!: list_all_update)
  ultimately show ?thesis using retried(1) by simp
qed simp_all

lemma processNext_failed:
  "processNext w ps d = (Some (oc, i, Some m), d') \<Longrightarrow> dispatch_transcripts d' = dispatch_transcripts d"
  by (erule processNext_cases) (auto simp: only_cache_def)

lemma queue_cong:
  "dispatch_transcripts d' = dispatch_transcripts d \<Longrightarrow>
   queue_ok w d' = queue_ok w d \<and> queue_work w d' = queue_work w d \<and> panic_free d' = panic_free d"
  by (simp add: queue_ok_def queue_work_def panic_free_def)

definition stats_ok :: "BatchStats \<Rightarrow> bool" where
  "stats_ok s \<longleftrightarrow>
     0 \<le> bs_BatchSize s \<and> bs_BatchSize s = bs_GatePassCount s + bs_GateFailCount s \<and>
     bs_GatePassCount s = bs_GeocodePassCount s + bs_GeocodeFailCount s \<and>
     bs_IncidentsInserted s = bs_GeocodePassCount s \<and>
     0 \<le> bs_StaleCaptureCount s \<and> bs_StaleCaptureCount s \<le> bs_GateFailCount s \<and>
     0 \<le> bs_GeocodePassCount s \<and> 0 \<le> bs_GeocodeFailCount s"

lemma stats_ok_count:
  "stats_ok s \<Longrightarrow> oc \<noteq> outcomeNoRows \<Longrightarrow>
   stats_ok (count_outcome oc (s\<lparr>bs_BatchSize := bs_BatchSize s + 1, bs_LastProcessedTranscript := i\<rparr>)) \<and>
   bs_BatchSize (count_outcome oc (s\<lparr>bs_BatchSize := bs_BatchSize s + 1, bs_LastProcessedTranscript := i\<rparr>)) =
     bs_BatchSize s + 1"
  by (cases oc) (auto simp: stats_ok_def)

lemma process_loop_stats:
  assumes "process_loop n w ps k s d = (Some (s', e), d')" "stats_ok s" "queue_ok w d"
  shows "stats_ok s' \<and> queue_ok w d' \<and> (panic_free d \<longrightarrow> panic_free d') \<and> bs_BatchSize s \<le> bs_BatchSize s' \<and>
    bs_BatchSize s' \<le> bs_BatchSize s + int n \<and>
    int (queue_work w d') + (bs_BatchSize s' - bs_BatchSize s) \<le> int (queue_work w d)"
  using assms
proof (induction n w ps k s d rule: process_loop.induct)
  case (1 w ps k s d)
  then show ?case by simp
next
  case (2 n w ps k s d)
  obtain res d1 where p: "processNext w (ps k) d = (res, d1)" by fastforce
  with "2.prems"(1) obtain oc i e1 where res: "res = Some (oc, i, e1)"
    by (cases res) auto
  show ?case
  proof (cases e1)
    case (Some m)
    then have "s' = s" "d' = d1" using "2.prems"(1) p res by auto
    then show ?thesis
      using queue_cong [OF processNext_failed [OF p [unfolded res Some]], of w] "2.prems"(2,3) by simp
  next
    case None
    note q = processNext_queue [OF p [unfolded res None] "2.prems"(3)]
    show ?thesis
    proof (cases "oc = outcomeNoRows")
      case True
      then show ?thesis using "2.prems" p res None q by simp
    next
      case False
      let ?s1 = "count_outcome oc (s\<lparr>bs_BatchSize := bs_BatchSize s + 1, bs_LastProcessedTranscript := i\<rparr>)"
      note c = stats_ok_count [OF "2.prems"(2) False, of i]
      show ?thesis
      proof (cases "oc = outcomeGeocodeRetry")
        case True
        then show ?thesis using "2.prems" p res None q c False by auto
      next
        case f2: False
        have "process_loop n w ps (Suc k) ?s1 d1 = (Some (s', e), d')"
          using "2.prems"(1) p res None False f2 by (simp add: Let_def)
        then show ?thesis
          using "2.IH" [OF p [symmetric] res refl refl None False refl f2] c q False by auto
      qed
    qed
  qed
qed

text \<open>A pass in which nothing outside the worker interferes.\<close>

definition undisturbed :: "pass \<Rightarrow> bool" where
  "undisturbed ps \<longleftrightarrow> ps_faults ps = no_faults \<and> ps_locked ps = []"

lemma insert_sdr_units_no_faults:
  "ps_faults ps = no_faults \<Longrightarrow> \<exists>d'. insert_sdr_units ps iid now pid us d = Inr d'"
  by (induction us arbitrary: d) (simp_all add: no_faults_def)

lemma insertIncident_no_faults:
  assumes "ps_faults ps = no_faults"
  shows "\<exists>i d'. insertIncident ps row p g d = Inr (i, d')"
proof -
  have nf: "ps_faults ps c x = None" for c x using assms by (simp add: no_faults_def)
  obtain pid d1 where p: "insertParserPoll ps (ps_insert_now ps) d = Inr (pid, d1)"
    by (simp add: insertParserPoll_def nf)
  obtain j d2 where u: "upsert_sdr (sdr_row (seq_incident d1) row p g (ps_insert_now ps) pid) d1 = (j, d2)"
    by fastforce
  obtain d3 where "insert_sdr_units ps (sdr_incident_id (tr_ID row)) (ps_insert_now ps) pid (pd_Units p) d2 = Inr d3"
    using insert_sdr_units_no_faults [OF assms] by blast
  then show ?thesis using p u by (simp add: insertIncident_def Let_def nf)
qed

lemma commit_tx_no_faults:
  "ps_faults ps = no_faults \<Longrightarrow> commit_tx ps oc i d (Inr d') = ((oc, i, None), d')"
  by (simp add: commit_tx_def no_faults_def)

lemma mark_no_faults:
  assumes "ps_faults ps = no_faults"
  shows "\<exists>d'. markTranscriptParsed ps i x d = Inr d'"
    "\<exists>d'. markTranscriptParsedAfterGeocodeAttempts ps i x n d = Inr d'"
    "\<exists>d'. recordTranscriptGeocodeAttempt ps i n d = Inr d'"
  using assms
  by (simp_all add: no_faults_def markTranscriptParsed_def markTranscriptParsedAfterGeocodeAttempts_def
      recordTranscriptGeocodeAttempt_def)

lemma commit_mark_no_faults:
  assumes "ps_faults ps = no_faults"
  shows "fst (commit_tx ps oc i d (markTranscriptParsed ps i x d0)) = (oc, i, None)"
    "fst (commit_tx ps oc i d (markTranscriptParsedAfterGeocodeAttempts ps i x n d0)) = (oc, i, None)"
    "fst (commit_tx ps oc i d (recordTranscriptGeocodeAttempt ps i n d0)) = (oc, i, None)"
  using mark_no_faults [OF assms] commit_tx_no_faults [OF assms] by (metis fst_conv)+

lemma process_parsed_no_faults:
  assumes "ps_faults ps = no_faults"
  shows "\<exists>oc. fst (process_parsed w ps row p d) = (oc, tr_ID row, None)"
proof -
  obtain r d1 where g: "geocode_pass ps (pd_LocationText p) d = (r, d1)" by fastforce
  show ?thesis
  proof (cases r)
    case (Inl e)
    then show ?thesis
      using g by (simp add: process_parsed_def Let_def commit_mark_no_faults [OF assms])
  next
    case (Inr geo)
    obtain i d2 where "insertIncident ps row p geo d1 = Inr (i, d2)"
      using insertIncident_no_faults [OF assms] by blast
    then show ?thesis
      using g Inr mark_no_faults(1) [OF assms, of "tr_ID row" "Some i" d2]
      by (auto simp: process_parsed_def Let_def commit_tx_no_faults [OF assms])
  qed
qed

lemma processNext_undisturbed:
  assumes "undisturbed ps" "panic_free d"
  shows "\<exists>oc i d'. processNext w ps d = (Some (oc, i, None), d')"
proof -
  have nf: "ps_faults ps = no_faults" "no_faults c x = None" for c x
    using assms(1) by (simp_all add: undisturbed_def no_faults_def)
  obtain res d' where p: "processNext w ps d = (res, d')" by fastforce
  have lock: "lockNextTranscript ps d = Inr (map_option row_of (next_transcript (ps_locked ps) d))"
    by (simp add: lockNextTranscript_def nf no_faults_def)
  show ?thesis
  proof (cases "next_transcript (ps_locked ps) d")
    case None
    then show ?thesis by (simp add: processNext_def lock nf commit_tx_no_faults)
  next
    case (Some t)
    have "\<not> transcript_panics t"
      using next_transcriptD [OF Some] assms(2) by (auto simp: panic_free_def list_all_iff)
    then obtain r where r: "ParseTranscript (tr_DisplayText (row_of t)) (tr_VerificationConfidence (row_of t)) = Some r"
      by (auto simp: transcript_panics_def row_of_def)
    show ?thesis
    proof (cases "staleCapture w ps (tr_CapturedAt (row_of t))")
      case True
      then show ?thesis
        using commit_mark_no_faults(1) [OF nf(1), of outcomeStaleCapture "tr_ID (row_of t)" d None d] Some
        by (cases "commit_tx ps outcomeStaleCapture (tr_ID (row_of t)) d (markTranscriptParsed ps (tr_ID (row_of t)) None d)")
          (simp add: processNext_def lock nf)
    next
      case False
      show ?thesis
      proof (cases r)
        case (Inl reason)
        then show ?thesis
          using commit_mark_no_faults(1) [OF nf(1), of outcomeGateFailed "tr_ID (row_of t)" d None d] Some False r
          by (cases "commit_tx ps outcomeGateFailed (tr_ID (row_of t)) d (markTranscriptParsed ps (tr_ID (row_of t)) None d)")
            (simp add: processNext_def lock nf)
      next
        case (Inr parsed)
        then show ?thesis
          using process_parsed_no_faults [OF nf(1), of w "row_of t" parsed d] Some False r
          by (cases "process_parsed w ps (row_of t) parsed d") (auto simp: processNext_def lock nf)
      qed
    qed
  qed
qed

lemma next_transcript_None:
  "next_transcript [] d = None \<longleftrightarrow> filter queued (dispatch_transcripts d) = []"
  by (simp add: next_transcript_def)

lemma queue_work_0:
  assumes "queue_ok w d"
  shows "queue_work w d = 0 \<longleftrightarrow> filter queued (dispatch_transcripts d) = []"
proof -
  have "queue_work w d = 0 \<longleftrightarrow> (\<forall>t \<in> set (dispatch_transcripts d). row_work w t = 0)"
    by (simp add: queue_work_def)
  also have "\<dots> \<longleftrightarrow> (\<forall>t \<in> set (dispatch_transcripts d). \<not> queued t)"
    using assms by (intro ball_cong) (auto simp: row_work_def queue_ok_def list_all_iff)
  finally show ?thesis by (simp add: filter_empty_conv)
qed

lemma process_loop_undisturbed:
  assumes "\<And>k. undisturbed (ps k)" "panic_free d" "queue_ok w d"
  shows "\<exists>s' d'. process_loop n w ps k s d = (Some (s', None), d')"
  using assms(2,3)
proof (induction n arbitrary: k s d)
  case 0
  then show ?case by simp
next
  case (Suc n)
  obtain oc i d1 where p: "processNext w (ps k) d = (Some (oc, i, None), d1)"
    using processNext_undisturbed [OF assms(1) Suc.prems(1)] by blast
  have "queue_ok w d1" "panic_free d1" using processNext_queue [OF p Suc.prems(2)] Suc.prems(1) by auto
  then show ?case using p Suc.IH by (auto simp: Let_def)
qed

lemma process_loop_progress:
  assumes "process_loop (Suc n) w ps k s d = (Some (s', None), d')" "stats_ok s" "queue_ok w d"
    "undisturbed (ps k)" "0 < queue_work w d"
  shows "bs_BatchSize s < bs_BatchSize s'"
proof -
  obtain res d1 where p: "processNext w (ps k) d = (res, d1)" by fastforce
  with assms(1) obtain oc i where res: "res = Some (oc, i, None)"
    by (cases res) (auto split: option.splits)
  have "oc \<noteq> outcomeNoRows"
  proof
    assume "oc = outcomeNoRows"
    with p res have "next_transcript (ps_locked (ps k)) d = None" by (auto elim: processNext_cases)
    then show False
      using assms(3-5) queue_work_0 [OF assms(3)] by (simp add: undisturbed_def next_transcript_None)
  qed
  note q = processNext_queue [OF p [unfolded res] assms(3)]
  let ?s1 = "count_outcome oc (s\<lparr>bs_BatchSize := bs_BatchSize s + 1, bs_LastProcessedTranscript := i\<rparr>)"
  note c = stats_ok_count [OF assms(2) \<open>oc \<noteq> outcomeNoRows\<close>, of i]
  show ?thesis
  proof (cases "oc = outcomeGeocodeRetry")
    case True
    then show ?thesis using assms(1) p res c by simp
  next
    case False
    then have "process_loop n w ps (Suc k) ?s1 d1 = (Some (s', None), d')"
      using assms(1) p res \<open>oc \<noteq> outcomeNoRows\<close> by (simp add: Let_def)
    then show ?thesis using process_loop_stats [of n w ps "Suc k" ?s1 d1 s' None d'] c q by auto
  qed
qed

lemma empty_stats_ok [simp]: "stats_ok empty_stats" "bs_BatchSize empty_stats = 0"
  by (simp_all add: stats_ok_def empty_stats_def)

lemma stats_ok_duration [simp]: "stats_ok (s\<lparr>bs_BatchDuration := x\<rparr>) = stats_ok s"
  by (simp add: stats_ok_def)

text \<open>
  What a batch reports and what it does agree, faults or not: it takes at most the limit (50
  when none is given), every transcript taken either fails the gate or passes it, every one that
  passes is geocoded or not, the inserted incidents are the geocoded ones; and each transcript taken
  uses up at least one of the passes its transcripts still had.
\<close>

theorem ProcessBatch_accounting:
  assumes "ProcessBatch w ps elapsed limit d = (Some (s, e), d')" "queue_ok w d"
  shows "stats_ok s \<and> queue_ok w d' \<and> bs_BatchSize s \<le> (if limit \<le> 0 then 50 else limit) \<and>
    int (queue_work w d') + bs_BatchSize s \<le> int (queue_work w d)"
proof -
  let ?n = "nat (if limit \<le> 0 then 50 else limit)"
  obtain s0 where l: "process_loop ?n w ps 0 empty_stats d = (Some (s0, e), d')" "s = s0\<lparr>bs_BatchDuration := elapsed\<rparr>"
    using assms(1) by (cases "process_loop ?n w ps 0 empty_stats d") (auto simp: ProcessBatch_def Let_def)
  show ?thesis
    using process_loop_stats [OF l(1) _ assms(2)] l(2) by (auto split: if_splits)
qed

lemma ProcessBatch_undisturbed:
  assumes "\<And>k. undisturbed (ps k)" "panic_free d" "queue_ok w d"
  shows "\<exists>s d'. ProcessBatch w ps elapsed 50 d = (Some (s, None), d') \<and> queue_ok w d' \<and> panic_free d' \<and>
    (0 < queue_work w d \<longrightarrow> queue_work w d' < queue_work w d) \<and> queue_work w d' \<le> queue_work w d"
proof -
  have n: "nat (if (50::int) \<le> 0 then 50 else 50) = Suc 49" by simp
  obtain s d' where l: "process_loop (Suc 49) w ps 0 empty_stats d = (Some (s, None), d')"
    using process_loop_undisturbed [of ps d w "Suc 49" 0 empty_stats] assms by blast
  note st = process_loop_stats [OF l empty_stats_ok(1) assms(3)]
  have "0 < bs_BatchSize s" if "0 < queue_work w d"
    using process_loop_progress [OF l empty_stats_ok(1) assms(3) assms(1) that] by simp
  then show ?thesis
    using l st assms(2) by (auto simp: ProcessBatch_def Let_def n simp del: process_loop.simps)
qed

text \<open>
  C9. The worker empties its queue: when no fault, no other worker and no panic interferes, as many
  rounds as there is work leave no transcript unparsed, however the geocoder behaves and whatever
  the clocks say. With a retry cap of N the work is at most N passes for each waiting transcript.
\<close>

theorem Run_drains_queue:
  assumes "list_all (\<lambda>(ps, _). \<forall>k. undisturbed (ps k)) rounds" "queue_ok w d" "panic_free d"
    "queue_work w d \<le> length rounds"
  shows "\<exists>waits d'. Run w interval rounds d = (Some waits, d') \<and> length waits = length rounds \<and>
    filter queued (dispatch_transcripts d') = []"
  using assms
proof (induction rounds arbitrary: d)
  case Nil
  then show ?case using queue_work_0 [of w d] by simp
next
  case (Cons r rounds)
  obtain ps el where r: "r = (ps, el)" by (cases r)
  obtain s d1 where b: "ProcessBatch w ps el 50 d = (Some (s, None), d1)" "queue_ok w d1" "panic_free d1"
    "0 < queue_work w d \<Longrightarrow> queue_work w d1 < queue_work w d" "queue_work w d1 \<le> queue_work w d"
    using ProcessBatch_undisturbed [of ps d w el] Cons.prems r by auto
  have "queue_work w d1 \<le> length rounds"
    using b(4,5) Cons.prems(4) by (cases "queue_work w d") auto
  then obtain waits d' where "Run w interval rounds d1 = (Some waits, d')" "length waits = length rounds"
    "filter queued (dispatch_transcripts d') = []"
    using Cons.IH [of d1] Cons.prems(1) b by auto
  then show ?case using b r by (simp add: Let_def)
qed

section \<open>Integrity\<close>

lemma db_ok_other_tables [simp]:
  "db_ok (d\<lparr>geocode_cache := gc\<rparr>) = db_ok d"
  "db_ok (d\<lparr>dispatch_transcripts := ts\<rparr>) = db_ok d"
  by (simp_all add: db_ok_def keys_ok_def refs_ok_def)

lemma only_cache_ok: "only_cache d d' \<Longrightarrow> db_ok d' = db_ok d"
  by (auto simp: only_cache_def)

lemma sdr_conflict_row_key [simp]:
  "incident_key (sdr_conflict_row new r) = incident_key new" "ir_id (sdr_conflict_row new r) = ir_id r"
  "ir_last_seen_poll_id (sdr_conflict_row new r) = ir_last_seen_poll_id new"
  by (simp_all add: sdr_conflict_row_def incident_key_def)

lemma upsert_sdr_find:
  "find_incident (ir_source new) (ir_incident_id new) (snd (upsert_sdr new d)) =
     Some (case find_incident (ir_source new) (ir_incident_id new) d of
             None \<Rightarrow> new | Some r \<Rightarrow> sdr_conflict_row new r)"
proof (cases "find_incident (ir_source new) (ir_incident_id new) d")
  case None
  then show ?thesis by (simp add: upsert_sdr_def find_incident_def find_append)
next
  case (Some r)
  have "List.find (\<lambda>r. ir_source r = ir_source new \<and> ir_incident_id r = ir_incident_id new)
      (update_where (\<lambda>r. ir_source r = ir_source new \<and> ir_incident_id r = ir_incident_id new)
         (sdr_conflict_row new) (incidents d)) = Some (sdr_conflict_row new r)"
    using Some by (subst find_update_matched) (auto simp: find_incident_def sdr_conflict_row_def)
  then show ?thesis using Some by (simp add: upsert_sdr_def find_incident_def)
qed

lemma upsert_sdr_id:
  "ir_id r = fst (upsert_sdr new d)" if "find_incident (ir_source new) (ir_incident_id new) (snd (upsert_sdr new d)) = Some r"
  using that upsert_sdr_find [of new d] by (auto simp: upsert_sdr_def sdr_conflict_row_def split: option.splits)

lemma upsert_sdr_ok:
  assumes "db_ok d" "poll_known (ir_last_seen_poll_id new) d" "ir_id new = seq_incident d"
  shows "db_ok (snd (upsert_sdr new d))"
proof (cases "find_incident (ir_source new) (ir_incident_id new) d")
  case None
  then have "incident_key new \<notin> incident_key ` set (incidents d)"
    by (simp add: find_incident_None incident_key_def)
  then show ?thesis
    using assms None by (fastforce simp: upsert_sdr_def db_ok_defs list_all_iff)
next
  case (Some r)
  let ?q = "\<lambda>r. ir_source r = ir_source new \<and> ir_incident_id r = ir_incident_id new"
  let ?f = "\<lambda>r. if ?q r then sdr_conflict_row new r else r"
  have "db_ok (d\<lparr>incidents := update_where ?q ?f (incidents d)\<rparr>)"
    using assms(1,2) by (intro update_incidents_ok) (auto simp: incident_key_def sdr_conflict_row_def)
  then show ?thesis
    using Some update_where_guard [of ?q "sdr_conflict_row new" "incidents d"] by (simp add: upsert_sdr_def)
qed

lemma upsert_sdr_known:
  "incident_known (ir_source new) (ir_incident_id new) (snd (upsert_sdr new d))"
  using upsert_sdr_find [of new d] find_incident_None [of "ir_source new" "ir_incident_id new" "snd (upsert_sdr new d)"]
  by (simp add: incident_known_def)

lemma insert_sdr_units_ok:
  "insert_sdr_units ps iid now pid us d = Inr d' \<Longrightarrow> db_ok d \<Longrightarrow> poll_known pid d \<Longrightarrow>
   incident_known sdr_source iid d \<Longrightarrow> db_ok d'"
proof (induction us arbitrary: d)
  case Nil
  then show ?case by simp
next
  case (Cons u us)
  let ?d = "d\<lparr>incident_units := incident_units d @
                 [\<lparr>iu_id = seq_unit d, iu_source = sdr_source, iu_incident_id = iid,
                   iu_unit = eu_UnitName u, iu_status = ''Dispatched'', iu_first_observed_at = now,
                   iu_last_observed_at = now, iu_first_poll_id = pid, iu_last_poll_id = pid\<rparr>],
               seq_unit := seq_unit d + 1\<rparr>"
  have "insert_sdr_units ps iid now pid us ?d = Inr d'" using Cons.prems(1) by (auto split: option.splits)
  moreover have "db_ok ?d" using Cons.prems(2-4) by (auto simp: db_ok_defs list_all_iff)
  ultimately show ?case using Cons.IH [of ?d] Cons.prems(3,4) by simp
qed

lemma insertIncident_elim:
  assumes "insertIncident ps row p g d = Inr (i, d')"
  obtains d1 d2 where
    "d1 = d\<lparr>source_polls := source_polls d @ [parser_poll (seq_poll d) (ps_insert_now ps)], seq_poll := seq_poll d + 1\<rparr>"
    "upsert_sdr (sdr_row (seq_incident d) row p g (ps_insert_now ps) (seq_poll d)) d1 = (i, d2)"
    "insert_sdr_units ps (sdr_incident_id (tr_ID row)) (ps_insert_now ps) (seq_poll d) (pd_Units p) d2 = Inr d'"
proof -
  let ?d1 = "d\<lparr>source_polls := source_polls d @ [parser_poll (seq_poll d) (ps_insert_now ps)], seq_poll := seq_poll d + 1\<rparr>"
  have p: "insertParserPoll ps (ps_insert_now ps) d = Inr (seq_poll d, ?d1)"
    using assms by (cases "ps_faults ps ParserPollStmt d") (auto simp: insertIncident_def insertParserPoll_def Let_def)
  obtain j d2 where u: "upsert_sdr (sdr_row (seq_incident d) row p g (ps_insert_now ps) (seq_poll d)) ?d1 = (j, d2)"
    by fastforce
  then show ?thesis
    using assms p by (intro that [of ?d1 d2]) (auto simp: insertIncident_def Let_def split: option.splits sum.splits)
qed

lemma insertIncident_ok:
  assumes "insertIncident ps row p g d = Inr (i, d')" "db_ok d"
  shows "db_ok d'"
  using assms(1)
proof (cases rule: insertIncident_elim)
  case (1 d1 d2)
  let ?new = "sdr_row (seq_incident d) row p g (ps_insert_now ps) (seq_poll d)"
  have new: "ir_source ?new = sdr_source" "ir_incident_id ?new = sdr_incident_id (tr_ID row)"
    "ir_last_seen_poll_id ?new = seq_poll d" "ir_id ?new = seq_incident d"
    by (simp_all add: sdr_row_def)
  have "db_ok d1" "poll_known (seq_poll d) d1" "seq_incident d1 = seq_incident d"
    using assms(2) 1(1)
    by (simp_all add: db_ok_def keys_ok_append_poll refs_ok_append_poll parser_poll_def poll_known_def)
  then have d2: "db_ok d2" "incident_known sdr_source (sdr_incident_id (tr_ID row)) d2"
    using upsert_sdr_ok [of d1 ?new] upsert_sdr_known [of ?new d1] 1(2) new by simp_all
  have "source_polls d2 = source_polls d1"
    using upsert_sdr_frame [of ?new d1] 1(2) by auto
  then have "poll_known (seq_poll d) d2" using \<open>poll_known (seq_poll d) d1\<close> by (simp add: poll_known_def)
  then show ?thesis using insert_sdr_units_ok [OF 1(3)] d2 by blast
qed

lemma mark_ok:
  "markTranscriptParsed ps i x d = Inr d' \<Longrightarrow> db_ok d' = db_ok d"
  "markTranscriptParsedAfterGeocodeAttempts ps i x n d = Inr d' \<Longrightarrow> db_ok d' = db_ok d"
  "recordTranscriptGeocodeAttempt ps i n d = Inr d' \<Longrightarrow> db_ok d' = db_ok d"
  by (auto simp: markTranscriptParsed_def markTranscriptParsedAfterGeocodeAttempts_def
      recordTranscriptGeocodeAttempt_def update_transcript_def split: option.splits)

lemma commit_tx_ok:
  "db_ok d \<Longrightarrow> (\<And>x. res = Inr x \<Longrightarrow> db_ok x) \<Longrightarrow> db_ok (snd (commit_tx ps oc i d res))"
  by (auto simp: commit_tx_def split: sum.split option.split)

lemma process_parsed_ok:
  assumes "db_ok d"
  shows "db_ok (snd (process_parsed w ps row p d))"
proof -
  obtain r d1 where g: "geocode_pass ps (pd_LocationText p) d = (r, d1)" by fastforce
  have d1: "db_ok d1" using only_cache_ok [OF geocode_pass_frame [OF g]] assms by simp
  show ?thesis
  proof (cases r)
    case (Inl e)
    then show ?thesis
      using g d1 mark_ok by (auto simp: process_parsed_def Let_def intro!: commit_tx_ok)
  next
    case (Inr geo)
    have "db_ok x" if "(case insertIncident ps row p geo d1 of Inl e \<Rightarrow> Inl e
        | Inr (dbid, d2) \<Rightarrow> markTranscriptParsed ps (tr_ID row) (Some dbid) d2) = Inr x" for x
      using that insertIncident_ok [OF _ d1] mark_ok(1) by (fastforce split: sum.splits)
    then show ?thesis
      using g d1 Inr by (auto simp: process_parsed_def Let_def intro!: commit_tx_ok)
  qed
qed

lemma processNext_ok:
  assumes "db_ok d"
  shows "db_ok (snd (processNext w ps d))"
  using assms mark_ok process_parsed_ok [OF assms]
  by (auto simp: processNext_def intro!: commit_tx_ok split: option.split sum.split)

lemma process_loop_ok: "db_ok d \<Longrightarrow> db_ok (snd (process_loop n w ps k s d))"
proof (induction n w ps k s d rule: process_loop.induct)
  case (2 n w ps k s d)
  have "db_ok (snd (processNext w (ps k) d))" by (rule processNext_ok [OF "2.prems"])
  then show ?case
    using "2.IH" by (auto simp: Let_def split: prod.split option.split)
qed simp

lemma ProcessBatch_ok: "db_ok d \<Longrightarrow> db_ok (snd (ProcessBatch w ps el limit d))"
  by (simp add: ProcessBatch_def Let_def process_loop_ok)

text \<open>
  The worker keeps the keys and references of the database intact through any rounds, whatever
  statements and commits fail, whatever other workers lock, and when the parser panics.
\<close>

theorem Run_keeps_integrity:
  assumes "db_ok d"
  shows "db_ok (snd (Run w interval rounds d))"
  using assms
proof (induction rounds arbitrary: d)
  case Nil
  then show ?case by simp
next
  case (Cons r rounds)
  obtain ps el where r: "r = (ps, el)" by (cases r)
  obtain res d1 where b: "ProcessBatch w ps el 50 d = (res, d1)" by fastforce
  have "db_ok d1" using ProcessBatch_ok [OF Cons.prems, of w ps el 50] b by simp
  then show ?case
    using Cons.IH [of d1] r b by (auto simp: Let_def split: option.split prod.split)
qed

definition sample_transcript :: "int \<Rightarrow> string \<Rightarrow> dispatch_transcript" where
  "sample_transcript i txt =
     \<lparr>dt_id = i, dt_wav_filename = ''a.wav'', dt_captured_at = 0, dt_received_at = 0,
      dt_audio_duration_s = None, dt_display_text = txt, dt_primary_text = None,
      dt_secondary_text = None, dt_primary_model = None, dt_secondary_model = None,
      dt_primary_avg_logprob = None, dt_verification_confidence = Some (Fin 1),
      dt_verification_agreement = None, dt_review_recommended = False,
      dt_domain_keyword_matches = [], dt_domain_keyword_ratio = None, dt_raw_payload = ''{}'',
      dt_parsed_incident_id = None, dt_parsed_at = None, dt_geocode_attempts = None\<rparr>"

definition sample_queue :: "string \<Rightarrow> database" where
  "sample_queue txt = empty_db\<lparr>dispatch_transcripts := [sample_transcript 1 txt], seq_transcript := 2\<rparr>"

definition sample_worker :: Worker where
  "sample_worker = NewWorker \<lparr>wo_MaxAge = 0, wo_MaxGeocodeAttempts = 0\<rparr>"

definition sample_pass :: pass where
  "sample_pass =
     \<lparr>ps_now = 5, ps_geocode_now = 5, ps_insert_now = 6, ps_db_now = 7, ps_locked = [],
      ps_faults = no_faults, ps_provider = (\<lambda>_. Inr \<lparr>geo_Lon = - 112, geo_Lat = 33\<rparr>)\<rparr>"

lemma sample_queue_facts:
  "next_transcript [] (sample_queue txt) = Some (sample_transcript 1 txt)"
  "queue_ok sample_worker (sample_queue txt)" "queue_work sample_worker (sample_queue txt) = 5"
  "\<not> staleCapture sample_worker sample_pass (dt_captured_at (sample_transcript 1 txt))"
  "undisturbed sample_pass" "db_ok (sample_queue txt)"
  "panic_free (sample_queue txt) \<longleftrightarrow> ParseTranscript txt (Fin 1) \<noteq> None"
  "transcript_panics (sample_transcript 1 txt) \<longleftrightarrow> ParseTranscript txt (Fin 1) = None"
  using empty_db_ok
  by (simp_all add: next_transcript_def sample_queue_def sample_transcript_def queued_def attempts_of_def
      empty_db_def queue_ok_def queue_work_def row_work_def sample_worker_def NewWorker_def
      defaultGeocodeMaxAttempts_def defaultDispatchMaxAge_def staleCapture_def sample_pass_def
      undisturbed_def Sub_def hour_def minute_def second_def max_duration_def min_duration_def
      panic_free_def transcript_panics_def row_of_def db_ok_def keys_ok_def refs_ok_def)

theorem Run_keeps_integrity_witness:
  "db_ok (snd (Run sample_worker 0 [(\<lambda>_. sample_pass, 0), (\<lambda>_. sample_pass, 3)] (sample_queue ''x'')))"
  by (rule Run_keeps_integrity) (rule sample_queue_facts)

lemma short_transcript: "ParseTranscript ''x'' (Fin 1) = Some (Inl ''missing_cdec'')"
  by code_simp

theorem Run_drains_queue_witness:
  "\<exists>waits d'. Run sample_worker 0 (replicate 5 (\<lambda>_. sample_pass, 0)) (sample_queue ''x'') = (Some waits, d') \<and>
     length waits = length (replicate 5 (\<lambda>_::nat. sample_pass, 0::int)) \<and> filter queued (dispatch_transcripts d') = []"
  by (rule Run_drains_queue) (simp_all add: sample_queue_facts short_transcript list_all_iff)

theorem ProcessBatch_accounting_witness:
  "\<exists>s e d'. ProcessBatch sample_worker (\<lambda>_. sample_pass) 3 0 (sample_queue ''x'') = (Some (s, e), d') \<and>
     stats_ok s \<and> queue_ok sample_worker d' \<and> bs_BatchSize s \<le> (if (0::int) \<le> 0 then 50 else 0) \<and>
     int (queue_work sample_worker d') + bs_BatchSize s \<le> int (queue_work sample_worker (sample_queue ''x''))"
proof -
  obtain s d' where "process_loop 50 sample_worker (\<lambda>_. sample_pass) 0 empty_stats (sample_queue ''x'') = (Some (s, None), d')"
    using process_loop_undisturbed [of "\<lambda>_. sample_pass" "sample_queue ''x''" sample_worker 50 0 empty_stats]
      sample_queue_facts short_transcript by auto
  then have "ProcessBatch sample_worker (\<lambda>_. sample_pass) 3 0 (sample_queue ''x'') =
      (Some (s\<lparr>bs_BatchDuration := 3\<rparr>, None), d')"
    by (simp add: ProcessBatch_def)
  then show ?thesis using ProcessBatch_accounting sample_queue_facts(2) by blast
qed

section \<open>A transcript that panics\<close>

fun restarts :: "Worker \<Rightarrow> duration \<Rightarrow> ((nat \<Rightarrow> pass) \<times> duration) list list \<Rightarrow> database \<Rightarrow> database" where
  "restarts w interval [] d = d"
| "restarts w interval (run # runs) d = restarts w interval runs (snd (Run w interval run d))"

definition reaches :: "Worker \<Rightarrow> dispatch_transcript \<Rightarrow> pass \<Rightarrow> bool" where
  "reaches w t ps \<longleftrightarrow> undisturbed ps \<and> \<not> staleCapture w ps (dt_captured_at t)"

lemma processNext_panics:
  assumes "next_transcript [] d = Some t" "transcript_panics t" "reaches w t ps"
  shows "processNext w ps d = (None, d)"
  using assms
  by (simp add: reaches_def undisturbed_def processNext_def lockNextTranscript_def no_faults_def
      transcript_panics_def row_of_def)

lemma Run_panics:
  assumes "next_transcript [] d = Some t" "transcript_panics t" "reaches w t (ps 0)"
  shows "Run w interval ((ps, el) # rounds) d = (None, d)"
proof -
  have "process_loop (Suc 49) w ps 0 empty_stats d = (None, d)"
    unfolding process_loop.simps using processNext_panics [OF assms] by simp
  then have "ProcessBatch w ps el 50 d = (None, d)"
    by (simp add: ProcessBatch_def del: process_loop.simps)
  then show ?thesis by (simp add: Let_def)
qed

text \<open>
  C27. A transcript at the head of the queue that makes the parser panic blocks the queue: each time
  the worker is restarted it takes the same transcript, dies, and leaves the database as it was, until
  the capture is older than the maximal age.
\<close>

theorem panic_blocks_queue:
  assumes "next_transcript [] d = Some t" "transcript_panics t"
    "list_all (\<lambda>run. case run of [] \<Rightarrow> True | (ps, _) # _ \<Rightarrow> reaches w t (ps 0)) runs"
  shows "restarts w interval runs d = d"
  using assms(3)
proof (induction runs)
  case Nil
  then show ?case by simp
next
  case (Cons run runs)
  have "snd (Run w interval run d) = d"
    using Cons.prems Run_panics [OF assms(1,2)] by (cases run) (auto split: prod.splits)
  then show ?case using Cons by simp
qed

theorem panic_blocks_queue_witness:
  "restarts sample_worker 0 [[(\<lambda>_. sample_pass, 0)], [(\<lambda>_. sample_pass, 0)]]
     (sample_queue ''AMR 2-14 CDEC 5 fall 1 n a st'') = sample_queue ''AMR 2-14 CDEC 5 fall 1 n a st''"
  by (rule panic_blocks_queue [of _ "sample_transcript 1 ''AMR 2-14 CDEC 5 fall 1 n a st''"])
    (simp_all add: sample_queue_facts amr_overlap_panics reaches_def)

section \<open>What a pass inserts\<close>

lemma apfst_Some_eq: "apfst Some x = (Some y, d') \<longleftrightarrow> x = (y, d')"
  by (cases x) auto

lemma commit_tx_outcome: "commit_tx ps oc j d0 res = ((outcomeInserted, i, None), d') \<Longrightarrow> oc = outcomeInserted"
  by (auto simp: commit_tx_def split: sum.splits option.splits)

lemma inserted_elim:
  assumes "processNext w ps d = (Some (outcomeInserted, i, None), d')"
  obtains t p where "next_transcript (ps_locked ps) d = Some t" "\<not> staleCapture w ps (dt_captured_at t)"
    "ParseTranscript (dt_display_text t) (tr_VerificationConfidence (row_of t)) = Some (Inr p)"
    "process_parsed w ps (row_of t) p d = ((outcomeInserted, i, None), d')"
proof -
  have row: "tr_CapturedAt (row_of t) = dt_captured_at t" "tr_DisplayText (row_of t) = dt_display_text t" for t
    by (simp_all add: row_of_def)
  show ?thesis
  proof (cases "next_transcript (ps_locked ps) d")
    case None
    then show ?thesis
      using assms by (auto simp: processNext_def lockNextTranscript_def apfst_Some_eq split: option.splits
          dest: commit_tx_outcome)
  next
    case (Some t)
    then show ?thesis
      using assms that [of t] by (auto simp: processNext_def lockNextTranscript_def apfst_Some_eq row
          split: option.splits sum.splits if_splits dest: commit_tx_outcome)
  qed
qed

lemma process_parsed_inserted:
  assumes "process_parsed w ps row p d = ((outcomeInserted, i, None), d')"
  obtains g d1 dbid d2 where "geocode_pass ps (pd_LocationText p) d = (Inr g, d1)" "i = tr_ID row"
    "insertIncident ps row p g d1 = Inr (dbid, d2)" "markTranscriptParsed ps i (Some dbid) d2 = Inr d'"
proof -
  obtain r d1 where g: "geocode_pass ps (pd_LocationText p) d = (r, d1)" by fastforce
  show ?thesis
  proof (cases r)
    case (Inl e)
    then show ?thesis
      using assms g by (auto simp: process_parsed_def Let_def split: if_splits dest: commit_tx_outcome)
  next
    case (Inr geo)
    let ?res = "case insertIncident ps row p geo d1 of Inl e \<Rightarrow> Inl e
                | Inr (dbid, d2) \<Rightarrow> markTranscriptParsed ps (tr_ID row) (Some dbid) d2"
    have "commit_tx ps outcomeInserted (tr_ID row) d1 ?res = ((outcomeInserted, i, None), d')"
      using assms g Inr by (simp add: process_parsed_def Let_def)
    then have "?res = Inr d'" "i = tr_ID row" by (auto elim: commit_tx_elim)
    then show ?thesis using g Inr that by (auto split: sum.splits)
  qed
qed

text \<open>\<^verbatim>\<open>shows_dispatch\<close>: the incident row carries the dispatch and its place, and is active.\<close>

definition shows_dispatch :: "ParsedDispatch \<Rightarrow> GeoResult \<Rightarrow> time \<Rightarrow> incident_row \<Rightarrow> bool" where
  "shows_dispatch p g captured r \<longleftrightarrow>
     ir_nature_desc r = pd_Nature p \<and> ir_units r = incidentUnitsJSON (pd_Units p) \<and>
     ir_channel r = pd_Channel p \<and> ir_location_text r = pd_LocationText p \<and>
     ir_lon r = geo_Lon g \<and> ir_lat r = geo_Lat g \<and> ir_incident_date r = captured \<and>
     ir_missing_since r = None \<and> ir_cleared_at r = None"

lemma insertIncident_row:
  assumes "insertIncident ps row p g d = Inr (i, d')"
  shows "\<exists>r. find_incident sdr_source (sdr_incident_id (tr_ID row)) d' = Some r \<and> ir_id r = i \<and>
    shows_dispatch p g (tr_CapturedAt row) r"
  using assms
proof (cases rule: insertIncident_elim)
  case (1 d1 d2)
  let ?new = "sdr_row (seq_incident d) row p g (ps_insert_now ps) (seq_poll d)"
  have new: "ir_source ?new = sdr_source" "ir_incident_id ?new = sdr_incident_id (tr_ID row)"
    by (simp_all add: sdr_row_def)
  have d2: "snd (upsert_sdr ?new d1) = d2" "fst (upsert_sdr ?new d1) = i" using 1(2) by simp_all
  obtain r where r: "find_incident sdr_source (sdr_incident_id (tr_ID row)) d2 = Some r"
      "shows_dispatch p g (tr_CapturedAt row) r"
    using upsert_sdr_find [of ?new d1] d2 new
    by (auto simp: shows_dispatch_def sdr_row_def sdr_conflict_row_def split: option.splits)
  then have "ir_id r = i" using upsert_sdr_id [of ?new d1 r] d2 new by simp
  moreover have "find_incident sdr_source (sdr_incident_id (tr_ID row)) d' =
      find_incident sdr_source (sdr_incident_id (tr_ID row)) d2"
    using insert_sdr_units_frame [OF 1(3)] by (auto intro: find_incident_cong)
  ultimately show ?thesis using r by auto
qed

text \<open>
  C25. A pass that reports an insertion took the first waiting transcript nobody else holds, not too
  old, whose text parses to a dispatch that the geocoder places; afterwards the active incident
  \<^verbatim>\<open>sdr-<id>\<close> carries exactly this dispatch and place, and the transcript is parsed and points to it.
\<close>

theorem processNext_inserts:
  assumes "processNext w ps d = (Some (outcomeInserted, i, None), d')"
  shows "\<exists>t p g r. next_transcript (ps_locked ps) d = Some t \<and> dt_id t = i \<and>
    \<not> staleCapture w ps (dt_captured_at t) \<and>
    ParseTranscript (dt_display_text t) (tr_VerificationConfidence (row_of t)) = Some (Inr p) \<and>
    fst (geocode_pass ps (pd_LocationText p) d) = Inr g \<and>
    find_incident sdr_source (sdr_incident_id i) d' = Some r \<and> shows_dispatch p g (dt_captured_at t) r \<and>
    list_all (\<lambda>x. dt_id x = i \<longrightarrow> \<not> queued x \<and> dt_parsed_incident_id x = Some (ir_id r)) (dispatch_transcripts d')"
  using assms
proof (cases rule: inserted_elim)
  case (1 t p)
  have row: "tr_ID (row_of t) = dt_id t" "tr_CapturedAt (row_of t) = dt_captured_at t"
    by (simp_all add: row_of_def)
  obtain g d1 dbid d2 where g: "geocode_pass ps (pd_LocationText p) d = (Inr g, d1)" "i = dt_id t"
    "insertIncident ps (row_of t) p g d1 = Inr (dbid, d2)" "markTranscriptParsed ps i (Some dbid) d2 = Inr d'"
    using process_parsed_inserted [OF 1(4)] row by metis
  obtain r where r: "find_incident sdr_source (sdr_incident_id i) d2 = Some r" "ir_id r = dbid"
    "shows_dispatch p g (dt_captured_at t) r"
    using insertIncident_row [OF g(3)] row g(2) by auto
  have d': "d' = update_transcript i (\<lambda>t. t\<lparr>dt_parsed_at := Some (ps_db_now ps), dt_parsed_incident_id := Some dbid\<rparr>) d2"
    using g(4) by (auto simp: markTranscriptParsed_def split: option.splits)
  then have "find_incident sdr_source (sdr_incident_id i) d' = Some r"
    using r(1) by (simp add: update_transcript_def find_incident_def)
  moreover have "list_all (\<lambda>x. dt_id x = i \<longrightarrow> \<not> queued x \<and> dt_parsed_incident_id x = Some (ir_id r)) (dispatch_transcripts d')"
    unfolding r(2) d' update_transcript_def
    by (simp add: update_where_def list.pred_map o_def queued_def) (simp add: list_all_iff)
  ultimately show ?thesis
    using 1(1-3) g(1,2) r(3) by (intro exI [of _ t] exI [of _ p] exI [of _ g] exI [of _ r]) simp
qed

lemma sample_insert:
  "\<exists>d'. processNext sample_worker sample_pass (sample_queue ''AMR 214 CDEC 5 fall 1 n a st'') =
     (Some (outcomeInserted, 1, None), d')"
proof -
  let ?d = "sample_queue ''AMR 214 CDEC 5 fall 1 n a st''" and ?t = "sample_transcript 1 ''AMR 214 CDEC 5 fall 1 n a st''"
  obtain p where p: "ParseTranscript ''AMR 214 CDEC 5 fall 1 n a st'' (Fin 1) = Some (Inr p)"
    using ParseTranscript_amr_plain by blast
  have geo: "\<exists>d1. geocode_pass sample_pass a ?d = (Inr \<lparr>geo_Lon = - 112, geo_Lat = 33\<rparr>, d1)" for a
    by (simp add: geocode_pass_def CachedGeocode_def ask_provider_def NewPostgresCache_def PostgresLookup_def
        PostgresStore_def no_faults_def find_geocode_def sample_queue_def empty_db_def sample_pass_def)
  have nf: "ps_faults sample_pass = no_faults" by (simp add: sample_pass_def)
  obtain d1 where d1: "geocode_pass sample_pass (pd_LocationText p) ?d = (Inr \<lparr>geo_Lon = - 112, geo_Lat = 33\<rparr>, d1)"
    using geo by blast
  obtain i d2 where d2: "insertIncident sample_pass (row_of ?t) p \<lparr>geo_Lon = - 112, geo_Lat = 33\<rparr> d1 = Inr (i, d2)"
    using insertIncident_no_faults [OF nf] by blast
  obtain d3 where d3: "markTranscriptParsed sample_pass 1 (Some i) d2 = Inr d3"
    using mark_no_faults(1) [OF nf] by blast
  have row: "tr_ID (row_of ?t) = 1" "tr_CapturedAt (row_of ?t) = 0" "tr_VerificationConfidence (row_of ?t) = Fin 1"
    "tr_DisplayText (row_of ?t) = ''AMR 214 CDEC 5 fall 1 n a st''" "dt_captured_at ?t = 0"
    by (simp_all add: row_of_def sample_transcript_def)
  have pp: "process_parsed sample_worker sample_pass (row_of ?t) p ?d = ((outcomeInserted, 1, None), d3)"
    using d1 d2 d3 row by (simp add: process_parsed_def Let_def commit_tx_no_faults [OF nf])
  have "next_transcript (ps_locked sample_pass) ?d = Some ?t" "\<not> staleCapture sample_worker sample_pass 0"
    using sample_queue_facts(1) sample_queue_facts(4) [of "[]"] by (simp_all add: sample_pass_def sample_transcript_def)
  then show ?thesis
    using pp p row by (simp add: processNext_def lockNextTranscript_def nf no_faults_def)
qed

theorem processNext_inserts_witness:
  "\<exists>d' r. find_incident sdr_source (sdr_incident_id 1) d' = Some r \<and> ir_cleared_at r = None \<and>
     processNext sample_worker sample_pass (sample_queue ''AMR 214 CDEC 5 fall 1 n a st'') =
       (Some (outcomeInserted, 1, None), d')"
  using sample_insert processNext_inserts by (fastforce simp: shows_dispatch_def)

end
