(* ===== verification/Access.thy ===== *)
theory Access
  imports Database
begin

text \<open>
  Who may ask, and how often: API keys (\<^verbatim>\<open>internal/auth/auth.go\<close>, \<^verbatim>\<open>internal/store/api_keys.go\<close>,
  \<^verbatim>\<open>cmd/keygen\<close>), the rate limiter (\<^verbatim>\<open>internal/ratelimit/limiter.go\<close>) and the middlewares of
  \<^verbatim>\<open>internal/api\<close> that use them (\<^verbatim>\<open>auth.go\<close>, \<^verbatim>\<open>cors.go\<close>, \<^verbatim>\<open>ratelimit.go\<close>).

  SHA-256 in hexadecimal is the argument \<^verbatim>\<open>HashKey\<close>. The token buckets of \<^verbatim>\<open>golang.org/x/time/rate\<close> are a
  record of two operations. A handler maps a request and the server's state to a response and the
  state after it; the request's context is the identity it carries.
\<close>

section \<open>Identities\<close>

text \<open>\<^verbatim>\<open>NoTier\<close> is the zero value of the Go string type.\<close>

datatype Tier = NoTier | TierFree | TierPaid

fun tier_string :: "Tier \<Rightarrow> string" where
  "tier_string NoTier = []"
| "tier_string TierFree = ''free''"
| "tier_string TierPaid = ''paid''"

record Identity =
  id_Tier :: Tier
  id_KeyID :: int
  id_KeyHash :: string
  id_ClientID :: string
  id_Anonymous :: bool

definition TierFromString :: "string \<Rightarrow> Tier option" where
  "TierFromString raw =
     (if raw = ''free'' then Some TierFree else if raw = ''paid'' then Some TierPaid else None)"

definition free_anonymous :: "string \<Rightarrow> Identity" where
  "free_anonymous client =
     \<lparr>id_Tier = TierFree, id_KeyID = 0, id_KeyHash = [], id_ClientID = client, id_Anonymous = True\<rparr>"

section \<open>Keys\<close>

text \<open>\<^verbatim>\<open>base64.RawURLEncoding\<close>, on bytes as numbers below 256.\<close>

definition b64_char :: "nat \<Rightarrow> char" where
  "b64_char n = ''ABCDEFGHIJKLMNOPQRSTUVWXYZabcdefghijklmnopqrstuvwxyz0123456789-_'' ! n"

fun b64 :: "nat list \<Rightarrow> string" where
  "b64 [] = []"
| "b64 [a] = [b64_char (a div 4), b64_char (a mod 4 * 16)]"
| "b64 [a, b] = [b64_char (a div 4), b64_char (a mod 4 * 16 + b div 16), b64_char (b mod 16 * 4)]"
| "b64 (a # b # c # rest) =
     b64_char (a div 4) # b64_char (a mod 4 * 16 + b div 16) # b64_char (b mod 16 * 4 + c div 64) #
     b64_char (c mod 64) # b64 rest"

text \<open>\<^verbatim>\<open>rand\<close> is the outcome of reading 32 random bytes.\<close>

definition GenerateKey :: "error + nat list \<Rightarrow> error + string" where
  "GenerateKey rand = (case rand of Inl e \<Rightarrow> Inl e | Inr buf \<Rightarrow> Inr (''phx_'' @ b64 buf))"

datatype lookup_error = ErrAPIKeyNotFound | LookupFailed error

definition LookupAPIKey :: "faults \<Rightarrow> string \<Rightarrow> database \<Rightarrow> lookup_error + api_key" where
  "LookupAPIKey fault keyHash d =
     (case fault (LookupKeyStmt keyHash) d of
        Some e \<Rightarrow> Inl (LookupFailed (''lookup api key: '' @ e))
      | None \<Rightarrow>
          (case List.find (\<lambda>k. ak_key_hash k = keyHash \<and> ak_revoked_at k = None) (api_keys d) of
             None \<Rightarrow> Inl ErrAPIKeyNotFound
           | Some k \<Rightarrow> Inr k))"

record CreateAPIKeyParams =
  cp_KeyHash :: string
  cp_Tier :: string
  cp_Label :: string
  cp_OwnerEmail :: string

text \<open>The unique index on the hash and the check on the tier make the statement fail by themselves.\<close>

definition CreateAPIKey :: "faults \<Rightarrow> time \<Rightarrow> CreateAPIKeyParams \<Rightarrow> database \<Rightarrow> (error + api_key) \<times> database" where
  "CreateAPIKey fault now params d =
     (case fault CreateKeyStmt d of
        Some e \<Rightarrow> (Inl (''create api key: '' @ e), d)
      | None \<Rightarrow>
          if cp_KeyHash params \<in> ak_key_hash ` set (api_keys d)
          then (Inl ''create api key: duplicate key value violates unique constraint'', d)
          else if cp_Tier params \<notin> {''free'', ''paid''}
          then (Inl ''create api key: new row violates check constraint'', d)
          else
            (let key = \<lparr>ak_id = seq_key d, ak_key_hash = cp_KeyHash params, ak_tier = cp_Tier params,
                        ak_label = cp_Label params, ak_created_at = now, ak_revoked_at = None,
                        ak_owner_email = (if cp_OwnerEmail params = [] then None else Some (cp_OwnerEmail params))\<rparr>
             in (Inr key, d\<lparr>api_keys := api_keys d @ [key], seq_key := seq_key d + 1\<rparr>)))"

text \<open>\<^verbatim>\<open>cmd/keygen\<close>: the environment, the random bytes and the clock in, the printed key out.\<close>

definition env_or :: "(string \<Rightarrow> string) \<Rightarrow> string \<Rightarrow> string \<Rightarrow> string" where
  "env_or getenv key fallback = (let v = TrimSpace (getenv key) in if v \<noteq> [] then v else fallback)"

definition keygen ::
  "(string \<Rightarrow> string) \<Rightarrow> faults \<Rightarrow> (string \<Rightarrow> string) \<Rightarrow> error + nat list \<Rightarrow> time \<Rightarrow> database \<Rightarrow>
   (error + string \<times> api_key) \<times> database" where
  "keygen HashKey fault getenv rand now d =
     (case TierFromString (env_or getenv ''KEY_TIER'' ''paid'') of
        None \<Rightarrow> (Inl ''KEY_TIER must be free or paid'', d)
      | Some tier \<Rightarrow>
          (case GenerateKey rand of
             Inl e \<Rightarrow> (Inl e, d)
           | Inr key \<Rightarrow>
               (case CreateAPIKey fault now
                       \<lparr>cp_KeyHash = HashKey key, cp_Tier = tier_string tier,
                        cp_Label = env_or getenv ''KEY_LABEL'' ''manual'',
                        cp_OwnerEmail = env_or getenv ''OWNER_EMAIL'' []\<rparr> d of
                  (Inl e, d1) \<Rightarrow> (Inl e, d1)
                | (Inr k, d1) \<Rightarrow> (Inr (key, k), d1))))"

section \<open>Rate limits\<close>

datatype Scope = ScopeIncidentRead | ScopeManualRefresh | ScopeAdminDispatch

fun scope_string :: "Scope \<Rightarrow> string" where
  "scope_string ScopeIncidentRead = ''incident_read''"
| "scope_string ScopeManualRefresh = ''manual_refresh''"
| "scope_string ScopeAdminDispatch = ''admin_dispatch''"

record LimitConfig =
  lc_FreeEvery :: duration
  lc_PaidEvery :: duration
  lc_ManualEvery :: duration
  lc_AdminDispatchEvery :: duration
  lc_AdminDispatchBurst :: int

record Decision =
  dc_Allowed :: bool
  dc_RetryAfter :: duration
  dc_RefreshEvery :: duration

record 'b rate_library =
  rl_NewLimiter :: "duration \<Rightarrow> int \<Rightarrow> 'b"
  rl_Allow :: "time \<Rightarrow> 'b \<Rightarrow> bool \<times> 'b"

record 'b Limiter =
  lm_buckets :: "string \<Rightarrow> 'b option"
  lm_cfg :: LimitConfig

definition default_if :: "int \<Rightarrow> int \<Rightarrow> int" where
  "default_if v fallback = (if v \<le> 0 then fallback else v)"

definition NewLimiter :: "LimitConfig \<Rightarrow> 'b Limiter" where
  "NewLimiter cfg =
     \<lparr>lm_buckets = Map.empty,
      lm_cfg = \<lparr>lc_FreeEvery = default_if (lc_FreeEvery cfg) (10 * minute),
                lc_PaidEvery = default_if (lc_PaidEvery cfg) (50 * second),
                lc_ManualEvery = default_if (lc_ManualEvery cfg) (120 * second),
                lc_AdminDispatchEvery = default_if (lc_AdminDispatchEvery cfg) (second div 20),
                lc_AdminDispatchBurst = default_if (lc_AdminDispatchBurst cfg) 200\<rparr>\<rparr>"

definition limit_settings :: "LimitConfig \<Rightarrow> Identity \<Rightarrow> Scope \<Rightarrow> duration \<times> int" where
  "limit_settings cfg identity scope =
     (if scope = ScopeAdminDispatch then (lc_AdminDispatchEvery cfg, lc_AdminDispatchBurst cfg)
      else if scope = ScopeManualRefresh then (lc_ManualEvery cfg, 1)
      else if id_Tier identity = TierPaid then (lc_PaidEvery cfg, 1)
      else (lc_FreeEvery cfg, 1))"

definition bucketKey :: "Identity \<Rightarrow> Scope \<Rightarrow> string" where
  "bucketKey identity scope =
     (let identifier = (if id_KeyHash identity \<noteq> [] then ''key:'' @ id_KeyHash identity
                        else ''anon:'' @ id_ClientID identity)
      in scope_string scope @ '':'' @ tier_string (id_Tier identity) @ '':'' @ identifier)"

definition RefreshEvery :: "'b Limiter \<Rightarrow> Identity \<Rightarrow> Scope \<Rightarrow> duration" where
  "RefreshEvery l identity scope = fst (limit_settings (lm_cfg l) identity scope)"

definition Allow ::
  "'b rate_library \<Rightarrow> time \<Rightarrow> Identity \<Rightarrow> Scope \<Rightarrow> 'b Limiter \<Rightarrow> Decision \<times> 'b Limiter" where
  "Allow rl now identity scope l =
     (let (every, burst) = limit_settings (lm_cfg l) identity scope;
          key = bucketKey identity scope;
          bucket = (case lm_buckets l key of None \<Rightarrow> rl_NewLimiter rl every burst | Some b \<Rightarrow> b);
          (allowed, bucket1) = rl_Allow rl now bucket;
          l1 = l\<lparr>lm_buckets := (lm_buckets l)(key \<mapsto> bucket1)\<rparr>
      in if allowed then (\<lparr>dc_Allowed = True, dc_RetryAfter = 0, dc_RefreshEvery = every\<rparr>, l1)
         else (\<lparr>dc_Allowed = False, dc_RetryAfter = every, dc_RefreshEvery = every\<rparr>, l1))"

section \<open>Requests and middlewares\<close>

text \<open>
  The path is split at its slashes; the body is the bytes that can be read and the error that ends them,
  if it is not the end of the body.
\<close>

record http_request =
  hr_method :: string
  hr_path :: "string list"
  hr_header :: "string \<Rightarrow> string"
  hr_remote :: string
  hr_values :: "(string \<times> string list) list"
  hr_body :: "string \<times> error option"
  hr_identity :: "Identity option"
  hr_now :: time

text \<open>\<^verbatim>\<open>url.Values\<close>: \<^verbatim>\<open>Get\<close> is the first value of a key, or the empty text.\<close>

definition values_Get :: "(string \<times> string list) list \<Rightarrow> string \<Rightarrow> string" where
  "values_Get vs key =
     (case map_of vs key of None \<Rightarrow> [] | Some [] \<Rightarrow> [] | Some (v # _) \<Rightarrow> v)"

datatype 'a body = NoBody | ErrorBody string | Body 'a

record 'a http_response =
  rs_status :: int
  rs_headers :: "(string \<times> string) list"
  rs_body :: "'a body"

definition writeJSON :: "int \<Rightarrow> 'a body \<Rightarrow> 'a http_response" where
  "writeJSON status b =
     \<lparr>rs_status = status, rs_headers = [(''Content-Type'', ''application/json'')], rs_body = b\<rparr>"

definition writeError :: "int \<Rightarrow> string \<Rightarrow> 'a http_response" where
  "writeError status message = writeJSON status (ErrorBody message)"

definition with_headers :: "(string \<times> string) list \<Rightarrow> 'a http_response \<Rightarrow> 'a http_response" where
  "with_headers hs r = r\<lparr>rs_headers := hs @ rs_headers r\<rparr>"

record 'b server =
  sv_db :: database
  sv_limiter :: "'b Limiter"

type_synonym ('a, 'b) handler = "http_request \<Rightarrow> 'b server \<Rightarrow> 'a http_response \<times> 'b server"

definition IdentityFromContext :: "http_request \<Rightarrow> Identity" where
  "IdentityFromContext r = (case hr_identity r of None \<Rightarrow> free_anonymous [] | Some i \<Rightarrow> i)"

text \<open>\<^verbatim>\<open>net.SplitHostPort\<close>, its host only.\<close>

fun index_of :: "char \<Rightarrow> string \<Rightarrow> nat option" where
  "index_of c [] = None"
| "index_of c (x # xs) = (if x = c then Some 0 else map_option Suc (index_of c xs))"

definition last_index_of :: "char \<Rightarrow> string \<Rightarrow> nat option" where
  "last_index_of c s = map_option (\<lambda>i. length s - 1 - i) (index_of c (rev s))"

definition SplitHost :: "string \<Rightarrow> string option" where
  "SplitHost hostport =
     (case last_index_of (CHR '':'') hostport of
        None \<Rightarrow> None
      | Some i \<Rightarrow>
          if hd hostport = CHR ''[''
          then (case index_of (CHR '']'') hostport of
                  None \<Rightarrow> None
                | Some e \<Rightarrow>
                    if e + 1 \<noteq> i then None
                    else if CHR ''['' \<in> set (tl hostport) \<or> CHR '']'' \<in> set (drop (e + 1) hostport) then None
                    else Some (take (e - 1) (drop 1 hostport)))
          else if CHR '':'' \<in> set (take i hostport) then None
          else if CHR ''['' \<in> set hostport \<or> CHR '']'' \<in> set hostport then None
          else Some (take i hostport))"

definition requestClientID :: "http_request \<Rightarrow> string" where
  "requestClientID r =
     (let v = TrimSpace (hr_header r ''X-Client-ID''); f = TrimSpace (hr_header r ''X-Forwarded-For'')
      in if v \<noteq> [] then v
         else if f \<noteq> [] then
           (case index_of (CHR '','') f of Some idx \<Rightarrow> TrimSpace (take idx f) | None \<Rightarrow> f)
         else
           (case SplitHost (hr_remote r) of
              Some host \<Rightarrow> if host \<noteq> [] then host else if hr_remote r \<noteq> [] then hr_remote r else ''anonymous''
            | None \<Rightarrow> if hr_remote r \<noteq> [] then hr_remote r else ''anonymous''))"

text \<open>The decision of the authentication middleware: the refusal, or the identity it passes on.\<close>

definition authenticate ::
  "(string \<Rightarrow> string) \<Rightarrow> faults \<Rightarrow> database \<Rightarrow> http_request \<Rightarrow> int \<times> string + Identity" where
  "authenticate HashKey fault d r =
     (let rawKey = TrimSpace (hr_header r ''X-API-Key'')
      in if rawKey = [] then Inr (free_anonymous (requestClientID r))
         else
           (let keyHash = HashKey rawKey
            in case LookupAPIKey fault keyHash d of
                 Inl ErrAPIKeyNotFound \<Rightarrow> Inl (401, ''invalid api key'')
               | Inl (LookupFailed e) \<Rightarrow> Inl (500, ''lookup api key'')
               | Inr key \<Rightarrow>
                   (case TierFromString (ak_tier key) of
                      None \<Rightarrow> Inl (500, ''invalid api key tier'')
                    | Some tier \<Rightarrow>
                        Inr \<lparr>id_Tier = tier, id_KeyID = ak_id key, id_KeyHash = keyHash,
                             id_ClientID = requestClientID r, id_Anonymous = False\<rparr>)))"

definition authMiddleware ::
  "(string \<Rightarrow> string) \<Rightarrow> faults \<Rightarrow> ('a, 'b) handler \<Rightarrow> ('a, 'b) handler" where
  "authMiddleware HashKey fault nxt r s =
     (case authenticate HashKey fault (sv_db s) r of
        Inl (status, msg) \<Rightarrow> (writeError status msg, s)
      | Inr identity \<Rightarrow> nxt (r\<lparr>hr_identity := Some identity\<rparr>) s)"

definition rateLimitMiddleware :: "'b rate_library \<Rightarrow> Scope \<Rightarrow> ('a, 'b) handler \<Rightarrow> ('a, 'b) handler" where
  "rateLimitMiddleware rl scope nxt r s =
     (let (decision, l1) = Allow rl (hr_now r) (IdentityFromContext r) scope (sv_limiter s);
          s1 = s\<lparr>sv_limiter := l1\<rparr>
      in if \<not> dc_Allowed decision
         then (with_headers [(''Retry-After'', Itoa (max 1 (ceil_seconds (dc_RetryAfter decision))))]
                 (writeError 429 ''rate limit exceeded''), s1)
         else nxt r s1)"

definition allowed_origins :: "string list \<Rightarrow> string list" where
  "allowed_origins origins = filter (\<lambda>or. or \<noteq> []) (map TrimSpace origins)"

definition cors_headers :: "string \<Rightarrow> (string \<times> string) list" where
  "cors_headers origin =
     [(''Access-Control-Allow-Origin'', origin), (''Vary'', ''Origin''),
      (''Access-Control-Allow-Methods'', ''GET, POST, OPTIONS''),
      (''Access-Control-Allow-Headers'', ''Accept, Authorization, Content-Type, X-API-Key, X-Client-ID'')]"

definition corsMiddleware :: "string list \<Rightarrow> ('a, 'b) handler \<Rightarrow> ('a, 'b) handler" where
  "corsMiddleware origins nxt r s =
     (let origin = TrimSpace (hr_header r ''Origin'')
      in if origin = [] then nxt r s
         else if origin \<notin> set (allowed_origins origins)
         then (if hr_method r = ''OPTIONS'' then (\<lparr>rs_status = 403, rs_headers = [], rs_body = NoBody\<rparr>, s)
               else nxt r s)
         else if hr_method r = ''OPTIONS''
         then (\<lparr>rs_status = 204, rs_headers = cors_headers origin, rs_body = NoBody\<rparr>, s)
         else apfst (with_headers (cors_headers origin)) (nxt r s))"

section \<open>Buckets\<close>

text \<open>A request to the limiter, and a run of requests with the decision each gets.\<close>

type_synonym limit_request = "time \<times> Identity \<times> Scope"

definition request_key :: "limit_request \<Rightarrow> string" where
  "request_key q = (case q of (now, identity, scope) \<Rightarrow> bucketKey identity scope)"

fun run_allow :: "'b rate_library \<Rightarrow> limit_request list \<Rightarrow> 'b Limiter \<Rightarrow> (limit_request \<times> Decision) list \<times> 'b Limiter" where
  "run_allow rl [] l = ([], l)"
| "run_allow rl ((now, identity, scope) # qs) l =
     (let (decision, l1) = Allow rl now identity scope l;
          (ds, l2) = run_allow rl qs l1
      in (((now, identity, scope), decision) # ds, l2))"

lemma Allow_cfg: "lm_cfg (snd (Allow rl now identity scope l)) = lm_cfg l"
  by (simp add: Allow_def Let_def split: prod.split)

lemma Allow_other:
  "k \<noteq> bucketKey identity scope \<Longrightarrow> lm_buckets (snd (Allow rl now identity scope l)) k = lm_buckets l k"
  by (simp add: Allow_def Let_def split: prod.split)

lemma Allow_local:
  assumes "lm_cfg l = lm_cfg l'" "lm_buckets l (bucketKey identity scope) = lm_buckets l' (bucketKey identity scope)"
  shows "fst (Allow rl now identity scope l) = fst (Allow rl now identity scope l')"
    "lm_buckets (snd (Allow rl now identity scope l)) (bucketKey identity scope) =
     lm_buckets (snd (Allow rl now identity scope l')) (bucketKey identity scope)"
  using assms by (simp_all add: Allow_def Let_def split: prod.split)

lemma run_allow_local:
  assumes "lm_cfg l = lm_cfg l'" "lm_buckets l k = lm_buckets l' k"
  shows "filter (\<lambda>(q, _). request_key q = k) (fst (run_allow rl qs l)) =
    fst (run_allow rl (filter (\<lambda>q. request_key q = k) qs) l')"
  using assms
proof (induction qs arbitrary: l l')
  case Nil
  then show ?case by simp
next
  case (Cons q qs)
  obtain now identity scope where q: "q = (now, identity, scope)" by (cases q)
  obtain dec l1 where a: "Allow rl now identity scope l = (dec, l1)" by fastforce
  obtain dec' l1' where a': "Allow rl now identity scope l' = (dec', l1')" by fastforce
  have cfg: "lm_cfg l1 = lm_cfg l" "lm_cfg l1' = lm_cfg l'"
    using Allow_cfg [of rl now identity scope] a a' by (metis snd_conv)+
  obtain ds l2 where r: "run_allow rl qs l1 = (ds, l2)" by fastforce
  show ?case
  proof (cases "bucketKey identity scope = k")
    case True
    obtain ds' l2' where r': "run_allow rl (filter (\<lambda>q. request_key q = k) qs) l1' = (ds', l2')" by fastforce
    have "dec = dec'" "lm_buckets l1 k = lm_buckets l1' k"
      using Allow_local [of l l' identity scope rl now] Cons.prems True a a' by auto
    then show ?thesis
      using Cons.IH [of l1 l1'] Cons.prems(1) cfg True q a a' r r' by (simp add: request_key_def)
  next
    case False
    have "lm_buckets l1 k = lm_buckets l' k"
      using Allow_other [of k identity scope rl now l] False a Cons.prems(2) by simp
    then show ?thesis
      using Cons.IH [of l1 l'] Cons.prems(1) cfg False q a r by (simp add: request_key_def)
  qed
qed


definition client_of :: "Identity \<Rightarrow> string + string" where
  "client_of i = (if id_KeyHash i \<noteq> [] then Inl (id_KeyHash i) else Inr (id_ClientID i))"

text \<open>
  Two requests share a bucket exactly when they agree in scope, tier and client, the client being
  the key's hash or, without a key, the client id; so the first request of a bucket sets it up with
  the rate every later one would ask for.
\<close>

theorem bucketKey_unambiguous:
  "bucketKey i s = bucketKey j t \<longleftrightarrow> s = t \<and> id_Tier i = id_Tier j \<and> client_of i = client_of j"
  by (cases s; cases t; cases "id_Tier i"; cases "id_Tier j") (auto simp: bucketKey_def client_of_def Let_def)

section \<open>Authentication\<close>

lemma LookupAPIKey_Inr:
  "LookupAPIKey fault h d = Inr k \<Longrightarrow> k \<in> set (api_keys d) \<and> ak_key_hash k = h \<and> ak_revoked_at k = None"
  by (auto simp: LookupAPIKey_def split: option.splits dest: find_SomeD)

lemma TierFromString_Some: "TierFromString raw = Some t \<longleftrightarrow> raw = tier_string t \<and> t \<noteq> NoTier"
  by (cases t) (auto simp: TierFromString_def)

text \<open>
  C39. An identity that passes is either the anonymous free client of a request without a key, or it
  carries the tier, the id and the hash of a key in the table that is not revoked and whose hash is
  that of the key presented: nobody is paid without a paid key.
\<close>

theorem authenticate_sound:
  assumes "authenticate HashKey fault d r = Inr i"
  shows "TrimSpace (hr_header r ''X-API-Key'') = [] \<and> i = free_anonymous (requestClientID r) \<or>
    (\<exists>k \<in> set (api_keys d). ak_revoked_at k = None \<and>
       ak_key_hash k = HashKey (TrimSpace (hr_header r ''X-API-Key'')) \<and> ak_tier k = tier_string (id_Tier i) \<and>
       id_KeyID i = ak_id k \<and> id_KeyHash i = ak_key_hash k \<and> id_ClientID i = requestClientID r \<and> id_Anonymous i = False)"
proof (cases "TrimSpace (hr_header r ''X-API-Key'') = []")
  case True
  then show ?thesis using assms by (simp add: authenticate_def)
next
  case False
  then obtain k t where "LookupAPIKey fault (HashKey (TrimSpace (hr_header r ''X-API-Key''))) d = Inr k"
    "TierFromString (ak_tier k) = Some t"
    "i = \<lparr>id_Tier = t, id_KeyID = ak_id k, id_KeyHash = HashKey (TrimSpace (hr_header r ''X-API-Key'')),
          id_ClientID = requestClientID r, id_Anonymous = False\<rparr>"
    using assms by (auto simp: authenticate_def Let_def split: sum.splits lookup_error.splits option.splits)
  then show ?thesis
    using LookupAPIKey_Inr [of fault "HashKey (TrimSpace (hr_header r ''X-API-Key''))" d k] TierFromString_Some [of "ak_tier k" t]
    by (intro disjI2 bexI [of _ k]) simp_all
qed

section \<open>Issued keys\<close>

lemma b64_char_not_space:
  assumes "n < 64"
  shows "\<not> is_space (b64_char n)"
proof -
  let ?alphabet = "''ABCDEFGHIJKLMNOPQRSTUVWXYZabcdefghijklmnopqrstuvwxyz0123456789-_''"
  have "b64_char n \<in> set ?alphabet"
    unfolding b64_char_def by (rule nth_mem) (use assms in simp)
  moreover have "list_all (\<lambda>c. \<not> is_space c) ?alphabet" by (simp add: is_space_def)
  ultimately show ?thesis by (auto simp only: list_all_iff)
qed

lemma sextets:
  fixes a b c :: nat
  assumes "a < 256" "b < 256" "c < 256"
  shows "a div 4 < 64" "a mod 4 * 16 < 64" "a mod 4 * 16 + b div 16 < 64" "b mod 16 * 4 < 64"
    "b mod 16 * 4 + c div 64 < 64" "c mod 64 < 64"
proof -
  have "a mod 4 < 4" "b mod 16 < 16" "b div 16 < 16" "c div 64 < 4" "a div 4 < 64" "c mod 64 < 64"
    using assms by (simp_all add: less_mult_imp_div_less)
  then show "a div 4 < 64" "a mod 4 * 16 < 64" "a mod 4 * 16 + b div 16 < 64" "b mod 16 * 4 < 64"
    "b mod 16 * 4 + c div 64 < 64" "c mod 64 < 64" by linarith+
qed

lemma b64_not_space:
  "list_all (\<lambda>b. b < 256) bs \<Longrightarrow> x \<in> set (b64 bs) \<Longrightarrow> \<not> is_space x"
proof (induction bs rule: b64.induct)
  case (4 a b c rest)
  then show ?case using sextets [of a b c] b64_char_not_space by auto
next
  case (2 a)
  then show ?case using sextets [of a 0 0] b64_char_not_space by auto
next
  case (3 a b)
  then show ?case using sextets [of a b 0] b64_char_not_space by auto
qed simp

lemma trim_by_clean: "(\<And>c. c \<in> set s \<Longrightarrow> \<not> p c) \<Longrightarrow> trim_by p s = s"
  by (cases s) (auto intro!: trim_by_fixed)

lemma generated_key:
  assumes "GenerateKey (Inr bytes) = Inr key" "list_all (\<lambda>b. b < 256) bytes"
  shows "TrimSpace key = key \<and> key \<noteq> []"
proof -
  have k: "key = ''phx_'' @ b64 bytes" using assms(1) by (simp add: GenerateKey_def)
  have "\<not> is_space c" if "c \<in> set key" for c
    using that b64_not_space [OF assms(2), of c] unfolding k by (auto simp: is_space_def)
  then have "TrimSpace key = key" unfolding TrimSpace_def by (rule trim_by_clean)
  then show ?thesis using k by simp
qed

lemma issued_key_passes:
  assumes "keygen HashKey fault getenv (Inr bytes) now d = (Inr (key, k), d1)"
    and "list_all (\<lambda>b. b < 256) bytes" "TrimSpace (hr_header r ''X-API-Key'') = key"
  shows "\<exists>i. authenticate HashKey no_faults d1 r = Inr i \<and> tier_string (id_Tier i) = ak_tier k \<and>
    id_KeyID i = ak_id k \<and> id_Anonymous i = False"
proof -
  obtain tier where t: "TierFromString (env_or getenv ''KEY_TIER'' ''paid'') = Some tier"
    using assms(1) by (auto simp: keygen_def split: option.splits)
  then have tier: "tier \<noteq> NoTier" using TierFromString_Some by blast
  have g: "GenerateKey (Inr bytes) = Inr key"
    using assms(1) t by (auto simp: keygen_def split: sum.splits prod.splits)
  obtain p where c: "CreateAPIKey fault now p d = (Inr k, d1)" "cp_KeyHash p = HashKey key" "cp_Tier p = tier_string tier"
    using assms(1) t g by (fastforce simp: keygen_def split: sum.splits prod.splits)
  then have new: "HashKey key \<notin> ak_key_hash ` set (api_keys d)" "api_keys d1 = api_keys d @ [k]"
    "ak_key_hash k = HashKey key" "ak_revoked_at k = None" "ak_tier k = tier_string tier"
    by (auto simp: CreateAPIKey_def Let_def split: option.splits if_splits)
  have "List.find (\<lambda>k. ak_key_hash k = HashKey key \<and> ak_revoked_at k = None) (api_keys d) = None"
    using new(1) unfolding find_None_set by (metis imageI)
  then have "LookupAPIKey no_faults (HashKey key) d1 = Inr k"
    using new by (simp add: LookupAPIKey_def no_faults_def find_append)
  moreover have "TierFromString (ak_tier k) = Some tier" using tier new(5) by (simp add: TierFromString_Some)
  ultimately show ?thesis
    using assms(3) generated_key [OF g assms(2)] new(5) by (simp add: authenticate_def)
qed

text \<open>
  C40. A key that \<^verbatim>\<open>keygen\<close> prints works: a request that carries it, blanks around it or not, passes
  with the tier the key was issued with, as long as the key has not been revoked and no statement fails.
\<close>

theorem issued_key_authenticates:
  assumes "keygen HashKey fault getenv (Inr bytes) now d = (Inr (key, k), d1)"
    and "list_all (\<lambda>b. b < 256) bytes" "TrimSpace (hr_header r ''X-API-Key'') = key"
  shows "\<exists>i. authenticate HashKey no_faults d1 r = Inr i \<and> tier_string (id_Tier i) = ak_tier k \<and>
    id_KeyID i = ak_id k \<and> id_Anonymous i = False"
  using assms by (rule issued_key_passes)

definition sample_request :: http_request where
  "sample_request =
     \<lparr>hr_method = ''GET'', hr_path = [], hr_header = (\<lambda>h. if h = ''X-API-Key'' then '' phx_AQID '' else []),
      hr_remote = ''10.0.0.1:99'', hr_values = [], hr_body = ([], None), hr_identity = None, hr_now = 0\<rparr>"

lemma sample_keygen:
  "\<exists>k d1. keygen (\<lambda>s. s) no_faults (\<lambda>_. []) (Inr [1, 2, 3]) 5 empty_db = (Inr (''phx_AQID'', k), d1) \<and> ak_tier k = ''paid''"
  by (simp add: keygen_def env_or_def TrimSpace_def trim_by_def TierFromString_def GenerateKey_def b64_char_def
      CreateAPIKey_def no_faults_def empty_db_def Let_def)

lemma sample_header: "TrimSpace (hr_header sample_request ''X-API-Key'') = ''phx_AQID''"
  by (simp add: sample_request_def TrimSpace_def trim_by_def is_space_def)

theorem issued_key_authenticates_witness:
  "\<exists>i d1. authenticate (\<lambda>s. s) no_faults d1 sample_request = Inr i \<and> tier_string (id_Tier i) = ''paid'' \<and>
     d1 = snd (keygen (\<lambda>s. s) no_faults (\<lambda>_. []) (Inr [1, 2, 3]) 5 empty_db)"
proof -
  obtain k d1 where k: "keygen (\<lambda>s. s) no_faults (\<lambda>_. []) (Inr [1, 2, 3]) 5 empty_db = (Inr (''phx_AQID'', k), d1)"
    "ak_tier k = ''paid''"
    using sample_keygen by blast
  from issued_key_authenticates [OF k(1) _ sample_header] show ?thesis using k by auto
qed

theorem authenticate_sound_witness:
  "\<exists>i d1 k. authenticate (\<lambda>s. s) no_faults d1 sample_request = Inr i \<and> k \<in> set (api_keys d1) \<and>
     ak_tier k = tier_string (id_Tier i) \<and> id_Anonymous i = False"
proof -
  obtain k d1 where k: "keygen (\<lambda>s. s) no_faults (\<lambda>_. []) (Inr [1, 2, 3]) 5 empty_db = (Inr (''phx_AQID'', k), d1)"
    "ak_tier k = ''paid''"
    using sample_keygen by blast
  obtain i where i: "authenticate (\<lambda>s. s) no_faults d1 sample_request = Inr i"
    using issued_key_passes [OF k(1) _ sample_header] by auto
  from authenticate_sound [OF i] show ?thesis using i sample_header by (auto simp: free_anonymous_def)
qed

end
