(* ===== verification/Store_Reads.thy ===== *)
theory Store_Reads
  imports Source_Status Regex "HOL-Library.Char_ord" "HOL-Library.List_Lexorder"
begin

text \<open>
  The reads of \<^verbatim>\<open>internal/store/store.go\<close>: the active and the recent incidents, one incident with its
  history, the public statistics, the health of the sources; and the table of the contract canary.

  Text orders by code point. The two predicates of PostGIS, \<^verbatim>\<open>geom && ST_MakeEnvelope\<close> and \<^verbatim>\<open>ST_DWithin\<close>
  on the spheroid, are a record of two functions. The clock of the database is \<^verbatim>\<open>now\<close>. A query that fails
  is a fault of its \<^verbatim>\<open>ReadStmt\<close>.
\<close>

section \<open>Filters and rows\<close>

record BBox =
  bb_MinLon :: float64
  bb_MinLat :: float64
  bb_MaxLon :: float64
  bb_MaxLat :: float64

record Radius =
  ra_Lat :: float64
  ra_Lon :: float64
  ra_Meters :: float64

record ActiveIncidentFilter =
  af_BBox :: "BBox option"
  af_Radius :: "Radius option"
  af_Since :: "time option"
  af_Until :: "time option"

record ActiveIncident =
  ai_Source :: string
  ai_IncidentID :: string
  ai_NatureCode :: string
  ai_NatureDesc :: string
  ai_Severity :: string
  ai_Units :: "Unit list"
  ai_Channel :: string
  ai_SymbolCode :: string
  ai_LocationText :: string
  ai_Lon :: rat
  ai_Lat :: rat
  ai_IncidentDate :: time
  ai_ReceivedAt :: time
  ai_LastSeenAt :: time
  ai_LastConfirmedAt :: time
  ai_IsLastKnown :: bool
  ai_SourceLastSuccessAt :: "time option"
  ai_SecondsSinceLastSeen :: int

record ActiveIncidentsResult =
  ar_Meta :: StalenessMeta
  ar_Incidents :: "ActiveIncident list"

record postgis =
  pg_overlaps :: "rat \<Rightarrow> rat \<Rightarrow> BBox \<Rightarrow> bool"
  pg_dwithin :: "rat \<Rightarrow> rat \<Rightarrow> Radius \<Rightarrow> bool"

text \<open>\<^verbatim>\<open>EXTRACT(EPOCH FROM \<dots>)::int\<close> rounds halves away from zero.\<close>

definition epoch_seconds :: "duration \<Rightarrow> int" where
  "epoch_seconds d = sgn d * ((2 * \<bar>d\<bar> + second) div (2 * second))"

text \<open>A row of the answer; the severity and the last-known flag are left to the API.\<close>

definition active_row :: "time option \<Rightarrow> int \<Rightarrow> incident_row \<Rightarrow> ActiveIncident" where
  "active_row success seconds r =
     \<lparr>ai_Source = ir_source r, ai_IncidentID = ir_incident_id r, ai_NatureCode = ir_nature_code r,
      ai_NatureDesc = ir_nature_desc r, ai_Severity = [], ai_Units = ir_units r,
      ai_Channel = ir_channel r, ai_SymbolCode = ir_symbol_code r, ai_LocationText = ir_location_text r,
      ai_Lon = ir_lon r, ai_Lat = ir_lat r, ai_IncidentDate = ir_incident_date r,
      ai_ReceivedAt = ir_received_at r, ai_LastSeenAt = ir_last_seen_at r,
      ai_LastConfirmedAt = ir_last_seen_at r, ai_IsLastKnown = False,
      ai_SourceLastSuccessAt = success, ai_SecondsSinceLastSeen = seconds\<rparr>"

section \<open>The active incidents\<close>

definition active_incidents :: "database \<Rightarrow> incident_row list" where
  "active_incidents d = filter (\<lambda>r. ir_cleared_at r = None) (incidents d)"

definition filter_accepts :: "postgis \<Rightarrow> ActiveIncidentFilter \<Rightarrow> incident_row \<Rightarrow> bool" where
  "filter_accepts pg f r \<longleftrightarrow>
     (case af_BBox f of None \<Rightarrow> True | Some b \<Rightarrow> pg_overlaps pg (ir_lon r) (ir_lat r) b) \<and>
     (case af_Radius f of None \<Rightarrow> True | Some c \<Rightarrow> pg_dwithin pg (ir_lon r) (ir_lat r) c) \<and>
     (case af_Since f of None \<Rightarrow> True | Some t \<Rightarrow> ir_incident_date r \<ge> t) \<and>
     (case af_Until f of None \<Rightarrow> True | Some t \<Rightarrow> ir_incident_date r \<le> t)"

definition newest_first :: "incident_row list \<Rightarrow> incident_row list" where
  "newest_first rs = sort_key (\<lambda>r. (- ir_incident_date r, ir_incident_id r)) rs"

definition success_of :: "string \<Rightarrow> database \<Rightarrow> time option" where
  "success_of src d = map_option sp_started_at (last_success src d)"

definition read_query :: "faults \<Rightarrow> string \<Rightarrow> database \<Rightarrow> 'a \<Rightarrow> error + 'a" where
  "read_query fault name d x = (case fault (ReadStmt name) d of Some e \<Rightarrow> Inl e | None \<Rightarrow> Inr x)"

definition activeStalenessMeta :: "faults \<Rightarrow> time \<Rightarrow> database \<Rightarrow> error + StalenessMeta" where
  "activeStalenessMeta fault now d = read_query fault ''poll meta'' d (sourcePollMeta now SourceName d)"

definition ListActiveIncidents ::
  "faults \<Rightarrow> postgis \<Rightarrow> time \<Rightarrow> ActiveIncidentFilter \<Rightarrow> database \<Rightarrow> error + ActiveIncidentsResult" where
  "ListActiveIncidents fault pg now f d =
     (case activeStalenessMeta fault now d of
        Inl e \<Rightarrow> Inl e
      | Inr meta \<Rightarrow>
          (case read_query fault ''active incidents'' d
                  (newest_first (filter (filter_accepts pg f) (active_incidents d))) of
             Inl e \<Rightarrow> Inl e
           | Inr rows \<Rightarrow>
               Inr \<lparr>ar_Meta = meta,
                    ar_Incidents =
                      map (\<lambda>r. active_row (success_of (ir_source r) d)
                                 (epoch_seconds (now - ir_last_seen_at r)) r) rows\<rparr>))"

section \<open>The recent incidents\<close>

record RecentIncidentFilter =
  rf_Hours :: int
  rf_Limit :: int

record RecentIncidentsResult =
  rr_TotalCount :: int
  rr_Incidents :: "ActiveIncident list"

definition any_success :: "database \<Rightarrow> time option" where
  "any_success d = map_option sp_started_at (max_by sp_started_at (filter sp_success (source_polls d)))"

definition ListRecentIncidents ::
  "faults \<Rightarrow> time \<Rightarrow> RecentIncidentFilter \<Rightarrow> database \<Rightarrow> error + RecentIncidentsResult" where
  "ListRecentIncidents fault now f d =
     (if rf_Hours f \<le> 0 then Inl ''recent incident hours must be positive''
      else
        (let limit = (if rf_Limit f \<le> 0 then 500 else rf_Limit f);
             rows = newest_first (filter (\<lambda>r. ir_incident_date r \<ge> now - rf_Hours f * hour) (incidents d))
         in case read_query fault ''recent incidents'' d rows of
              Inl e \<Rightarrow> Inl e
            | Inr rs \<Rightarrow>
                Inr \<lparr>rr_TotalCount = int (length rs),
                     rr_Incidents =
                       map (\<lambda>r. active_row (any_success d) (max 0 (epoch_seconds (now - ir_last_seen_at r))) r)
                         (take (nat limit) rs)\<rparr>))"

section \<open>One incident\<close>

record IncidentDetail =
  de_Source :: string
  de_IncidentID :: string
  de_NatureCode :: string
  de_NatureDesc :: string
  de_Severity :: string
  de_Units :: "Unit list"
  de_Channel :: string
  de_SymbolCode :: string
  de_LocationText :: string
  de_Lon :: rat
  de_Lat :: rat
  de_IncidentDate :: time
  de_ReceivedAt :: time
  de_LastSeenAt :: time
  de_LastConfirmedAt :: time
  de_IsLastKnown :: bool
  de_ClearedAt :: "time option"
  de_ReopenCount :: int

record UnitObservation =
  uo_Unit :: string
  uo_Status :: string
  uo_FirstObservedAt :: time
  uo_LastObservedAt :: time
  uo_FirstPollID :: int
  uo_LastPollID :: int

record IncidentEvent =
  ie_ID :: int
  ie_EventType :: string
  ie_OccurredAt :: time
  ie_PollID :: int
  ie_Delta :: event_delta

record IncidentDetailResult =
  dr_Meta :: StalenessMeta
  dr_Incident :: "IncidentDetail option"
  dr_UnitHistory :: "UnitObservation list"
  dr_Events :: "IncidentEvent list"

definition getIncident :: "faults \<Rightarrow> string \<Rightarrow> string \<Rightarrow> database \<Rightarrow> error + IncidentDetail option" where
  "getIncident fault src iid d =
     (case read_query fault ''incident'' d (find_incident src iid d) of
        Inl e \<Rightarrow> Inl (''get incident '' @ src @ ''/'' @ iid @ '': '' @ e)
      | Inr row \<Rightarrow>
          Inr (map_option (\<lambda>r.
            \<lparr>de_Source = ir_source r, de_IncidentID = ir_incident_id r, de_NatureCode = ir_nature_code r,
             de_NatureDesc = ir_nature_desc r, de_Severity = [], de_Units = ir_units r,
             de_Channel = ir_channel r, de_SymbolCode = ir_symbol_code r,
             de_LocationText = ir_location_text r, de_Lon = ir_lon r, de_Lat = ir_lat r,
             de_IncidentDate = ir_incident_date r, de_ReceivedAt = ir_received_at r,
             de_LastSeenAt = ir_last_seen_at r, de_LastConfirmedAt = ir_last_seen_at r,
             de_IsLastKnown = False, de_ClearedAt = ir_cleared_at r, de_ReopenCount = ir_reopen_count r\<rparr>) row))"

definition getUnitHistory :: "faults \<Rightarrow> string \<Rightarrow> string \<Rightarrow> database \<Rightarrow> error + UnitObservation list" where
  "getUnitHistory fault src iid d =
     (case read_query fault ''unit history'' d
             (sort_key (\<lambda>u. (iu_first_observed_at u, iu_id u))
                (filter (\<lambda>u. iu_source u = src \<and> iu_incident_id u = iid) (incident_units d))) of
        Inl e \<Rightarrow> Inl (''query unit history '' @ src @ ''/'' @ iid @ '': '' @ e)
      | Inr rows \<Rightarrow>
          Inr (map (\<lambda>u. \<lparr>uo_Unit = iu_unit u, uo_Status = iu_status u,
                         uo_FirstObservedAt = iu_first_observed_at u,
                         uo_LastObservedAt = iu_last_observed_at u,
                         uo_FirstPollID = iu_first_poll_id u, uo_LastPollID = iu_last_poll_id u\<rparr>) rows))"

definition getIncidentEvents :: "faults \<Rightarrow> string \<Rightarrow> string \<Rightarrow> database \<Rightarrow> error + IncidentEvent list" where
  "getIncidentEvents fault src iid d =
     (case read_query fault ''incident events'' d
             (sort_key (\<lambda>e. (ev_occurred_at e, ev_id e))
                (filter (\<lambda>e. ev_source e = src \<and> ev_incident_id e = iid) (incident_events d))) of
        Inl e \<Rightarrow> Inl (''query incident events '' @ src @ ''/'' @ iid @ '': '' @ e)
      | Inr rows \<Rightarrow>
          Inr (map (\<lambda>e. \<lparr>ie_ID = ev_id e, ie_EventType = ev_event_type e,
                         ie_OccurredAt = ev_occurred_at e, ie_PollID = ev_poll_id e,
                         ie_Delta = ev_delta e\<rparr>) rows))"

definition GetIncidentDetail ::
  "faults \<Rightarrow> time \<Rightarrow> string \<Rightarrow> string \<Rightarrow> database \<Rightarrow> error + IncidentDetailResult" where
  "GetIncidentDetail fault now src iid d =
     (case activeStalenessMeta fault now d of
        Inl e \<Rightarrow> Inl e
      | Inr meta \<Rightarrow>
          (case getIncident fault src iid d of
             Inl e \<Rightarrow> Inl e
           | Inr None \<Rightarrow>
               Inr \<lparr>dr_Meta = meta, dr_Incident = None, dr_UnitHistory = [], dr_Events = []\<rparr>
           | Inr (Some incident) \<Rightarrow>
               (case getUnitHistory fault src iid d of
                  Inl e \<Rightarrow> Inl e
                | Inr units \<Rightarrow>
                    (case getIncidentEvents fault src iid d of
                       Inl e \<Rightarrow> Inl e
                     | Inr events \<Rightarrow>
                         Inr \<lparr>dr_Meta = meta, dr_Incident = Some incident,
                              dr_UnitHistory = units, dr_Events = events\<rparr>))))"

section \<open>Statistics\<close>

record PublicStats =
  st_CurrentActiveCount :: int
  st_TodayTotalIncidents :: int
  st_TodayByCategory :: "(string \<times> int) list"
  st_Last24hTotal :: int
  st_ActiveUnitsNow :: int
  st_DataAgeSeconds :: int
  st_Tier :: string

text \<open>Midnight in Phoenix, which keeps seven hours behind UTC the year round.\<close>

definition day_start :: "time \<Rightarrow> time" where
  "day_start now = (now - 7 * hour) div (24 * hour) * (24 * hour) + 7 * hour"

fun add_count :: "string \<Rightarrow> int \<Rightarrow> (string \<times> int) list \<Rightarrow> (string \<times> int) list" where
  "add_count label n [] = [(label, n)]"
| "add_count label n ((l, m) # rest) =
     (if l = label then (l, m + n) # rest else (l, m) # add_count label n rest)"

definition category_code :: "incident_row \<Rightarrow> string" where
  "category_code r = (if ir_nature_code r = [] then ''UNKNOWN'' else ir_nature_code r)"

definition code_counts :: "incident_row list \<Rightarrow> (string \<times> int) list" where
  "code_counts rows =
     map (\<lambda>code. (code, int (length (filter (\<lambda>r. category_code r = code) rows))))
       (sort (remdups (map category_code rows)))"

definition category_label :: "string \<Rightarrow> string" where
  "category_label code = (let label = LabelForCode code in if label = [] then ''Unknown'' else label)"

fun sum_categories :: "(string \<times> int) list \<Rightarrow> (string \<times> int) list \<Rightarrow> (string \<times> int) list" where
  "sum_categories [] m = m"
| "sum_categories ((code, n) # rest) m = sum_categories rest (add_count (category_label code) n m)"

definition PublicStats_of :: "faults \<Rightarrow> time \<Rightarrow> database \<Rightarrow> error + PublicStats" where
  "PublicStats_of fault now d =
     (let today = filter (\<lambda>r. ir_incident_date r \<ge> day_start now) (incidents d)
      in case read_query fault ''public stats totals'' d () of
           Inl e \<Rightarrow> Inl (''public stats totals: '' @ e)
         | Inr _ \<Rightarrow>
             (case read_query fault ''public stats categories'' d (code_counts today) of
                Inl e \<Rightarrow> Inl (''public stats category counts: '' @ e)
              | Inr counts \<Rightarrow>
                  Inr \<lparr>st_CurrentActiveCount = int (length (active_incidents d)),
                       st_TodayTotalIncidents = int (length today),
                       st_TodayByCategory = sum_categories counts [],
                       st_Last24hTotal =
                         int (length (filter (\<lambda>r. ir_incident_date r \<ge> now - 24 * hour) (incidents d))),
                       st_ActiveUnitsNow = sum_list (map (\<lambda>r. int (length (ir_units r))) (active_incidents d)),
                       st_DataAgeSeconds =
                         (case any_success d of None \<Rightarrow> 0 | Some t \<Rightarrow> epoch_seconds (now - t)),
                       st_Tier = []\<rparr>))"

section \<open>The health of the sources\<close>

definition latest_canary :: "string \<Rightarrow> database \<Rightarrow> contract_canary_row option" where
  "latest_canary src d = max_by cc_checked_at (filter (\<lambda>c. cc_source c = src) (contract_canary d))"

fun SourceHealth :: "faults \<Rightarrow> time \<Rightarrow> string list \<Rightarrow> database \<Rightarrow> error + SourceHealthRow list" where
  "SourceHealth fault now [] d = Inr []"
| "SourceHealth fault now (src # srcs) d =
     (case read_query fault (''poll meta '' @ src) d (sourcePollMeta now src d) of
        Inl e \<Rightarrow> Inl (''source poll health '' @ src @ '': '' @ e)
      | Inr meta \<Rightarrow>
          (case read_query fault (''latest canary '' @ src) d (latest_canary src d) of
             Inl e \<Rightarrow> Inl (''latest canary '' @ src @ '': '' @ e)
           | Inr canary \<Rightarrow>
               (case SourceHealth fault now srcs d of
                  Inl e \<Rightarrow> Inl e
                | Inr rows \<Rightarrow>
                    Inr (\<lparr>sh_Source = src, sh_Meta = meta,
                          sh_Canary =
                            map_option (\<lambda>c. \<lparr>ch_CheckedAt = Some (cc_checked_at c),
                                             ch_Passed = Some (cc_passed c), ch_Drift = cc_drift c,
                                             ch_ParserVersion = cc_parser_version c\<rparr>) canary\<rparr>
                         # rows))))"

definition RecordCanary :: "faults \<Rightarrow> contract_canary_row \<Rightarrow> database \<Rightarrow> error option \<times> database" where
  "RecordCanary fault result d =
     (case fault RecordCanaryStmt d of
        Some e \<Rightarrow> (Some (''record canary '' @ cc_source result @ '': '' @ e), d)
      | None \<Rightarrow> (None, d\<lparr>contract_canary := contract_canary d @ [result]\<rparr>))"

text \<open>The last checks of the source, newest first; of two at the same time the later row is newer.\<close>

definition RecentCanaryFeatureCounts :: "faults \<Rightarrow> string \<Rightarrow> int \<Rightarrow> database \<Rightarrow> error + int list" where
  "RecentCanaryFeatureCounts fault src limit d =
     (if limit \<le> 0 then Inr []
      else
        (case read_query fault ''recent canary'' d
                (sort_key (\<lambda>c. - cc_checked_at c) (rev (filter (\<lambda>c. cc_source c = src) (contract_canary d)))) of
           Inl e \<Rightarrow> Inl (''recent canary feature counts '' @ src @ '': '' @ e)
         | Inr rows \<Rightarrow> Inr (map cc_feature_count (take (nat limit) rows))))"

end
