(* ===== verification/Transcripts.thy ===== *)
theory Transcripts
  imports Store_Reads Dispatch_Parser
begin

text \<open>
  The transcript table as the API uses it (\<^verbatim>\<open>internal/store/store.go\<close>: \<^verbatim>\<open>InsertDispatchTranscript\<close>,
  \<^verbatim>\<open>ListRecentDispatchTranscripts\<close>, \<^verbatim>\<open>DispatchTranscriptHealth\<close>).

  A \<^verbatim>\<open>NUMERIC(p,s)\<close> column rounds to \<^verbatim>\<open>s\<close> decimals, halves away from zero, and refuses what needs more
  than \<^verbatim>\<open>p - s\<close> digits before the point. SQL conditions have three values, \<^verbatim>\<open>None\<close> for NULL. The patterns of
  the gate are POSIX expressions; whether one occurs in a text does not depend on the order in which
  matches are tried, so theory Regex decides it.
\<close>

section \<open>Inserts\<close>

record DispatchTranscriptInsert =
  di_WavFilename :: string
  di_CapturedAt :: time
  di_AudioDurationSeconds :: "float64 option"
  di_DisplayText :: string
  di_PrimaryText :: string
  di_SecondaryText :: string
  di_PrimaryModel :: string
  di_SecondaryModel :: string
  di_PrimaryAvgLogprob :: "float64 option"
  di_VerificationConfidence :: "float64 option"
  di_VerificationAgreement :: "float64 option"
  di_ReviewRecommended :: bool
  di_DomainKeywordMatches :: "string list"
  di_DomainKeywordRatio :: "float64 option"
  di_RawPayload :: string

definition nullableString :: "string \<Rightarrow> string option" where
  "nullableString v = (if v = [] then None else Some v)"

definition round_half_away :: "rat \<Rightarrow> int" where
  "round_half_away x = (if x < 0 then - \<lfloor>1 / 2 - x\<rfloor> else \<lfloor>x + 1 / 2\<rfloor>)"

definition numeric :: "nat \<Rightarrow> nat \<Rightarrow> float64 \<Rightarrow> error + float64" where
  "numeric p s v =
     (case v of
        Fin x \<Rightarrow>
          (let n = round_half_away (x * 10 ^ s)
           in if \<bar>n\<bar> \<ge> 10 ^ p then Inl ''numeric field overflow'' else Inr (Fin (of_int n / 10 ^ s)))
      | NaN \<Rightarrow> Inr NaN
      | PosInf \<Rightarrow> Inl ''numeric field overflow''
      | NegInf \<Rightarrow> Inl ''numeric field overflow'')"

definition numeric_column :: "nat \<Rightarrow> nat \<Rightarrow> float64 option \<Rightarrow> error + float64 option" where
  "numeric_column p s v =
     (case v of None \<Rightarrow> Inr None | Some x \<Rightarrow> map_sum id Some (numeric p s x))"

definition new_transcript :: "int \<Rightarrow> time \<Rightarrow> DispatchTranscriptInsert \<Rightarrow> error + dispatch_transcript" where
  "new_transcript i now input =
     (case (numeric_column 8 3 (di_AudioDurationSeconds input), numeric_column 8 4 (di_PrimaryAvgLogprob input),
            numeric_column 6 4 (di_VerificationConfidence input), numeric_column 6 4 (di_VerificationAgreement input),
            numeric_column 6 4 (di_DomainKeywordRatio input)) of
        (Inr duration, Inr logprob, Inr confidence, Inr agreement, Inr ratio) \<Rightarrow>
          Inr \<lparr>dt_id = i, dt_wav_filename = di_WavFilename input, dt_captured_at = di_CapturedAt input,
               dt_received_at = now, dt_audio_duration_s = duration, dt_display_text = di_DisplayText input,
               dt_primary_text = nullableString (di_PrimaryText input),
               dt_secondary_text = nullableString (di_SecondaryText input),
               dt_primary_model = nullableString (di_PrimaryModel input),
               dt_secondary_model = nullableString (di_SecondaryModel input),
               dt_primary_avg_logprob = logprob, dt_verification_confidence = confidence,
               dt_verification_agreement = agreement,
               dt_review_recommended = di_ReviewRecommended input,
               dt_domain_keyword_matches = di_DomainKeywordMatches input,
               dt_domain_keyword_ratio = ratio, dt_raw_payload = di_RawPayload input,
               dt_parsed_incident_id = None, dt_parsed_at = None, dt_geocode_attempts = None\<rparr>
      | _ \<Rightarrow> Inl ''numeric field overflow'')"

text \<open>The id and whether the file name was there before, in which case nothing changes.\<close>

definition InsertDispatchTranscript ::
  "faults \<Rightarrow> time \<Rightarrow> DispatchTranscriptInsert \<Rightarrow> database \<Rightarrow> (error + int \<times> bool) \<times> database" where
  "InsertDispatchTranscript fault now input d =
     (case fault (InsertTranscriptStmt (di_WavFilename input)) d of
        Some e \<Rightarrow> (Inl e, d)
      | None \<Rightarrow>
          (case new_transcript (seq_transcript d) now input of
             Inl e \<Rightarrow> (Inl e, d)
           | Inr row \<Rightarrow>
               (case List.find (\<lambda>t. dt_wav_filename t = di_WavFilename input) (dispatch_transcripts d) of
                  Some t \<Rightarrow> (Inr (dt_id t, True), d)
                | None \<Rightarrow>
                    (Inr (seq_transcript d, False),
                     d\<lparr>dispatch_transcripts := dispatch_transcripts d @ [row],
                       seq_transcript := seq_transcript d + 1\<rparr>))))"

section \<open>Recent transcripts\<close>

record DispatchTranscript =
  tx_ID :: int
  tx_WavFilename :: string
  tx_CapturedAt :: time
  tx_ReceivedAt :: time
  tx_DisplayText :: string
  tx_VerificationConfidence :: "float64 option"
  tx_ReviewRecommended :: bool
  tx_ParsedIncidentID :: "int option"

definition ListRecentDispatchTranscripts :: "faults \<Rightarrow> int \<Rightarrow> database \<Rightarrow> error + DispatchTranscript list" where
  "ListRecentDispatchTranscripts fault limit d =
     (let n = (if limit \<le> 0 then 50 else limit)
      in map_sum id
           (\<lambda>rows. map (\<lambda>t. \<lparr>tx_ID = dt_id t, tx_WavFilename = dt_wav_filename t,
                             tx_CapturedAt = dt_captured_at t, tx_ReceivedAt = dt_received_at t,
                             tx_DisplayText = dt_display_text t,
                             tx_VerificationConfidence = dt_verification_confidence t,
                             tx_ReviewRecommended = dt_review_recommended t,
                             tx_ParsedIncidentID = dt_parsed_incident_id t\<rparr>) (take (nat n) rows))
           (read_query fault ''recent transcripts'' d
              (sort_key (\<lambda>t. - dt_received_at t) (dispatch_transcripts d))))"

section \<open>The gate in SQL\<close>

definition pg_space :: "char \<Rightarrow> bool" where
  "pg_space c \<longleftrightarrow> re_space c \<or> c = CHR 0x0B \<or> c = CHR 0x85"

definition pg_alnum :: "char \<Rightarrow> bool" where
  "pg_alnum c \<longleftrightarrow>
     re_alnum c \<or> c = CHR 0xAA \<or> c = CHR 0xB5 \<or> c = CHR 0xBA \<or>
     (192 \<le> code_of c \<and> c \<noteq> CHR 0xD7 \<and> c \<noteq> CHR 0xF7)"

definition pg_before :: regex where
  "pg_before = Alt BeginText (Cls (\<lambda>c. \<not> (pg_alnum c \<or> c = CHR ''_'')))"

definition pg_after :: regex where
  "pg_after = Alt (Cls (\<lambda>c. \<not> (pg_alnum c \<or> c = CHR ''_''))) EndText"

definition pg_sp :: regex where "pg_sp = Plus (Cls pg_space)"
definition pg_gap :: regex where "pg_gap = Opt (Cls (\<lambda>c. pg_space c \<or> c = CHR ''-''))"

definition pg_direction :: regex where
  "pg_direction = alts (map lit [''north'', ''south'', ''east'', ''west'', ''n'', ''s'', ''e'', ''w''])"

definition pg_street :: regex where
  "pg_street =
     Seq (Plus alnum) (Upto 5 (Seq (Plus (Cls (\<lambda>c. pg_space c \<or> c = CHR ''-''))) (Plus alnum)))"

definition pg_cdec :: regex where
  "pg_cdec = seqs [pg_before, lit ''cdec'', pg_gap, Plus digit, pg_after]"

definition pg_unit :: regex where
  "pg_unit =
     seqs [pg_before,
           alts (map lit [''engine'', ''ladder'', ''battalion'', ''rescue'', ''squad'', ''truck'', ''medic'',
             ''chief'', ''amr'']),
           pg_gap, Plus digit, pg_after]"

definition pg_addresses :: "regex list" where
  "pg_addresses =
     [seqs [pg_before, Plus digit, Opt (Seq (lit ''-'') (Plus digit)), pg_sp, pg_direction, pg_sp, pg_street,
            pg_sp, streetSuffixPattern, pg_after],
      seqs [pg_before, pg_direction, pg_sp, pg_street, pg_sp, streetSuffixPattern, pg_sp, conjunction, pg_sp,
            pg_direction, pg_sp, pg_street, pg_sp, streetSuffixPattern, pg_after],
      seqs [pg_before, pg_direction, pg_sp, Plus digit, Upto 2 (Cls (\<lambda>c. is_lower c \<or> is_upper c)), pg_sp,
            streetSuffixPattern, pg_after]]"

definition occurs :: "regex \<Rightarrow> string \<Rightarrow> bool" where
  "occurs r s \<longleftrightarrow> find_first r s \<noteq> None"

definition gate_text :: "string \<Rightarrow> bool" where
  "gate_text s \<longleftrightarrow> occurs pg_cdec s \<and> occurs pg_unit s \<and> list_ex (\<lambda>r. occurs r s) pg_addresses"

text \<open>\<^verbatim>\<open>AND\<close> of SQL: false wins over NULL.\<close>

fun sql_and :: "bool option \<Rightarrow> bool option \<Rightarrow> bool option" where
  "sql_and (Some False) b = Some False"
| "sql_and a (Some False) = Some False"
| "sql_and (Some True) (Some True) = Some True"
| "sql_and a b = None"

text \<open>Postgres sorts NaN above every number.\<close>

definition numeric_ge :: "float64 \<Rightarrow> rat \<Rightarrow> bool" where
  "numeric_ge v q = (v = NaN \<or> fle (Fin q) v)"

definition dispatchTranscriptGateSQL :: "dispatch_transcript \<Rightarrow> bool option" where
  "dispatchTranscriptGateSQL t =
     sql_and (map_option (\<lambda>c. numeric_ge c (4 / 5)) (dt_verification_confidence t))
       (Some (gate_text (dt_display_text t)))"

section \<open>Counters\<close>

record DispatchTranscriptHealth =
  dh_LastReceivedAt :: "time option"
  dh_RowsLastHour :: int
  dh_RowsLast24h :: int
  dh_HighConfidenceLastHour :: int
  dh_LowConfidenceLastHour :: int
  dh_ReviewRecommendedLastHour :: int
  dh_ParserLastBatchAt :: "time option"
  dh_ParserRowsPromotedLastHour :: int
  dh_ParserRowsGateFailedLastHour :: int
  dh_ParserRowsGeocodeFailedLastHour :: int
  dh_ParserBacklogUnparsed :: int

definition dispatchHighConfidenceThreshold :: rat where "dispatchHighConfidenceThreshold = 3 / 4"

definition count_where :: "(dispatch_transcript \<Rightarrow> bool) \<Rightarrow> database \<Rightarrow> int" where
  "count_where p d = int (length (filter p (dispatch_transcripts d)))"

definition received_since :: "time \<Rightarrow> dispatch_transcript \<Rightarrow> bool" where
  "received_since cutoff t \<longleftrightarrow> dt_received_at t \<ge> cutoff"

definition parsed_since :: "time \<Rightarrow> dispatch_transcript \<Rightarrow> bool" where
  "parsed_since cutoff t \<longleftrightarrow> (case dt_parsed_at t of None \<Rightarrow> False | Some p \<Rightarrow> p \<ge> cutoff)"

definition high_confidence :: "dispatch_transcript \<Rightarrow> bool" where
  "high_confidence t \<longleftrightarrow>
     (case dt_verification_confidence t of
        None \<Rightarrow> False | Some c \<Rightarrow> numeric_ge c dispatchHighConfidenceThreshold)"

definition low_confidence :: "dispatch_transcript \<Rightarrow> bool" where
  "low_confidence t \<longleftrightarrow>
     (case dt_verification_confidence t of
        None \<Rightarrow> True | Some c \<Rightarrow> \<not> numeric_ge c dispatchHighConfidenceThreshold)"

definition DispatchTranscriptHealth_of :: "faults \<Rightarrow> time \<Rightarrow> database \<Rightarrow> error + DispatchTranscriptHealth" where
  "DispatchTranscriptHealth_of fault now d =
     (let h = now - hour
      in read_query fault ''transcript health'' d
           \<lparr>dh_LastReceivedAt = map_option dt_received_at (max_by dt_received_at (dispatch_transcripts d)),
            dh_RowsLastHour = count_where (received_since h) d,
            dh_RowsLast24h = count_where (received_since (now - 24 * hour)) d,
            dh_HighConfidenceLastHour = count_where (\<lambda>t. received_since h t \<and> high_confidence t) d,
            dh_LowConfidenceLastHour = count_where (\<lambda>t. received_since h t \<and> low_confidence t) d,
            dh_ReviewRecommendedLastHour = count_where (\<lambda>t. received_since h t \<and> dt_review_recommended t) d,
            dh_ParserLastBatchAt =
              max_by id (List.map_filter dt_parsed_at (dispatch_transcripts d)),
            dh_ParserRowsPromotedLastHour =
              count_where (\<lambda>t. parsed_since h t \<and> dt_parsed_incident_id t \<noteq> None) d,
            dh_ParserRowsGateFailedLastHour =
              count_where (\<lambda>t. parsed_since h t \<and> dt_parsed_incident_id t = None \<and>
                               dispatchTranscriptGateSQL t = Some False) d,
            dh_ParserRowsGeocodeFailedLastHour =
              count_where (\<lambda>t. parsed_since h t \<and> dt_parsed_incident_id t = None \<and>
                               dispatchTranscriptGateSQL t = Some True) d,
            dh_ParserBacklogUnparsed = count_where (\<lambda>t. dt_parsed_at t = None) d\<rparr>)"

section \<open>Uploads\<close>

lemma new_transcript_any:
  assumes "new_transcript i now input = Inr r"
  shows "\<exists>r'. new_transcript j now' input = Inr r'"
  using assms by (auto simp: new_transcript_def split: sum.splits)

lemma new_transcript_wav: "new_transcript i now input = Inr r \<Longrightarrow> dt_wav_filename r = di_WavFilename input \<and> dt_id r = i"
  by (auto simp: new_transcript_def split: sum.splits)

text \<open>
  An accepted upload is recorded once: it is reported as a duplicate exactly when its file name is
  already in the table, a duplicate changes nothing, file names stay unique, and repeating the upload
  gives the same id, says duplicate and changes nothing.
\<close>

theorem InsertDispatchTranscript_once:
  assumes "InsertDispatchTranscript fault now input d = (Inr (i, duplicate), d')"
  shows "(duplicate \<longleftrightarrow> di_WavFilename input \<in> dt_wav_filename ` set (dispatch_transcripts d)) \<and>
    (duplicate \<longrightarrow> d' = d) \<and>
    (distinct (map dt_wav_filename (dispatch_transcripts d)) \<longrightarrow>
      distinct (map dt_wav_filename (dispatch_transcripts d'))) \<and>
    InsertDispatchTranscript no_faults now' input d' = (Inr (i, True), d')"
proof -
  let ?find = "List.find (\<lambda>t. dt_wav_filename t = di_WavFilename input)"
  obtain row where row: "new_transcript (seq_transcript d) now input = Inr row"
    using assms by (auto simp: InsertDispatchTranscript_def split: option.splits sum.splits)
  obtain row' where row': "new_transcript (seq_transcript d') now' input = Inr row'"
    using new_transcript_any [OF row] by blast
  note wav = new_transcript_wav [OF row]
  show ?thesis
  proof (cases "?find (dispatch_transcripts d)")
    case None
    then have d': "d' = d\<lparr>dispatch_transcripts := dispatch_transcripts d @ [row], seq_transcript := seq_transcript d + 1\<rparr>"
      "i = seq_transcript d" "\<not> duplicate"
      using assms row by (auto simp: InsertDispatchTranscript_def split: option.splits)
    have new: "di_WavFilename input \<notin> dt_wav_filename ` set (dispatch_transcripts d)"
      using None by (auto simp: find_None_set)
    have "?find (dispatch_transcripts d') = Some row"
      using None wav by (simp add: d' find_append)
    then show ?thesis
      using new wav row' by (simp add: d' InsertDispatchTranscript_def no_faults_def)
  next
    case (Some t)
    then have d': "d' = d" "i = dt_id t" "duplicate"
      using assms row by (auto simp: InsertDispatchTranscript_def split: option.splits)
    moreover have "di_WavFilename input \<in> dt_wav_filename ` set (dispatch_transcripts d)"
      using find_SomeD [OF Some] by (metis imageI)
    ultimately show ?thesis
      using Some row' by (simp add: InsertDispatchTranscript_def no_faults_def)
  qed
qed

section \<open>Accounting\<close>

lemma count_where_split: "count_where p d = count_where (\<lambda>t. p t \<and> q t) d + count_where (\<lambda>t. p t \<and> \<not> q t) d"
proof -
  have "length (filter p ts) = length (filter (\<lambda>t. p t \<and> q t) ts) + length (filter (\<lambda>t. p t \<and> \<not> q t) ts)" for ts
    by (induction ts) auto
  then show ?thesis by (simp add: count_where_def)
qed

definition untold :: "dispatch_transcript \<Rightarrow> bool" where
  "untold t \<longleftrightarrow> dt_verification_confidence t = None \<and> gate_text (dt_display_text t)"

lemma sql_and_Some: "sql_and (Some a) (Some b) = Some (a \<and> b)"
  by (cases a; cases b) simp_all

lemma sql_and_None: "sql_and None (Some b) = (if b then None else Some False)"
  by (cases b) simp_all

lemma gate_unknown: "dispatchTranscriptGateSQL t = None \<longleftrightarrow> untold t"
  by (cases "dt_verification_confidence t")
    (auto simp: dispatchTranscriptGateSQL_def untold_def sql_and_Some sql_and_None)

text \<open>
  What the transcript counters add up to: every row of the last hour counts as high or as low
  confidence; every transcript parsed in the last hour counts as promoted, as stopped by the gate or
  as lost in geocoding, except those without a confidence whose text passes the gate, which none of
  the three counters sees.
\<close>

theorem DispatchTranscriptHealth_accounts:
  assumes "DispatchTranscriptHealth_of fault now d = Inr h"
  shows "dh_HighConfidenceLastHour h + dh_LowConfidenceLastHour h = dh_RowsLastHour h \<and>
    dh_ParserRowsPromotedLastHour h + dh_ParserRowsGateFailedLastHour h + dh_ParserRowsGeocodeFailedLastHour h +
      count_where (\<lambda>t. parsed_since (now - hour) t \<and> dt_parsed_incident_id t = None \<and> untold t) d =
    count_where (parsed_since (now - hour)) d"
proof -
  let ?h = "now - hour"
  have low: "low_confidence t = (\<not> high_confidence t)" for t
    by (simp add: low_confidence_def high_confidence_def split: option.split)
  have 1: "dh_HighConfidenceLastHour h + dh_LowConfidenceLastHour h = dh_RowsLastHour h"
    using assms count_where_split [of "received_since ?h" d high_confidence]
    by (auto simp: DispatchTranscriptHealth_of_def read_query_def Let_def low split: option.splits)
  let ?open = "\<lambda>t. parsed_since ?h t \<and> dt_parsed_incident_id t = None"
  have a: "count_where (parsed_since ?h) d =
      count_where (\<lambda>t. parsed_since ?h t \<and> dt_parsed_incident_id t \<noteq> None) d + count_where ?open d"
    using count_where_split [of "parsed_since ?h" d "\<lambda>t. dt_parsed_incident_id t \<noteq> None"] by simp
  have b: "count_where ?open d =
      count_where (\<lambda>t. ?open t \<and> untold t) d + count_where (\<lambda>t. ?open t \<and> \<not> untold t) d"
    by (rule count_where_split)
  have c: "count_where (\<lambda>t. ?open t \<and> \<not> untold t) d =
      count_where (\<lambda>t. (?open t \<and> \<not> untold t) \<and> dispatchTranscriptGateSQL t = Some False) d +
      count_where (\<lambda>t. (?open t \<and> \<not> untold t) \<and> dispatchTranscriptGateSQL t \<noteq> Some False) d"
    by (rule count_where_split)
  have d: "((?open t \<and> \<not> untold t) \<and> dispatchTranscriptGateSQL t = Some False) =
      (parsed_since ?h t \<and> dt_parsed_incident_id t = None \<and> dispatchTranscriptGateSQL t = Some False)"
    "((?open t \<and> \<not> untold t) \<and> dispatchTranscriptGateSQL t \<noteq> Some False) =
      (parsed_since ?h t \<and> dt_parsed_incident_id t = None \<and> dispatchTranscriptGateSQL t = Some True)" for t
    using gate_unknown [of t] by (cases "dispatchTranscriptGateSQL t"; auto)+
  have "dh_ParserRowsPromotedLastHour h = count_where (\<lambda>t. parsed_since ?h t \<and> dt_parsed_incident_id t \<noteq> None) d"
    "dh_ParserRowsGateFailedLastHour h =
      count_where (\<lambda>t. parsed_since ?h t \<and> dt_parsed_incident_id t = None \<and> dispatchTranscriptGateSQL t = Some False) d"
    "dh_ParserRowsGeocodeFailedLastHour h =
      count_where (\<lambda>t. parsed_since ?h t \<and> dt_parsed_incident_id t = None \<and> dispatchTranscriptGateSQL t = Some True) d"
    using assms by (auto simp: DispatchTranscriptHealth_of_def read_query_def Let_def split: option.splits)
  then show ?thesis using 1 a b [unfolded conj_assoc] c [unfolded d, unfolded conj_assoc] by simp
qed

section \<open>Samples\<close>


definition sample_upload :: DispatchTranscriptInsert where
  "sample_upload =
     \<lparr>di_WavFilename = ''a.wav'', di_CapturedAt = 0, di_AudioDurationSeconds = None,
      di_DisplayText = ''CDEC 5, Engine 7, 123 N Main St'', di_PrimaryText = [], di_SecondaryText = [],
      di_PrimaryModel = [], di_SecondaryModel = [], di_PrimaryAvgLogprob = None,
      di_VerificationConfidence = Some (Fin (19999 / 25000)), di_VerificationAgreement = None,
      di_ReviewRecommended = False, di_DomainKeywordMatches = [], di_DomainKeywordRatio = None,
      di_RawPayload = []\<rparr>"

lemma sample_numeric: "numeric 6 4 (Fin (19999 / 25000)) = Inr (Fin (4 / 5))"
  by (simp add: numeric_def round_half_away_def Let_def floor_eq_iff) 

lemma sample_upload_stored:
  "\<exists>d'. InsertDispatchTranscript no_faults 7 sample_upload empty_db = (Inr (1, False), d') \<and>
     length (dispatch_transcripts d') = 1"
  by (simp add: InsertDispatchTranscript_def new_transcript_def numeric_column_def sample_upload_def
      no_faults_def empty_db_def sample_numeric)

theorem InsertDispatchTranscript_once_witness:
  "\<exists>d'. InsertDispatchTranscript no_faults 7 sample_upload empty_db = (Inr (1, False), d') \<and>
     InsertDispatchTranscript no_faults 9 sample_upload d' = (Inr (1, True), d')"
proof -
  obtain d' where d': "InsertDispatchTranscript no_faults 7 sample_upload empty_db = (Inr (1, False), d')"
    using sample_upload_stored by blast
  from InsertDispatchTranscript_once [OF d', of 9] d' show ?thesis by blast
qed

lemma sample_gate_text: "gate_text ''CDEC 5, Engine 7, 123 N Main St''"
  by code_simp

definition sample_rejected :: dispatch_transcript where
  "sample_rejected =
     \<lparr>dt_id = 1, dt_wav_filename = ''a.wav'', dt_captured_at = 0, dt_received_at = 0,
      dt_audio_duration_s = None, dt_display_text = ''CDEC 5, Engine 7, 123 N Main St'',
      dt_primary_text = None, dt_secondary_text = None, dt_primary_model = None, dt_secondary_model = None,
      dt_primary_avg_logprob = None, dt_verification_confidence = None, dt_verification_agreement = None,
      dt_review_recommended = False, dt_domain_keyword_matches = [], dt_domain_keyword_ratio = None,
      dt_raw_payload = [], dt_parsed_incident_id = None, dt_parsed_at = Some 0, dt_geocode_attempts = None\<rparr>"

lemma sample_untold: "untold sample_rejected \<and> parsed_since (0 - hour) sample_rejected \<and> dt_parsed_incident_id sample_rejected = None"
  using sample_gate_text by (simp add: untold_def sample_rejected_def parsed_since_def duration_defs)

theorem DispatchTranscriptHealth_accounts_witness:
  "\<exists>h. DispatchTranscriptHealth_of no_faults 0 (empty_db\<lparr>dispatch_transcripts := [sample_rejected]\<rparr>) = Inr h \<and>
     dh_ParserRowsPromotedLastHour h + dh_ParserRowsGateFailedLastHour h + dh_ParserRowsGeocodeFailedLastHour h + 1 =
       count_where (parsed_since (0 - hour)) (empty_db\<lparr>dispatch_transcripts := [sample_rejected]\<rparr>)"
proof -
  let ?d = "empty_db\<lparr>dispatch_transcripts := [sample_rejected]\<rparr>"
  obtain h where h: "DispatchTranscriptHealth_of no_faults 0 ?d = Inr h"
    by (simp add: DispatchTranscriptHealth_of_def read_query_def no_faults_def Let_def)
  have "count_where (\<lambda>t. parsed_since (0 - hour) t \<and> dt_parsed_incident_id t = None \<and> untold t) ?d = 1"
    using sample_untold by (simp add: count_where_def)
  with DispatchTranscriptHealth_accounts [OF h] h show ?thesis by (intro exI [of _ h]) simp
qed

end
