(* ===== verification/Go_Text.thy ===== *)
theory Go_Text
  imports Go_Prelude
begin

text \<open>
  More of Go's standard library: \<^verbatim>\<open>strconv.ParseFloat\<close>, the calendar, \<^verbatim>\<open>time.Parse\<close> and
  \<^verbatim>\<open>Time.Format\<close> with \<^verbatim>\<open>time.RFC3339\<close>.

  \<^verbatim>\<open>ParseFloat\<close> is modelled on decimal literals, infinities and NaN (without rounding), \<^verbatim>\<open>time.Parse\<close> on the
  texts RFC 3339 allows; both functions of Go accept some other texts (hexadecimal literals, an hour of
  one digit), for which the models ask the function \<^verbatim>\<open>other\<close> they are given.
\<close>

section \<open>Floating-point literals\<close>

definition digits_int :: "string \<Rightarrow> int" where
  "digits_int s = foldl (\<lambda>v c. 10 * v + (int (code_of c) - 48)) 0 s"

definition take_digits :: "string \<Rightarrow> string \<times> string" where
  "take_digits s = (takeWhile is_digit s, dropWhile is_digit s)"

definition split_sign :: "string \<Rightarrow> bool \<times> string" where
  "split_sign s =
     (if prefix ''-'' s then (True, tl s) else if prefix ''+'' s then (False, tl s) else (False, s))"

definition exponent :: "string \<Rightarrow> int option" where
  "exponent s =
     (if s = [] then Some 0
      else if hd s = CHR ''e'' \<or> hd s = CHR ''E'' then
        (let (neg, ds) = split_sign (tl s)
         in if ds \<noteq> [] \<and> list_all is_digit ds
            then Some (if neg then - digits_int ds else digits_int ds) else None)
      else None)"

definition pow10 :: "int \<Rightarrow> rat" where
  "pow10 e = (if e < 0 then 1 / 10 ^ nat (- e) else 10 ^ nat e)"

definition decimal :: "string \<Rightarrow> rat option" where
  "decimal s =
     (let (neg, s1) = split_sign s;
          (whole, s2) = take_digits s1;
          (frac, s3) = (if prefix ''.'' s2 then take_digits (tl s2) else ([], s2))
      in if whole @ frac = [] then None
         else (case exponent s3 of
                 None \<Rightarrow> None
               | Some e \<Rightarrow>
                   (let v = of_int (digits_int (whole @ frac)) * pow10 (e - int (length frac))
                    in Some (if neg then - v else v))))"

definition special :: "string \<Rightarrow> float64 option" where
  "special s =
     (let (neg, w) = split_sign (ToLower s)
      in if ToLower s = ''nan'' then Some NaN
         else if w = ''inf'' \<or> w = ''infinity'' then Some (if neg then NegInf else PosInf)
         else None)"

text \<open>A decimal at or beyond half an ulp above the greatest finite value is out of range.\<close>

definition float_limit :: rat where "float_limit = 2 ^ 1024 - 2 ^ 970"

lemma float_limit_code [code]:
  "float_limit =
     179769313486231580793728971405303415079934132710037826936173778980444968292764750946649017977587207096330286416692887910946555547851940402630657488671505820681908902000708383676273854845817711531764475730270069855571366959622842914819860834936475292719074168444365510704342711559699508093042880177904174497792"
  by (simp add: float_limit_def)

definition ParseFloat :: "(string \<Rightarrow> float64 option) \<Rightarrow> string \<Rightarrow> float64 option" where
  "ParseFloat other s =
     (case special s of
        Some v \<Rightarrow> Some v
      | None \<Rightarrow>
          (case decimal s of
             Some q \<Rightarrow> if \<bar>q\<bar> < float_limit then Some (Fin q) else None
           | None \<Rightarrow> other s))"

section \<open>The calendar\<close>

definition leap :: "int \<Rightarrow> bool" where
  "leap y \<longleftrightarrow> 4 dvd y \<and> (\<not> 100 dvd y \<or> 400 dvd y)"

definition days_in_month :: "int \<Rightarrow> int \<Rightarrow> int" where
  "days_in_month y m =
     (if m = 2 then (if leap y then 29 else 28) else if m \<in> {4, 6, 9, 11} then 30 else 31)"

text \<open>Days from 0001-01-01.\<close>

definition days_before_year :: "int \<Rightarrow> int" where
  "days_before_year y = 365 * (y - 1) + (y - 1) div 4 - (y - 1) div 100 + (y - 1) div 400"

definition days_before_month :: "int \<Rightarrow> int \<Rightarrow> int" where
  "days_before_month y m = sum_list (map (days_in_month y) [1..m - 1])"

definition day_number :: "int \<Rightarrow> int \<Rightarrow> int \<Rightarrow> int" where
  "day_number y m d = days_before_year y + days_before_month y m + (d - 1)"

definition unix_day :: int where "unix_day = 719162"

definition DateUTC :: "int \<Rightarrow> int \<Rightarrow> int \<Rightarrow> int \<Rightarrow> int \<Rightarrow> int \<Rightarrow> time" where
  "DateUTC y m d hh mm ss =
     ((day_number y m d - unix_day) * 86400 + hh * 3600 + mm * 60 + ss) * second"

definition year_of :: "int \<Rightarrow> int" where
  "year_of n =
     (let y = (400 * n) div 146097 + 1
      in if n < days_before_year y then y - 1 else if days_before_year (y + 1) \<le> n then y + 1 else y)"

definition month_of :: "int \<Rightarrow> int \<Rightarrow> int" where
  "month_of y yday = int (length (filter (\<lambda>m. days_before_month y m \<le> yday) [1..12]))"

definition pad :: "nat \<Rightarrow> int \<Rightarrow> string" where
  "pad n v = (let ds = Itoa v in replicate (n - length ds) (CHR ''0'') @ ds)"

definition FormatRFC3339 :: "time \<Rightarrow> string" where
  "FormatRFC3339 t =
     (let secs = t div second; n = secs div 86400 + unix_day; r = secs mod 86400;
          y = year_of n; yday = n - days_before_year y; m = month_of y yday;
          d = yday - days_before_month y m + 1
      in pad 4 y @ ''-'' @ pad 2 m @ ''-'' @ pad 2 d @ ''T'' @ pad 2 (r div 3600) @ '':'' @
         pad 2 (r div 60 mod 60) @ '':'' @ pad 2 (r mod 60) @ ''Z'')"

section \<open>Parsing times\<close>

text \<open>A field of fixed width, and what follows it.\<close>

definition field :: "nat \<Rightarrow> string \<Rightarrow> (int \<times> string) option" where
  "field n s =
     (if n \<le> length s \<and> list_all is_digit (take n s) then Some (digits_int (take n s), drop n s) else None)"

definition expect :: "char \<Rightarrow> string \<Rightarrow> string option" where
  "expect c s = (case s of [] \<Rightarrow> None | x # xs \<Rightarrow> if x = c then Some xs else None)"

fun fields :: "(nat \<times> char option) list \<Rightarrow> string \<Rightarrow> (int list \<times> string) option" where
  "fields [] s = Some ([], s)"
| "fields ((n, sep) # rest) s =
     (case field n s of
        None \<Rightarrow> None
      | Some (v, s1) \<Rightarrow>
          (case (case sep of None \<Rightarrow> Some s1 | Some c \<Rightarrow> expect c s1) of
             None \<Rightarrow> None
           | Some s2 \<Rightarrow> map_option (apfst ((#) v)) (fields rest s2)))"

text \<open>Nanoseconds; digits past the ninth are dropped.\<close>

definition fraction :: "string \<Rightarrow> (int \<times> string) option" where
  "fraction s =
     (if prefix ''.'' s then
        (let (ds, rest) = take_digits (tl s)
         in if ds = [] then None
            else Some (digits_int (take 9 (ds @ replicate 9 (CHR ''0''))), rest))
      else Some (0, s))"

definition zone :: "string \<Rightarrow> int option" where
  "zone s =
     (if s = ''Z'' then Some 0
      else if prefix ''+'' s \<or> prefix ''-'' s then
        (case fields [(2, Some (CHR '':'')), (2, None)] (tl s) of
           Some ([hh, mm], []) \<Rightarrow>
             if hh \<le> 23 \<and> mm \<le> 59
             then Some ((if prefix ''-'' s then - 1 else 1) * (hh * 3600 + mm * 60)) else None
         | _ \<Rightarrow> None)
      else None)"

definition strict_rfc3339 :: "string \<Rightarrow> time option" where
  "strict_rfc3339 s =
     (case fields [(4, Some (CHR ''-'')), (2, Some (CHR ''-'')), (2, Some (CHR ''T'')), (2, Some (CHR '':'')),
                   (2, Some (CHR '':'')), (2, None)] s of
        Some ([y, m, d, hh, mm, ss], rest) \<Rightarrow>
          if 1 \<le> m \<and> m \<le> 12 \<and> 1 \<le> d \<and> d \<le> days_in_month y m \<and> hh \<le> 23 \<and> mm \<le> 59 \<and> ss \<le> 59
          then (case fraction rest of
                  None \<Rightarrow> None
                | Some (ns, rest1) \<Rightarrow>
                    map_option (\<lambda>z. DateUTC y m d hh mm ss + ns - z * second) (zone rest1))
          else None
      | _ \<Rightarrow> None)"

definition ParseRFC3339 :: "(string \<Rightarrow> time option) \<Rightarrow> string \<Rightarrow> time option" where
  "ParseRFC3339 other s = (case strict_rfc3339 s of Some t \<Rightarrow> Some t | None \<Rightarrow> other s)"

section \<open>Durations\<close>

text \<open>
  \<^verbatim>\<open>time.ParseDuration\<close>: a sign, then numbers with units. Values are exact where Go multiplies the
  fraction in floating point.
\<close>

definition unit_of :: "string \<Rightarrow> int option" where
  "unit_of u =
     (if u = ''ns'' then Some 1
      else if u = ''us'' \<or> u = [CHR 0xB5, CHR ''s''] then Some 1000
      else if u = ''ms'' then Some millisecond
      else if u = ''s'' then Some second
      else if u = ''m'' then Some minute
      else if u = ''h'' then Some hour
      else None)"

text \<open>One number with its unit, and what follows it.\<close>

definition duration_part :: "string \<Rightarrow> (int \<times> string) option" where
  "duration_part s =
     (let (whole, s1) = take_digits s;
          (frac, s2) = (if prefix ''.'' s1 then take_digits (tl s1) else ([], s1));
          u = takeWhile (\<lambda>c. c \<noteq> CHR ''.'' \<and> \<not> is_digit c) s2;
          s3 = dropWhile (\<lambda>c. c \<noteq> CHR ''.'' \<and> \<not> is_digit c) s2
      in if whole @ frac = [] then None
         else (case unit_of u of
                 None \<Rightarrow> None
               | Some d \<Rightarrow> Some (digits_int whole * d + digits_int frac * d div 10 ^ length frac, s3)))"

text \<open>Every part takes at least its unit, so as many rounds as there are characters are enough.\<close>

fun duration_parts :: "nat \<Rightarrow> string \<Rightarrow> int \<Rightarrow> int option" where
  "duration_parts n [] acc = Some acc"
| "duration_parts 0 s acc = None"
| "duration_parts (Suc n) s acc =
     (case duration_part s of
        None \<Rightarrow> None
      | Some (v, rest) \<Rightarrow> if acc + v > 2 ^ 63 then None else duration_parts n rest (acc + v))"

definition ParseDuration :: "string \<Rightarrow> duration option" where
  "ParseDuration s =
     (let (neg, ds) = split_sign s
      in if ds = ''0'' then Some 0
         else if ds = [] then None
         else (case duration_parts (length ds) ds 0 of
                 None \<Rightarrow> None
               | Some d \<Rightarrow> if neg then Some (- d) else if d > max_duration then None else Some d))"

end
