(* ===== verification/Retention.thy ===== *)
theory Retention
  imports Lifecycle Dispatch_Worker Go_Text
begin

text \<open>
  What ages out: \<^verbatim>\<open>internal/store/retention.go\<close> and the janitor that runs it (\<^verbatim>\<open>cmd/janitor\<close>).
  \<^verbatim>\<open>VACUUM ANALYZE\<close> leaves the tables as they are and is not a step of the model. A sweep's deadline
  shows as a fault.
\<close>

section \<open>Sweeps\<close>

definition RawRetentionCutoff :: "time \<Rightarrow> duration \<Rightarrow> time" where
  "RawRetentionCutoff now retention = (if retention \<le> 0 then now else now - retention)"

definition raw_expired :: "time \<Rightarrow> incident_row \<Rightarrow> bool" where
  "raw_expired cutoff r \<longleftrightarrow> ir_raw r \<noteq> None \<and> ir_raw_dropped_at r = None \<and> ir_last_seen_at r < cutoff"

text \<open>\<^verbatim>\<open>RowsAffected\<close> and the tables.\<close>

definition DropRawOlderThan :: "faults \<Rightarrow> time \<Rightarrow> duration \<Rightarrow> database \<Rightarrow> (error + int) \<times> database" where
  "DropRawOlderThan fault now retention d =
     (let cutoff = RawRetentionCutoff now retention
      in case fault DropRawStmt d of
           Some e \<Rightarrow> (Inl (''drop raw older than '' @ FormatRFC3339 cutoff @ '': '' @ e), d)
         | None \<Rightarrow>
             (Inr (int (length (filter (raw_expired cutoff) (incidents d)))),
              d\<lparr>incidents := update_where (raw_expired cutoff)
                   (\<lambda>r. r\<lparr>ir_raw := None, ir_raw_dropped_at := Some now\<rparr>) (incidents d)\<rparr>))"

definition sdr_stale :: "time \<Rightarrow> incident_row \<Rightarrow> bool" where
  "sdr_stale cutoff r \<longleftrightarrow>
     ir_source r = ''sdr_audio'' \<and> ir_cleared_at r = None \<and> ir_incident_date r < cutoff"

definition ClearStaleSDRAudioIncidents ::
  "faults \<Rightarrow> time \<Rightarrow> duration \<Rightarrow> database \<Rightarrow> (error + int) \<times> database" where
  "ClearStaleSDRAudioIncidents fault now activeWindow d =
     (if activeWindow \<le> 0 then (Inl ''clear stale SDR incidents: active window must be positive'', d)
      else
        (let cutoff = now - activeWindow
         in case fault ClearStaleStmt d of
              Some e \<Rightarrow> (Inl (''clear stale SDR incidents older than '' @ FormatRFC3339 cutoff @ '': '' @ e), d)
            | None \<Rightarrow>
                (Inr (int (length (filter (sdr_stale cutoff) (incidents d)))),
                 d\<lparr>incidents := update_where (sdr_stale cutoff) (\<lambda>r. r\<lparr>ir_cleared_at := Some now\<rparr>) (incidents d)\<rparr>)))"

section \<open>The janitor\<close>

definition rawSweepInterval :: duration where "rawSweepInterval = 6 * hour"
definition sdrSweepInterval :: duration where "sdrSweepInterval = minute"

definition runRawSweep :: "faults \<Rightarrow> duration \<Rightarrow> time \<Rightarrow> database \<Rightarrow> database" where
  "runRawSweep fault retention now d = snd (DropRawOlderThan fault now retention d)"

definition runSDRSweep :: "faults \<Rightarrow> duration \<Rightarrow> time \<Rightarrow> database \<Rightarrow> database" where
  "runSDRSweep fault window now d = snd (ClearStaleSDRAudioIncidents fault now window d)"

datatype tick = RawTick | SDRTick

text \<open>The loop over the two tickers: what fires, when, and what fails then.\<close>

fun janitor_loop :: "duration \<Rightarrow> duration \<Rightarrow> (tick \<times> time \<times> faults) list \<Rightarrow> database \<Rightarrow> database" where
  "janitor_loop retention window [] d = d"
| "janitor_loop retention window ((RawTick, now, fault) # ticks) d =
     janitor_loop retention window ticks (runRawSweep fault retention now d)"
| "janitor_loop retention window ((SDRTick, now, fault) # ticks) d =
     janitor_loop retention window ticks (runSDRSweep fault window now d)"

definition janitor ::
  "duration \<Rightarrow> duration \<Rightarrow> time \<times> faults \<Rightarrow> (tick \<times> time \<times> faults) list \<Rightarrow> database \<Rightarrow> database" where
  "janitor retention window start ticks d =
     janitor_loop retention window ticks (runSDRSweep (snd start) window (fst start) d)"

section \<open>A sweep touches one row at a time\<close>

definition dropped :: "time \<Rightarrow> time \<Rightarrow> incident_row \<Rightarrow> incident_row" where
  "dropped cutoff now r =
     (if raw_expired cutoff r then r\<lparr>ir_raw := None, ir_raw_dropped_at := Some now\<rparr> else r)"

definition sdr_cleared :: "time \<Rightarrow> time \<Rightarrow> incident_row \<Rightarrow> incident_row" where
  "sdr_cleared cutoff now r = (if sdr_stale cutoff r then r\<lparr>ir_cleared_at := Some now\<rparr> else r)"

text \<open>What both sweeps do to the tables: a map over the incidents that keeps their keys.\<close>

definition sweeps_rows :: "(incident_row \<Rightarrow> incident_row) \<Rightarrow> database \<Rightarrow> database \<Rightarrow> bool" where
  "sweeps_rows f d d' \<longleftrightarrow>
     d' = d\<lparr>incidents := map f (incidents d)\<rparr> \<and>
     (\<forall>r. incident_key (f r) = incident_key r \<and> ir_id (f r) = ir_id r \<and>
       ir_last_seen_poll_id (f r) = ir_last_seen_poll_id r \<and> ir_missing_since (f r) = ir_missing_since r)"

lemma sweeps_rows_id: "sweeps_rows (\<lambda>r. r) d d"
  by (simp add: sweeps_rows_def)

lemma runRawSweep_rows:
  "\<exists>f \<in> {\<lambda>r. r, dropped (RawRetentionCutoff now retention) now}. sweeps_rows f d (runRawSweep fault retention now d)"
  by (auto simp: runRawSweep_def DropRawOlderThan_def sweeps_rows_def dropped_def update_where_def
      incident_key_def Let_def split: option.split)

lemma runSDRSweep_rows:
  "\<exists>f \<in> {\<lambda>r. r, sdr_cleared (now - window) now}. sweeps_rows f d (runSDRSweep fault window now d)"
  by (auto simp: runSDRSweep_def ClearStaleSDRAudioIncidents_def sweeps_rows_def sdr_cleared_def update_where_def
      incident_key_def Let_def split: option.split)

lemma sweeps_rows_find:
  assumes "sweeps_rows f d d'"
  shows "find_incident src iid d' = map_option f (find_incident src iid d)"
proof -
  have k: "\<And>r. ir_source (f r) = ir_source r \<and> ir_incident_id (f r) = ir_incident_id r"
    using assms by (auto simp: sweeps_rows_def incident_key_def)
  have "List.find (\<lambda>r. ir_source r = src \<and> ir_incident_id r = iid) (map f rows) =
    map_option f (List.find (\<lambda>r. ir_source r = src \<and> ir_incident_id r = iid) rows)" for rows
    by (induction rows) (simp_all add: k)
  then show ?thesis using assms by (simp add: sweeps_rows_def find_incident_def)
qed

lemma sweeps_rows_ok:
  assumes "sweeps_rows f d d'" "db_ok d"
  shows "db_ok d'"
proof -
  have "db_ok (d\<lparr>incidents := update_where (\<lambda>_. True) f (incidents d)\<rparr>)"
    by (rule update_incidents_ok) (use assms in \<open>simp_all add: sweeps_rows_def\<close>)
  then show ?thesis using assms(1) by (simp add: sweeps_rows_def update_where_def)
qed

lemma sweeps_rows_lifecycle_ok:
  assumes "sweeps_rows f d d'" "lifecycle_ok d"
  shows "lifecycle_ok d'"
proof -
  have "ir_source (f r) = ir_source r" "ir_missing_since (f r) = ir_missing_since r" for r
    using assms(1) by (simp_all add: sweeps_rows_def incident_key_def)
  then have "missing_known K (f r) = missing_known K r" for K r
    by (simp add: missing_known_def split: option.split)
  then have "missing_ok d'"
    using assms by (auto simp: sweeps_rows_def lifecycle_ok_def missing_ok_def list_all_iff)
  then show ?thesis using assms sweeps_rows_ok by (simp add: lifecycle_ok_def)
qed

lemma janitor_loop_induct:
  assumes "P d"
    and "\<And>d d' f now. sweeps_rows f d d' \<Longrightarrow>
      f \<in> {\<lambda>r. r, dropped (RawRetentionCutoff now retention) now, sdr_cleared (now - window) now} \<Longrightarrow> P d \<Longrightarrow> P d'"
  shows "P (janitor_loop retention window ticks d)"
  using assms(1)
proof (induction ticks arbitrary: d)
  case Nil
  then show ?case by simp
next
  case (Cons t ticks)
  obtain k now fault where t: "t = (k, now, fault)" by (cases t)
  show ?case
  proof (cases k)
    case RawTick
    obtain f where "f \<in> {\<lambda>r. r, dropped (RawRetentionCutoff now retention) now}"
      "sweeps_rows f d (runRawSweep fault retention now d)"
      using runRawSweep_rows by blast
    then have "P (runRawSweep fault retention now d)" using assms(2) Cons.prems by blast
    then show ?thesis using Cons.IH t RawTick by simp
  next
    case SDRTick
    obtain f where "f \<in> {\<lambda>r. r, sdr_cleared (now - window) now}"
      "sweeps_rows f d (runSDRSweep fault window now d)"
      using runSDRSweep_rows by blast
    then have "P (runSDRSweep fault window now d)" using assms(2) Cons.prems by blast
    then show ?thesis using Cons.IH t SDRTick by simp
  qed
qed

section \<open>Raw payloads\<close>

lemma janitor_loop_row:
  assumes "find_incident src iid d = Some r" "Q r"
    and "\<And>r now. Q r \<Longrightarrow> Q (dropped (RawRetentionCutoff now retention) now r)"
    and "\<And>r now. Q r \<Longrightarrow> Q (sdr_cleared (now - window) now r)"
  shows "\<exists>r'. find_incident src iid (janitor_loop retention window ticks d) = Some r' \<and> Q r'"
proof (rule janitor_loop_induct [where P = "\<lambda>d. \<exists>r. find_incident src iid d = Some r \<and> Q r"])
  show "\<exists>r. find_incident src iid d = Some r \<and> Q r" using assms by blast
next
  fix d d' f now
  assume "sweeps_rows f d d'"
    and f: "f \<in> {\<lambda>r. r, dropped (RawRetentionCutoff now retention) now, sdr_cleared (now - window) now}"
    and "\<exists>r. find_incident src iid d = Some r \<and> Q r"
  moreover have "Q r \<Longrightarrow> Q (f r)" for r using f assms(3,4) by auto
  ultimately show "\<exists>r. find_incident src iid d' = Some r \<and> Q r"
    using sweeps_rows_find by fastforce
qed

text \<open>
  C33. Retention works once per incident: when an incident whose raw payload the janitor dropped is
  observed again with a payload, the new payload is stored, and no later run of the janitor, however
  long, drops it.
\<close>

theorem dropped_raw_returns_for_good:
  assumes "find_incident (inc_Source inc) (inc_IncidentID inc) d = Some r" and "ir_raw_dropped_at r \<noteq> None"
    and "inc_Raw inc \<noteq> []" and "UpsertIncident fault inc pollID observedAt d = (None, d1)"
  shows "\<exists>r'. find_incident (inc_Source inc) (inc_IncidentID inc) (janitor_loop retention window ticks d1) = Some r' \<and>
    ir_raw r' = Some (inc_Raw inc)"
proof -
  have "incidents d1 = incidents (upsertIncidentSnapshot inc pollID observedAt d)"
    using UpsertIncident_effect [OF assms(4)] by simp
  then have "find_incident (inc_Source inc) (inc_IncidentID inc) d1 = Some (conflict_row inc pollID observedAt r)"
    using assms(1) find_incident_upsert [of "inc_Source inc" "inc_IncidentID inc" inc pollID observedAt d]
    by (simp add: find_incident_def)
  moreover have "ir_raw (conflict_row inc pollID observedAt r) = Some (inc_Raw inc) \<and>
      ir_raw_dropped_at (conflict_row inc pollID observedAt r) \<noteq> None"
    using assms(2,3) by (simp add: conflict_row_def)
  ultimately have "\<exists>r'. find_incident (inc_Source inc) (inc_IncidentID inc) (janitor_loop retention window ticks d1) = Some r' \<and>
      (ir_raw r' = Some (inc_Raw inc) \<and> ir_raw_dropped_at r' \<noteq> None)"
    by (rule janitor_loop_row) (auto simp: dropped_def raw_expired_def sdr_cleared_def)
  then show ?thesis by blast
qed

section \<open>The window of the radio incidents\<close>

definition sdr_live :: "incident_row \<Rightarrow> bool" where
  "sdr_live r \<longleftrightarrow> ir_source r = ''sdr_audio'' \<and> ir_cleared_at r = None"

lemma sdr_sweep_window:
  assumes "0 < window" "fault ClearStaleStmt d = None"
  shows "list_all (\<lambda>r. sdr_live r \<longrightarrow> now - window \<le> ir_incident_date r)
    (incidents (runSDRSweep fault window now d))"
  using assms by (auto simp: runSDRSweep_def ClearStaleSDRAudioIncidents_def Let_def update_where_def
      list_all_iff sdr_stale_def sdr_live_def)

lemma janitor_loop_append:
  "janitor_loop retention window (ts @ us) d = janitor_loop retention window us (janitor_loop retention window ts d)"
proof (induction ts arbitrary: d)
  case (Cons t ts)
  obtain k now fault where "t = (k, now, fault)" by (cases t)
  with Cons show ?case by (cases k) simp_all
qed simp


section \<open>Samples\<close>

definition raw_incident :: Incident where "raw_incident = sample_incident\<lparr>inc_Raw := ''{}''\<rparr>"

definition dropped_db :: database where
  "dropped_db = runRawSweep no_faults 0 1000 (snd (UpsertIncident no_faults raw_incident 1 100 sample_db))"

theorem dropped_raw_returns_for_good_witness:
  "\<exists>d1 r'. UpsertIncident no_faults raw_incident 1 2000 dropped_db = (None, d1) \<and>
     find_incident ''phoenix-fire-mapserver'' ''F1''
       (janitor_loop 10 10 [(RawTick, 1000000, no_faults), (RawTick, 2000000, no_faults)] d1) = Some r' \<and>
     ir_raw r' = Some ''{}''"
proof -
  have row: "map_option ir_raw_dropped_at (find_incident (inc_Source raw_incident) (inc_IncidentID raw_incident) dropped_db) =
      Some (Some 1000)" and raw: "inc_Raw raw_incident = ''{}''"
    and up: "UpsertIncident no_faults raw_incident 1 2000 dropped_db =
      (None, snd (UpsertIncident no_faults raw_incident 1 2000 dropped_db))"
    by code_simp+
  obtain r where r: "find_incident (inc_Source raw_incident) (inc_IncidentID raw_incident) dropped_db = Some r"
    "ir_raw_dropped_at r \<noteq> None"
    using row by auto
  have "inc_Raw raw_incident \<noteq> []" by (simp add: raw)
  from dropped_raw_returns_for_good [OF r this up, of 10 10 "[(RawTick, 1000000, no_faults), (RawTick, 2000000, no_faults)]"]
  show ?thesis using up raw by (auto simp: raw_incident_def sample_incident_def)
qed


end
