(* ===== verification/Config.thy ===== *)
theory Config
  imports Go_Text
begin

text \<open>
  The configuration (\<^verbatim>\<open>internal/config/config.go\<close>): what \<^verbatim>\<open>Load\<close> makes of the environment. The
  environment is the function \<^verbatim>\<open>os.LookupEnv\<close>; an error is one of the eight checks, with the values its
  message quotes.
\<close>

type_synonym env = "string \<Rightarrow> string option"

record Config =
  c_DatabaseURL :: string
  c_AdminToken :: string
  c_PollInterval :: duration
  c_PollJitter :: duration
  c_HTTPAddr :: string
  c_FireStationsURL :: string
  c_MapboxToken :: string
  c_ClearAfterMisses :: int
  c_SourceDegradedAfter :: duration
  c_SourceDownAfter :: duration
  c_SourceDownFailures :: int
  c_FrozenRepeatCount :: int
  c_FrozenDownAfter :: duration
  c_SuddenCollapsePct :: int
  c_RawRetention :: duration
  c_DispatchMaxAge :: duration
  c_SDRActiveWindow :: duration
  c_LogLevel :: string
  c_PaidTierEnabled :: bool
  c_AllowedOrigins :: "string list"

datatype config_error =
    JitterNotBelowInterval duration duration
  | ClearAfterMissesTooSmall
  | SourceThresholds
  | SourceDownFailuresTooSmall
  | FrozenThresholds
  | SuddenCollapseRange
  | DispatchMaxAgeNotPositive
  | SDRActiveWindowNotPositive

definition DefaultDispatchMaxAge :: duration where "DefaultDispatchMaxAge = 2 * hour"
definition DefaultSDRActiveWindow :: duration where "DefaultSDRActiveWindow = 90 * minute"

section \<open>One variable\<close>

definition env_string :: "env \<Rightarrow> string \<Rightarrow> string \<Rightarrow> string" where
  "env_string lookup key fallback =
     (case lookup key of None \<Rightarrow> fallback | Some v \<Rightarrow> if v \<noteq> [] then v else fallback)"

definition env_parsed :: "(string \<Rightarrow> 'a option) \<Rightarrow> env \<Rightarrow> string \<Rightarrow> 'a \<Rightarrow> 'a" where
  "env_parsed parse lookup key fallback =
     (case lookup key of
        None \<Rightarrow> fallback
      | Some v \<Rightarrow> if v \<noteq> [] then (case parse v of None \<Rightarrow> fallback | Some x \<Rightarrow> x) else fallback)"

definition envInt :: "env \<Rightarrow> string \<Rightarrow> int \<Rightarrow> int" where
  "envInt = env_parsed Atoi"

definition envDuration :: "env \<Rightarrow> string \<Rightarrow> duration \<Rightarrow> duration" where
  "envDuration = env_parsed ParseDuration"

definition parse_bool :: "string \<Rightarrow> bool option" where
  "parse_bool v =
     (if v \<in> {''1'', ''true'', ''TRUE'', ''True'', ''yes'', ''YES'', ''Yes'', ''on'', ''ON'', ''On''} then Some True
      else if v \<in> {''0'', ''false'', ''FALSE'', ''False'', ''no'', ''NO'', ''No'', ''off'', ''OFF'', ''Off''}
      then Some False else None)"

definition envBool :: "env \<Rightarrow> string \<Rightarrow> bool \<Rightarrow> bool" where
  "envBool = env_parsed parse_bool"

definition envList :: "env \<Rightarrow> string \<Rightarrow> string list" where
  "envList lookup key =
     (case lookup key of
        None \<Rightarrow> []
      | Some raw \<Rightarrow>
          if raw = [] then []
          else filter (\<lambda>part. part \<noteq> []) (map TrimSpace (Split raw (CHR '',''))))"

section \<open>Loading\<close>

definition read_env :: "env \<Rightarrow> Config" where
  "read_env e =
     \<lparr>c_DatabaseURL = env_string e ''DATABASE_URL'' ''postgres://localhost:5432/phoenix_feed?sslmode=disable'',
      c_AdminToken = env_string e ''ADMIN_TOKEN'' [],
      c_PollInterval = envDuration e ''POLL_INTERVAL'' (60 * second),
      c_PollJitter = envDuration e ''POLL_JITTER'' (10 * second),
      c_HTTPAddr = env_string e ''HTTP_ADDR'' '':8080'',
      c_FireStationsURL = env_string e ''FIRE_STATIONS_URL'' [],
      c_MapboxToken = env_string e ''MAPBOX_TOKEN'' [],
      c_ClearAfterMisses = envInt e ''CLEAR_AFTER_MISSES'' 5,
      c_SourceDegradedAfter = envDuration e ''SOURCE_DEGRADED_AFTER'' (3 * minute),
      c_SourceDownAfter = envDuration e ''SOURCE_DOWN_AFTER'' (10 * minute),
      c_SourceDownFailures = envInt e ''SOURCE_DOWN_FAILURES'' 3,
      c_FrozenRepeatCount = envInt e ''FROZEN_REPEAT_COUNT'' 3,
      c_FrozenDownAfter = envDuration e ''FROZEN_DOWN_AFTER'' (10 * minute),
      c_SuddenCollapsePct = envInt e ''SUDDEN_COLLAPSE_PERCENT'' 80,
      c_RawRetention = envDuration e ''RAW_RETENTION'' (30 * 24 * hour),
      c_DispatchMaxAge = envDuration e ''DISPATCH_MAX_AGE'' DefaultDispatchMaxAge,
      c_SDRActiveWindow = envDuration e ''SDR_ACTIVE_WINDOW'' DefaultSDRActiveWindow,
      c_LogLevel = env_string e ''LOG_LEVEL'' ''info'',
      c_PaidTierEnabled = envBool e ''PAID_TIER_ENABLED'' False,
      c_AllowedOrigins = envList e ''ALLOWED_ORIGINS''\<rparr>"

definition Load :: "env \<Rightarrow> config_error + Config" where
  "Load e =
     (let c = read_env e
      in if c_PollJitter c \<ge> c_PollInterval c
         then Inl (JitterNotBelowInterval (c_PollJitter c) (c_PollInterval c))
         else if c_ClearAfterMisses c < 1 then Inl ClearAfterMissesTooSmall
         else if c_SourceDegradedAfter c \<le> 0 \<or> c_SourceDownAfter c \<le> c_SourceDegradedAfter c
         then Inl SourceThresholds
         else if c_SourceDownFailures c < 1 then Inl SourceDownFailuresTooSmall
         else if c_FrozenRepeatCount c < 2 \<or> c_FrozenDownAfter c \<le> 0 then Inl FrozenThresholds
         else if c_SuddenCollapsePct c < 1 \<or> c_SuddenCollapsePct c > 100 then Inl SuddenCollapseRange
         else if c_DispatchMaxAge c \<le> 0 then Inl DispatchMaxAgeNotPositive
         else if c_SDRActiveWindow c \<le> 0 then Inl SDRActiveWindowNotPositive
         else Inr c)"

section \<open>What a loaded configuration guarantees\<close>

definition config_ok :: "Config \<Rightarrow> bool" where
  "config_ok c \<longleftrightarrow>
     c_PollJitter c < c_PollInterval c \<and> 1 \<le> c_ClearAfterMisses c \<and>
     0 < c_SourceDegradedAfter c \<and> c_SourceDegradedAfter c < c_SourceDownAfter c \<and>
     1 \<le> c_SourceDownFailures c \<and> 2 \<le> c_FrozenRepeatCount c \<and> 0 < c_FrozenDownAfter c \<and>
     1 \<le> c_SuddenCollapsePct c \<and> c_SuddenCollapsePct c \<le> 100 \<and>
     0 < c_DispatchMaxAge c \<and> 0 < c_SDRActiveWindow c"

lemma Load_ok_iff: "Load e = Inr c \<longleftrightarrow> c = read_env e \<and> config_ok c"
  by (auto simp: Load_def config_ok_def Let_def)

lemma env_parsed_range:
  "env_parsed parse e key fallback \<in> insert fallback {x. \<exists>v. e key = Some v \<and> parse v = Some x}"
  by (auto simp: env_parsed_def split: option.split)

definition mistyped :: "env \<Rightarrow> string \<Rightarrow> (string \<Rightarrow> 'a option) \<Rightarrow> bool" where
  "mistyped e key parse \<longleftrightarrow> (case e key of None \<Rightarrow> True | Some v \<Rightarrow> v = [] \<or> parse v = None)"

lemma mistyped_default: "mistyped e key parse \<Longrightarrow> env_parsed parse e key fallback = fallback"
  by (auto simp: mistyped_def env_parsed_def split: option.splits)

end
