(* ===== verification/Ingester.thy ===== *)
theory Ingester
  imports Config Lifecycle Phxfire_Client
begin

text \<open>
  The ingester (\<^verbatim>\<open>cmd/ingester\<close>): one source, polled at a jittered interval plus a backoff, each result
  handed to the lifecycle manager. One round is the wait before the poll, the poll, the apply and the
  new backoff; what a round meets (the random draw, the upstream, the two clock readings, the database's
  faults) is a record.
\<close>

section \<open>The loop\<close>

definition capBackoff :: "duration \<Rightarrow> duration" where
  "capBackoff d = (if d > 90 * second then 90 * second else d)"

definition next_backoff :: "PollResult \<Rightarrow> duration \<Rightarrow> duration" where
  "next_backoff res backoff =
     (if Success res then 0
      else if res_Classification res = PollDegradedSnapshot then 0
      else if res_StatusCode res = 429 \<or> res_StatusCode res = 403 then capBackoff (backoff * 2 + 30 * second)
      else capBackoff (backoff * 2 + 5 * second))"

definition pickSource :: "Config \<Rightarrow> Client" where
  "pickSource cfg =
     NewWithPolicy \<lparr>FrozenRepeatCount = c_FrozenRepeatCount cfg, SuddenCollapsePercent = c_SuddenCollapsePct cfg\<rparr>"

record round =
  rd_rnd :: rat
  rd_upstream :: Upstream
  rd_startedAt :: time
  rd_finishedAt :: time
  rd_faults :: faults

record ingester =
  ig_client :: Client
  ig_backoff :: duration
  ig_db :: database

text \<open>The state after a round, and the delay it slept first.\<close>

definition ingest_round :: "Config \<Rightarrow> Codec \<Rightarrow> round \<Rightarrow> ingester \<Rightarrow> ingester \<times> duration" where
  "ingest_round cfg codec rd s =
     (let wait = Jitter (c_PollInterval cfg) (c_PollJitter cfg) (rd_rnd rd) + ig_backoff s;
          (client, res) = Poll codec (rd_upstream rd) (rd_startedAt rd) (rd_finishedAt rd) (ig_client s);
          db = snd (Apply (rd_faults rd) (c_ClearAfterMisses cfg) res (ig_db s))
      in (\<lparr>ig_client = client, ig_backoff = next_backoff res (ig_backoff s), ig_db = db\<rparr>, wait))"

fun ingest_loop :: "Config \<Rightarrow> Codec \<Rightarrow> round list \<Rightarrow> ingester \<Rightarrow> ingester \<times> duration list" where
  "ingest_loop cfg codec [] s = (s, [])"
| "ingest_loop cfg codec (rd # rds) s =
     (let (s1, wait) = ingest_round cfg codec rd s; (s2, waits) = ingest_loop cfg codec rds s1
      in (s2, wait # waits))"

definition ingester_run :: "env \<Rightarrow> Codec \<Rightarrow> round list \<Rightarrow> database \<Rightarrow> config_error + ingester \<times> duration list" where
  "ingester_run e codec rds d =
     (case Load e of
        Inl err \<Rightarrow> Inl err
      | Inr cfg \<Rightarrow>
          Inr (ingest_loop cfg codec rds \<lparr>ig_client = pickSource cfg, ig_backoff = 0, ig_db = d\<rparr>))"

section \<open>Backoff\<close>

definition backoff_ok :: "duration \<Rightarrow> bool" where
  "backoff_ok b \<longleftrightarrow> 0 \<le> b \<and> b \<le> 90 * second"

lemma second_pos [simp]: "0 < second" by (simp add: second_def)

lemma next_backoff_ok: "backoff_ok b \<Longrightarrow> backoff_ok (next_backoff res b)"
  by (auto simp: next_backoff_def backoff_ok_def capBackoff_def second_def)

text \<open>The backoff after \<open>k\<close> failures in a row, each adding \<open>step\<close> to twice the last one.\<close>

lemma cap_step: "0 \<le> step \<Longrightarrow> 0 \<le> b \<Longrightarrow> capBackoff (capBackoff b * 2 + step) = capBackoff (b * 2 + step)"
  by (auto simp: capBackoff_def second_def)

lemma backoff_closed_form:
  assumes "0 \<le> step"
  shows "((\<lambda>b. capBackoff (b * 2 + step)) ^^ k) 0 = capBackoff (step * (2 ^ k - 1))"
proof (induction k)
  case 0
  then show ?case by (simp add: capBackoff_def second_def)
next
  case (Suc k)
  have pos: "0 \<le> step * (2 ^ k - 1)" using assms by simp
  have "((\<lambda>b. capBackoff (b * 2 + step)) ^^ Suc k) 0 = capBackoff (capBackoff (step * (2 ^ k - 1)) * 2 + step)"
    by (simp only: funpow.simps comp_apply Suc)
  also have "\<dots> = capBackoff (step * (2 ^ k - 1) * 2 + step)" by (rule cap_step [OF assms pos])
  also have "step * (2 ^ k - 1) * 2 + step = step * (2 ^ Suc k - 1)" by (simp add: algebra_simps)
  finally show ?case .
qed

definition transport_failure :: "PollResult \<Rightarrow> bool" where
  "transport_failure res \<longleftrightarrow>
     \<not> Success res \<and> res_Classification res \<noteq> PollDegradedSnapshot \<and>
     res_StatusCode res \<noteq> 429 \<and> res_StatusCode res \<noteq> 403"

definition throttled :: "PollResult \<Rightarrow> bool" where
  "throttled res \<longleftrightarrow> res_StatusCode res = 429 \<or> res_StatusCode res = 403"

lemma throttled_fails: "throttled res \<Longrightarrow> \<not> Success res"
  by (auto simp: throttled_def Success_def)

lemma fold_uniform:
  assumes "\<And>res b. res \<in> set rs \<Longrightarrow> next_backoff res b = f b"
  shows "fold next_backoff rs b = (f ^^ length rs) b"
  using assms
proof (induction rs arbitrary: b)
  case (Cons r rs)
  have "fold next_backoff rs (next_backoff r b) = (f ^^ length rs) (f b)"
    using Cons.IH [of "next_backoff r b"] Cons.prems by simp
  then show ?case by (simp add: funpow_swap1)
qed simp

section \<open>The loop is made of its parts\<close>

definition poll_of :: "Codec \<Rightarrow> round \<Rightarrow> Client \<Rightarrow> Client \<times> PollResult" where
  "poll_of codec rd c = Poll codec (rd_upstream rd) (rd_startedAt rd) (rd_finishedAt rd) c"

text \<open>The results of the polls, as the source gives them to the loop.\<close>

definition poll_results :: "Codec \<Rightarrow> round list \<Rightarrow> Client \<Rightarrow> PollResult list" where
  "poll_results codec rds c = snd (run_source (poll_of codec) rds c)"

fun apply_all :: "int \<Rightarrow> (faults \<times> PollResult) list \<Rightarrow> database \<Rightarrow> database" where
  "apply_all N [] d = d"
| "apply_all N ((fault, res) # rs) d = apply_all N rs (snd (Apply fault N res d))"

lemma poll_results_length [simp]: "length (poll_results codec rds c) = length rds"
  by (simp add: poll_results_def)

lemma ingest_round_eq:
  "ingest_round cfg codec rd s =
     (let p = poll_of codec rd (ig_client s)
      in (\<lparr>ig_client = fst p, ig_backoff = next_backoff (snd p) (ig_backoff s),
           ig_db = snd (Apply (rd_faults rd) (c_ClearAfterMisses cfg) (snd p) (ig_db s))\<rparr>,
          Jitter (c_PollInterval cfg) (c_PollJitter cfg) (rd_rnd rd) + ig_backoff s))"
  by (simp add: ingest_round_def poll_of_def Let_def split_beta)

lemma ingest_loop_parts:
  "fst (ingest_loop cfg codec rds s) =
     \<lparr>ig_client = fst (run_source (poll_of codec) rds (ig_client s)),
       ig_backoff = fold next_backoff (poll_results codec rds (ig_client s)) (ig_backoff s),
       ig_db = apply_all (c_ClearAfterMisses cfg) (zip (map rd_faults rds) (poll_results codec rds (ig_client s)))
                 (ig_db s)\<rparr>"
proof (induction rds arbitrary: s)
  case Nil
  then show ?case by (simp add: poll_results_def)
next
  case (Cons rd rds)
  show ?case
    using Cons.IH [of "fst (ingest_round cfg codec rd s)"]
    by (simp add: ingest_round_eq poll_results_def Let_def split_beta)
qed

section \<open>Pacing\<close>

definition paced :: "Config \<Rightarrow> duration \<Rightarrow> bool" where
  "paced cfg w \<longleftrightarrow>
     c_PollInterval cfg - max 0 (c_PollJitter cfg) \<le> w \<and>
     w \<le> c_PollInterval cfg + max 0 (c_PollJitter cfg) + 90 * second"

lemma ingest_loop_waits:
  assumes "list_all (\<lambda>rd. 0 \<le> rd_rnd rd \<and> rd_rnd rd \<le> 1) rds" "backoff_ok (ig_backoff s)"
  shows "list_all (paced cfg) (snd (ingest_loop cfg codec rds s)) \<and>
    length (snd (ingest_loop cfg codec rds s)) = length rds \<and>
    backoff_ok (ig_backoff (fst (ingest_loop cfg codec rds s)))"
  using assms
proof (induction rds arbitrary: s)
  case Nil
  then show ?case by simp
next
  case (Cons rd rds)
  have "\<bar>Jitter (c_PollInterval cfg) (c_PollJitter cfg) (rd_rnd rd) - c_PollInterval cfg\<bar> \<le> max 0 (c_PollJitter cfg)"
    using Cons.prems(1) by (intro Jitter_within) simp_all
  then have "paced cfg (snd (ingest_round cfg codec rd s))"
    using Cons.prems(2) by (auto simp: ingest_round_eq Let_def paced_def backoff_ok_def)
  moreover have "backoff_ok (ig_backoff (fst (ingest_round cfg codec rd s)))"
    using next_backoff_ok Cons.prems(2) by (simp add: ingest_round_eq Let_def)
  ultimately show ?case
    using Cons.IH [of "fst (ingest_round cfg codec rd s)"] Cons.prems(1) by (simp add: split_beta)
qed


text \<open>
  The backoff in closed form: starting from none, after \<open>k\<close> transport failures in a row it is five
  seconds times \<open>2 ^ k - 1\<close>, after \<open>k\<close> refusals (403 or 429) thirty seconds times that, both capped at
  ninety seconds; one success or one degraded snapshot clears it.
\<close>

theorem backoff_after_failures:
  "(list_all transport_failure rs \<longrightarrow>
     fold next_backoff rs 0 = min (90 * second) (5 * second * (2 ^ length rs - 1))) \<and>
   (list_all throttled rs \<and> list_all (\<lambda>r. res_Classification r \<noteq> PollDegradedSnapshot) rs \<longrightarrow>
     fold next_backoff rs 0 = min (90 * second) (30 * second * (2 ^ length rs - 1))) \<and>
   (Success r \<or> res_Classification r = PollDegradedSnapshot \<longrightarrow> next_backoff r b = 0)"
proof -
  have cap: "capBackoff x = min (90 * second) x" for x by (simp add: capBackoff_def)
  have 1: "fold next_backoff rs 0 = min (90 * second) (5 * second * (2 ^ length rs - 1))"
    if "list_all transport_failure rs"
  proof -
    have "fold next_backoff rs 0 = ((\<lambda>b. capBackoff (b * 2 + 5 * second)) ^^ length rs) 0"
      by (rule fold_uniform) (use that in \<open>simp add: next_backoff_def transport_failure_def list_all_iff\<close>)
    also have "\<dots> = capBackoff (5 * second * (2 ^ length rs - 1))"
      by (rule backoff_closed_form) (simp add: second_def)
    finally show ?thesis by (simp only: cap)
  qed
  have 2: "fold next_backoff rs 0 = min (90 * second) (30 * second * (2 ^ length rs - 1))"
    if "list_all throttled rs" "list_all (\<lambda>r. res_Classification r \<noteq> PollDegradedSnapshot) rs"
  proof -
    have "fold next_backoff rs 0 = ((\<lambda>b. capBackoff (b * 2 + 30 * second)) ^^ length rs) 0"
    proof (rule fold_uniform)
      fix r b
      assume r: "r \<in> set rs"
      then have "throttled r" "res_Classification r \<noteq> PollDegradedSnapshot"
        using that by (auto simp: list_all_iff)
      then show "next_backoff r b = capBackoff (b * 2 + 30 * second)"
        using throttled_fails [of r] by (auto simp: next_backoff_def throttled_def)
    qed
    also have "\<dots> = capBackoff (30 * second * (2 ^ length rs - 1))"
      by (rule backoff_closed_form) (simp add: second_def)
    finally show ?thesis by (simp only: cap)
  qed
  show ?thesis using 1 2 by (auto simp: next_backoff_def)
qed

section \<open>Integrity\<close>

lemma apply_all_ok: "lifecycle_ok d \<Longrightarrow> lifecycle_ok (apply_all N rs d)"
  by (induction N rs d rule: apply_all.induct) (simp_all add: Apply_keeps_ok)

lemma run_client_ok: "client_ok c \<Longrightarrow> client_ok (fst (run_source (poll_of codec) rds c))"
  by (induction rds arbitrary: c) (simp_all add: poll_of_def Poll_preserves_ok Let_def)

text \<open>
  C14. The ingester keeps its invariants through any run, whatever the upstream sends and whichever
  statements of the database fail: the integrity of the tables, the client's counters and policy, and the
  range of the backoff; and the policy the client runs under is the one that was configured.
\<close>

theorem ingester_keeps_invariants:
  assumes "ingester_run e codec rds d = Inr (s, waits)" and "lifecycle_ok d"
  shows "lifecycle_ok (ig_db s) \<and> client_ok (ig_client s) \<and> backoff_ok (ig_backoff s) \<and>
    (\<exists>cfg. Load e = Inr cfg \<and>
      policy (pickSource cfg) =
        \<lparr>FrozenRepeatCount = c_FrozenRepeatCount cfg, SuddenCollapsePercent = c_SuddenCollapsePct cfg\<rparr>)"
proof -
  obtain cfg where cfg: "Load e = Inr cfg"
    using assms(1) by (auto simp: ingester_run_def split: sum.splits)
  let ?s0 = "\<lparr>ig_client = pickSource cfg, ig_backoff = 0, ig_db = d\<rparr>"
  have s: "s = fst (ingest_loop cfg codec rds ?s0)"
    using assms(1) cfg by (simp add: ingester_run_def)
  have "backoff_ok (fold next_backoff rs b)" if "backoff_ok b" for rs b
    using that by (induction rs arbitrary: b) (simp_all add: next_backoff_ok)
  moreover have "client_ok (pickSource cfg)" by (simp add: pickSource_def NewWithPolicy_ok)
  ultimately have "lifecycle_ok (ig_db s) \<and> client_ok (ig_client s) \<and> backoff_ok (ig_backoff s)"
    unfolding s by (subst (1 2 3) ingest_loop_parts)
      (simp add: apply_all_ok assms(2) run_client_ok backoff_ok_def second_def)
  moreover have "policy (pickSource cfg) =
      \<lparr>FrozenRepeatCount = c_FrozenRepeatCount cfg, SuddenCollapsePercent = c_SuddenCollapsePct cfg\<rparr>"
    using cfg by (auto simp: Load_ok_iff config_ok_def pickSource_def NewWithPolicy_def NewClient_def Let_def)
  ultimately show ?thesis using cfg by blast
qed

section \<open>Samples\<close>

definition sample_round :: "time \<Rightarrow> round" where
  "sample_round t =
     \<lparr>rd_rnd = 1 / 4, rd_upstream = sample_upstream, rd_startedAt = t, rd_finishedAt = t + 1, rd_faults = no_faults\<rparr>"

lemma default_loads: "Load (\<lambda>_. None) = Inr (read_env (\<lambda>_. None))"
  by code_simp

lemma sample_run:
  "ingester_run (\<lambda>_. None) sample_codec [sample_round 100, sample_round 200] empty_db =
     Inr (ingest_loop (read_env (\<lambda>_. None)) sample_codec [sample_round 100, sample_round 200]
            \<lparr>ig_client = pickSource (read_env (\<lambda>_. None)), ig_backoff = 0, ig_db = empty_db\<rparr>)"
  by (simp add: ingester_run_def default_loads)


lemma empty_lifecycle_ok: "lifecycle_ok empty_db"
  by code_simp

theorem ingester_keeps_invariants_witness:
  "\<exists>s waits. ingester_run (\<lambda>_. None) sample_codec [sample_round 100, sample_round 200] empty_db = Inr (s, waits) \<and>
     lifecycle_ok (ig_db s) \<and> client_ok (ig_client s)"
proof -
  obtain s waits where r: "ingester_run (\<lambda>_. None) sample_codec [sample_round 100, sample_round 200] empty_db = Inr (s, waits)"
    by (cases "ingest_loop (read_env (\<lambda>_. None)) sample_codec [sample_round 100, sample_round 200]
            \<lparr>ig_client = pickSource (read_env (\<lambda>_. None)), ig_backoff = 0, ig_db = empty_db\<rparr>")
      (simp add: sample_run)
  from ingester_keeps_invariants [OF r empty_lifecycle_ok] r show ?thesis by blast
qed

text \<open>An unexpected status and a refusal, as the source reports them.\<close>

definition failed_result :: "int \<Rightarrow> PollResult" where
  "failed_result status = (sample_outage 0)\<lparr>res_StatusCode := status\<rparr>"

theorem backoff_after_failures_witness:
  "fold next_backoff [failed_result 500, failed_result 503, failed_result 500] 0 = 35 * second \<and>
   fold next_backoff [failed_result 429, failed_result 403] 0 = 90 * second"
proof -
  have "list_all transport_failure [failed_result 500, failed_result 503, failed_result 500]"
    and "list_all throttled [failed_result 429, failed_result 403] \<and>
      list_all (\<lambda>r. res_Classification r \<noteq> PollDegradedSnapshot) [failed_result 429, failed_result 403]"
    by code_simp+
  with backoff_after_failures [of "[failed_result 500, failed_result 503, failed_result 500]"]
    backoff_after_failures [of "[failed_result 429, failed_result 403]"]
  show ?thesis by (simp add: second_def)
qed

end
