(* ===== verification/Canary.thy ===== *)
theory Canary
  imports Store_Reads Go_Text "HOL-Library.AList"
begin

text \<open>
  The contract canary (\<^verbatim>\<open>internal/canary/canary.go\<close>): one check of the upstream contract and its row in
  \<^verbatim>\<open>contract_canary\<close>. The JSON decoder, the encoder of the drift report and the production parser's decoders
  are arguments; a JSON number is a rational.
\<close>

section \<open>Payloads and reports\<close>

datatype attribute = AttrNumber rat | AttrOther string

record rawArcFeature =
  arc_Attributes :: "(string \<times> attribute) list"
  arc_X :: rat
  arc_Y :: rat

record rawArcGIS =
  arc_Fields :: "string list"
  arc_WKID :: int
  arc_LatestWKID :: int
  arc_Features :: "rawArcFeature list"

datatype drift_value =
    DriftText string
  | DriftInt int
  | DriftNames "string list"
  | DriftFlag bool
  | DriftAttr attribute
  | DriftZeros int rat int int
  | DriftCount int rat

type_synonym drift = "(string \<times> drift_value) list"

record canary_codec =
  decode_arcgis :: "string \<Rightarrow> error + rawArcGIS"
  marshal_drift :: "drift \<Rightarrow> string"
  production :: Codec

record Checker =
  ck_URL :: string
  ck_HasStore :: bool

definition zeroFeatureFailureThreshold :: int where "zeroFeatureFailureThreshold = 3"

definition NewPhoenixFire :: "bool \<Rightarrow> Checker" where
  "NewPhoenixFire st = \<lparr>ck_URL = defaultQueryURL, ck_HasStore = st\<rparr>"

text \<open>The verdict so far and the drift: \<^verbatim>\<open>fail\<close> ends the first, both add to the second.\<close>

type_synonym verdict = "bool \<times> drift"

definition fail :: "string \<Rightarrow> drift_value \<Rightarrow> verdict \<Rightarrow> verdict" where
  "fail key v r = (False, AList.update key v (snd r))"

definition note_drift :: "string \<Rightarrow> drift_value \<Rightarrow> verdict \<Rightarrow> verdict" where
  "note_drift key v r = (fst r, AList.update key v (snd r))"

definition encodeDrift :: "canary_codec \<Rightarrow> drift \<Rightarrow> string option" where
  "encodeDrift cc d = (if d = [] then None else Some (marshal_drift cc d))"

section \<open>The assertions\<close>

definition actualFieldNames :: "rawArcGIS \<Rightarrow> string list" where
  "actualFieldNames raw =
     (let named = remdups (filter (\<lambda>n. n \<noteq> []) (arc_Fields raw))
      in sort (if named = [] \<and> arc_Features raw \<noteq> []
               then remdups (map fst (arc_Attributes (hd (arc_Features raw)))) else named))"

definition missingFields :: "string list \<Rightarrow> string list \<Rightarrow> string list" where
  "missingFields expected actual = filter (\<lambda>f. f \<notin> set actual) expected"

definition outputSR :: "rawArcGIS \<Rightarrow> int" where
  "outputSR raw = (if arc_LatestWKID raw \<noteq> 0 then arc_LatestWKID raw else arc_WKID raw)"

definition implausible :: "rawArcFeature \<Rightarrow> bool" where
  "implausible f \<longleftrightarrow>
     arc_X f < -180 \<or> arc_X f > 180 \<or> arc_Y f < -90 \<or> arc_Y f > 90 \<or> (arc_X f = 0 \<and> arc_Y f = 0)"

definition geometryPlausible :: "rawArcGIS \<Rightarrow> bool" where
  "geometryPlausible raw = list_all (\<lambda>f. \<not> implausible f) (arc_Features raw)"

text \<open>\<^verbatim>\<open>int64(n)\<close> on a number outside the range has the value amd64 gives it.\<close>

definition int64_of :: "rat \<Rightarrow> int" where
  "int64_of q =
     (let n = (if q < 0 then - \<lfloor>- q\<rfloor> else \<lfloor>q\<rfloor>) in if - (2 ^ 63) \<le> n \<and> n < 2 ^ 63 then n else - (2 ^ 63))"

definition numericMillis :: "attribute \<Rightarrow> int option" where
  "numericMillis v = (case v of AttrNumber q \<Rightarrow> Some (int64_of q) | AttrOther _ \<Rightarrow> None)"

definition checkDateWindow :: "rawArcGIS \<Rightarrow> time \<Rightarrow> verdict \<Rightarrow> verdict" where
  "checkDateWindow raw now r =
     (case arc_Features raw of
        [] \<Rightarrow> note_drift ''date_sample_unavailable'' (DriftFlag True) r
      | f # _ \<Rightarrow>
          (case map_of (arc_Attributes f) ''Date'' of
             None \<Rightarrow> fail ''date_missing'' (DriftFlag True) r
           | Some rawDate \<Rightarrow>
               (case numericMillis rawDate of
                  None \<Rightarrow> fail ''date_parse'' (DriftAttr rawDate) r
                | Some millis \<Rightarrow>
                    (let t = UnixMilli millis
                     in if t < now - 72 * hour \<or> t > now + 10 * minute
                        then fail ''date_window'' (DriftText (FormatRFC3339 t)) r else r))))"

text \<open>The stored baseline, and the checks before this one that counted nothing.\<close>

definition baseline_query :: "faults \<Rightarrow> time \<Rightarrow> database \<Rightarrow> error + rat option" where
  "baseline_query fault since d =
     (case read_query fault ''feature count baseline'' d (FeatureCountBaseline SourceName since d) of
        Inl e \<Rightarrow> Inl (''feature count baseline '' @ SourceName @ '': '' @ e)
      | Inr b \<Rightarrow> Inr b)"

definition priorZeroFeatureChecks :: "faults \<Rightarrow> Checker \<Rightarrow> database \<Rightarrow> error + int" where
  "priorZeroFeatureChecks fault ck d =
     (if \<not> ck_HasStore ck then Inr 0
      else map_sum id (\<lambda>counts. int (length (takeWhile (\<lambda>n. n = 0) counts)))
             (RecentCanaryFeatureCounts fault SourceName (zeroFeatureFailureThreshold - 1) d))"

definition checkBaseline :: "faults \<Rightarrow> Checker \<Rightarrow> time \<Rightarrow> int \<Rightarrow> database \<Rightarrow> verdict \<Rightarrow> verdict" where
  "checkBaseline fault ck now featureCount d r =
     (if \<not> ck_HasStore ck then note_drift ''baseline_unavailable'' (DriftFlag True) r
      else
        (case baseline_query fault (now - 7 * 24 * hour) d of
           Inl e \<Rightarrow> fail ''baseline_error'' (DriftText e) r
         | Inr None \<Rightarrow> note_drift ''baseline_unavailable'' (DriftFlag True) r
         | Inr (Some avg) \<Rightarrow>
             if avg > 0 \<and> featureCount = 0 then
               (case priorZeroFeatureChecks fault ck d of
                  Inl e \<Rightarrow> fail ''feature_count_history_error'' (DriftText e) r
                | Inr priorZeros \<Rightarrow>
                    (let consecutive = priorZeros + 1;
                         detail = DriftZeros featureCount avg consecutive zeroFeatureFailureThreshold
                     in if consecutive \<ge> zeroFeatureFailureThreshold then fail ''feature_count'' detail r
                        else note_drift ''feature_count_zero'' detail r))
             else if avg > 0 \<and> of_int featureCount > avg * 10
             then fail ''feature_count'' (DriftCount featureCount avg) r
             else r))"

section \<open>The check\<close>

text \<open>\<^verbatim>\<open>fetch\<close>: an empty URL stands for the default one.\<close>

definition fetch :: "Checker \<Rightarrow> Upstream \<Rightarrow> error + string \<times> int" where
  "fetch ck up =
     (let u = (if ck_URL ck = [] then defaultQueryURL else ck_URL ck)
      in case build_request up u of
           Some e \<Rightarrow> Inl (''build request: '' @ e)
         | None \<Rightarrow>
             (case send_request up u of
                Inl e \<Rightarrow> Inl (''http: '' @ e)
              | Inr (status, Inl e) \<Rightarrow> Inl (''read body: '' @ e)
              | Inr (status, Inr body) \<Rightarrow> Inr (body, status)))"

definition blank_result :: "time \<Rightarrow> contract_canary_row" where
  "blank_result now =
     \<lparr>cc_source = SourceName, cc_checked_at = now, cc_expected_fields = expectedFields,
      cc_actual_fields = [], cc_output_sr = None, cc_feature_count = 0, cc_geom_plausible = False,
      cc_drift = None, cc_passed = True, cc_parser_version = ParserVersion\<rparr>"

definition stamp :: "canary_codec \<Rightarrow> verdict \<Rightarrow> contract_canary_row \<Rightarrow> contract_canary_row" where
  "stamp cc r row = row\<lparr>cc_passed := fst r, cc_drift := encodeDrift cc (snd r)\<rparr>"

definition structure_verdict :: "rawArcGIS \<Rightarrow> verdict" where
  "structure_verdict raw =
     (let missing = missingFields expectedFields (actualFieldNames raw);
          r1 = (if missing \<noteq> [] then fail ''missing_fields'' (DriftNames missing) (True, []) else (True, []));
          r2 = (if arc_Features raw \<noteq> [] \<and> \<not> geometryPlausible raw
                then fail ''geometry'' (DriftText ''coordinates are not plausible WGS84 lon/lat'') r1 else r1)
      in if outputSR raw \<noteq> 0 \<and> outputSR raw \<noteq> 4326
         then fail ''output_sr'' (DriftInt (outputSR raw)) r2 else r2)"

definition Check :: "faults \<Rightarrow> canary_codec \<Rightarrow> Upstream \<Rightarrow> Checker \<Rightarrow> time \<Rightarrow> database \<Rightarrow> contract_canary_row" where
  "Check fault cc up ck now d =
     (case fetch ck up of
        Inl e \<Rightarrow> stamp cc (fail ''http_error'' (DriftText e) (True, [])) (blank_result now)
      | Inr (body, status) \<Rightarrow>
          if status \<noteq> 200 then stamp cc (fail ''http_status'' (DriftInt status) (True, [])) (blank_result now)
          else
            (case decode_arcgis cc body of
               Inl e \<Rightarrow> stamp cc (fail ''json_parse'' (DriftText e) (True, [])) (blank_result now)
             | Inr raw \<Rightarrow>
                 (let featureCount = int (length (arc_Features raw));
                      r1 = checkBaseline fault ck now featureCount d (structure_verdict raw);
                      r2 = checkDateWindow raw now r1;
                      r3 = (case ParseFeatures (production cc) body of
                              Inl e \<Rightarrow> fail ''production_parser'' (DriftText e) r2
                            | Inr _ \<Rightarrow> r2)
                  in stamp cc r3
                       ((blank_result now)\<lparr>cc_actual_fields := actualFieldNames raw,
                          cc_output_sr := (if outputSR raw \<noteq> 0 then Some (outputSR raw) else None),
                          cc_feature_count := featureCount,
                          cc_geom_plausible := geometryPlausible raw\<rparr>))))"

definition Run_canary ::
  "faults \<Rightarrow> canary_codec \<Rightarrow> Upstream \<Rightarrow> Checker \<Rightarrow> time \<Rightarrow> database \<Rightarrow> (error option \<times> contract_canary_row) \<times> database" where
  "Run_canary fault cc up ck now d =
     (let result = Check fault cc up ck now d
      in if ck_HasStore ck
         then (case RecordCanary fault result d of (err, d1) \<Rightarrow> ((err, result), d1))
         else ((None, result), d))"

text \<open>\<^verbatim>\<open>cmd/canary\<close>: one check at the start and one at every tick.\<close>

fun canary_loop ::
  "canary_codec \<Rightarrow> Checker \<Rightarrow> (Upstream \<times> time \<times> faults) list \<Rightarrow> database \<Rightarrow> contract_canary_row list \<times> database" where
  "canary_loop cc ck [] d = ([], d)"
| "canary_loop cc ck ((up, now, fault) # ticks) d =
     (let ((err, row), d1) = Run_canary fault cc up ck now d; (rows, d2) = canary_loop cc ck ticks d1
      in (row # rows, d2))"

section \<open>When a check passes\<close>

lemma fail_simps [simp]: "fst (fail k v r) = False" by (simp add: fail_def)
lemma note_drift_simps [simp]: "fst (note_drift k v r) = fst r" by (simp add: note_drift_def)
lemma stamp_passed [simp]: "cc_passed (stamp cc r row) = fst r" by (simp add: stamp_def)

definition count_plausible :: "faults \<Rightarrow> Checker \<Rightarrow> time \<Rightarrow> int \<Rightarrow> database \<Rightarrow> bool" where
  "count_plausible fault ck now n d \<longleftrightarrow>
     \<not> ck_HasStore ck \<or>
     (case baseline_query fault (now - 7 * 24 * hour) d of
        Inl _ \<Rightarrow> False
      | Inr None \<Rightarrow> True
      | Inr (Some avg) \<Rightarrow>
          avg \<le> 0 \<or>
          (if n = 0 then (case priorZeroFeatureChecks fault ck d of Inl _ \<Rightarrow> False | Inr z \<Rightarrow> z < 2)
           else of_int n \<le> avg * 10))"

definition date_plausible :: "rawArcGIS \<Rightarrow> time \<Rightarrow> bool" where
  "date_plausible raw now \<longleftrightarrow>
     (case arc_Features raw of
        [] \<Rightarrow> True
      | f # _ \<Rightarrow>
          (case map_of (arc_Attributes f) ''Date'' of
             Some (AttrNumber q) \<Rightarrow>
               UnixMilli (int64_of q) \<in> {now - 72 * hour .. now + 10 * minute}
           | _ \<Rightarrow> False))"

lemma checkBaseline_passed:
  "fst (checkBaseline fault ck now n d r) \<longleftrightarrow> fst r \<and> count_plausible fault ck now n d"
  by (auto simp: checkBaseline_def count_plausible_def Let_def zeroFeatureFailureThreshold_def not_le not_less
      split: sum.splits option.splits)

lemma checkDateWindow_passed: "fst (checkDateWindow raw now r) \<longleftrightarrow> fst r \<and> date_plausible raw now"
  by (auto simp: checkDateWindow_def date_plausible_def numericMillis_def Let_def not_less
      split: list.splits option.splits attribute.splits)

lemma structure_passed:
  "fst (structure_verdict raw) \<longleftrightarrow>
     missingFields expectedFields (actualFieldNames raw) = [] \<and>
     (arc_Features raw = [] \<or> geometryPlausible raw) \<and> outputSR raw \<in> {0, 4326}"
  by (auto simp: structure_verdict_def Let_def)

text \<open>
  When a check passes: exactly when the request succeeded with status 200, the body decodes, no
  expected field is missing, the geometries are plausible, the spatial reference is 4326 or absent, the
  feature count fits the stored baseline, the first feature's date lies within the window, and the
  production parser accepts the body.
\<close>

theorem Check_passes_iff:
  "cc_passed (Check fault cc up ck now d) \<longleftrightarrow>
     (\<exists>body raw incs.
        fetch ck up = Inr (body, 200) \<and> decode_arcgis cc body = Inr raw \<and>
        missingFields expectedFields (actualFieldNames raw) = [] \<and>
        (arc_Features raw = [] \<or> geometryPlausible raw) \<and> outputSR raw \<in> {0, 4326} \<and>
        count_plausible fault ck now (int (length (arc_Features raw))) d \<and> date_plausible raw now \<and>
        ParseFeatures (production cc) body = Inr incs)"
  by (auto simp: Check_def Let_def structure_passed checkBaseline_passed checkDateWindow_passed
      split: sum.splits)

section \<open>Outages\<close>

lemma Check_no_response:
  assumes "fetch ck up = Inl e"
  shows "cc_feature_count (Check fault cc up ck now d) = 0" "cc_source (Check fault cc up ck now d) = SourceName"
    "cc_checked_at (Check fault cc up ck now d) = now"
  using assms by (simp_all add: Check_def stamp_def blank_result_def)

lemma Run_canary_db:
  assumes "ck_HasStore ck"
  shows "snd (Run_canary no_faults cc up ck now d) =
    d\<lparr>contract_canary := contract_canary d @ [Check no_faults cc up ck now d]\<rparr>"
  using assms by (simp add: Run_canary_def RecordCanary_def no_faults_def Let_def)

lemma sort_key_head: "(\<And>x. x \<in> set xs \<Longrightarrow> f a \<le> f x) \<Longrightarrow> sort_key f (a # xs) = a # sort_key f xs"
  by (simp add: insort_is_Cons)

lemma recent_counts_append:
  assumes "cc_source r = src" "cc_source s = src" "cc_checked_at r < cc_checked_at s"
    "list_all (\<lambda>c. cc_checked_at c < cc_checked_at r) (contract_canary d)"
  shows "RecentCanaryFeatureCounts no_faults src 2 (d\<lparr>contract_canary := contract_canary d @ [r, s]\<rparr>) =
    Inr [cc_feature_count s, cc_feature_count r]"
proof -
  let ?rows = "filter (\<lambda>c. cc_source c = src) (contract_canary d)"
  have older: "c \<in> set (rev ?rows) \<Longrightarrow> cc_checked_at c < cc_checked_at r" for c
    using assms(4) by (auto simp: list_all_iff)
  have "sort_key (\<lambda>c. - cc_checked_at c) (s # r # rev ?rows) =
      s # sort_key (\<lambda>c. - cc_checked_at c) (r # rev ?rows)"
    by (rule sort_key_head) (use assms(3) older in fastforce)
  also have "sort_key (\<lambda>c. - cc_checked_at c) (r # rev ?rows) = r # sort_key (\<lambda>c. - cc_checked_at c) (rev ?rows)"
    by (rule sort_key_head) (use older in fastforce)
  finally have "sort_key (\<lambda>c. - cc_checked_at c) (s # r # rev ?rows) =
      s # r # sort_key (\<lambda>c. - cc_checked_at c) (rev ?rows)" .
  then show ?thesis
    using assms(1,2) by (simp add: RecentCanaryFeatureCounts_def read_query_def no_faults_def del: sort_key_simps)
qed

lemma baseline_frame: "baseline_query fault t (d\<lparr>contract_canary := rows\<rparr>) = baseline_query fault t d"
  if "fault = no_faults"
  using that by (simp add: baseline_query_def read_query_def no_faults_def FeatureCountBaseline_def)

text \<open>
  Checks the canary could not make count as checks that found nothing: an empty snapshot that passes
  on its own, because it is only the first one, fails the contract after two requests that got no
  response.
\<close>

theorem outages_count_as_zero:
  assumes "ck_HasStore ck" and "fetch ck up1 = Inl e1" and "fetch ck up2 = Inl e2"
    and "fetch ck up3 = Inr (body, 200)" and "decode_arcgis cc body = Inr raw" and "arc_Features raw = []"
    and "baseline_query no_faults (t3 - 7 * 24 * hour) d = Inr (Some avg)" and "0 < avg"
    and "list_all (\<lambda>c. cc_checked_at c < t1) (contract_canary d)" and "t1 < t2"
  shows "\<not> cc_passed (Check no_faults cc up3 ck t3
    (snd (Run_canary no_faults cc up2 ck t2 (snd (Run_canary no_faults cc up1 ck t1 d)))))"
proof -
  let ?r = "Check no_faults cc up1 ck t1 d"
  let ?d1 = "d\<lparr>contract_canary := contract_canary d @ [?r]\<rparr>"
  let ?s = "Check no_faults cc up2 ck t2 ?d1"
  let ?d2 = "d\<lparr>contract_canary := contract_canary d @ [?r, ?s]\<rparr>"
  have d2: "snd (Run_canary no_faults cc up2 ck t2 (snd (Run_canary no_faults cc up1 ck t1 d))) = ?d2"
    using assms(1) by (simp add: Run_canary_db)
  note r = Check_no_response [OF assms(2), of no_faults cc t1 d]
    and s = Check_no_response [OF assms(3), of no_faults cc t2 ?d1]
  have "RecentCanaryFeatureCounts no_faults SourceName 2 ?d2 = Inr [cc_feature_count ?s, cc_feature_count ?r]"
    by (rule recent_counts_append) (use r s assms(9,10) in simp_all)
  then have "priorZeroFeatureChecks no_faults ck ?d2 = Inr 2"
    using assms(1) r s by (simp add: priorZeroFeatureChecks_def zeroFeatureFailureThreshold_def)
  moreover have "baseline_query no_faults (t3 - 7 * 24 * hour) ?d2 = Inr (Some avg)"
    using assms(7) by (simp add: baseline_frame)
  ultimately have "\<not> count_plausible no_faults ck t3 0 ?d2"
    using assms(1,8) by (simp add: count_plausible_def)
  then show ?thesis
    unfolding d2 using assms(4-6)
    by (simp add: Check_def Let_def checkBaseline_passed checkDateWindow_passed split: sum.split)
qed

section \<open>Samples\<close>

definition sample_arcgis :: rawArcGIS where
  "sample_arcgis = \<lparr>arc_Fields = expectedFields, arc_WKID = 4326, arc_LatestWKID = 4326, arc_Features = []\<rparr>"

definition sample_canary_codec :: canary_codec where
  "sample_canary_codec =
     \<lparr>decode_arcgis = (\<lambda>_. Inr sample_arcgis), marshal_drift = (\<lambda>_. []),
      production = sample_codec\<lparr>decode_response := (\<lambda>_. Inr [])\<rparr>\<rparr>"

definition silent_upstream :: Upstream where
  "silent_upstream = sample_upstream\<lparr>build_request := (\<lambda>_. None), send_request := (\<lambda>_. Inl ''timeout'')\<rparr>"

definition empty_upstream :: Upstream where
  "empty_upstream = sample_upstream\<lparr>build_request := (\<lambda>_. None), send_request := (\<lambda>_. Inr (200, Inr ''x''))\<rparr>"

definition busy_db :: database where
  "busy_db = sample_db\<lparr>source_polls := [sample_poll_row\<lparr>sp_success := True, sp_feature_count := 5\<rparr>]\<rparr>"

lemma sample_canary_facts:
  "ck_HasStore (NewPhoenixFire True)" "fetch (NewPhoenixFire True) silent_upstream = Inl ''http: timeout''"
  "fetch (NewPhoenixFire True) empty_upstream = Inr (''x'', 200)"
  "decode_arcgis sample_canary_codec ''x'' = Inr sample_arcgis" "arc_Features sample_arcgis = []"
  by (simp_all add: NewPhoenixFire_def fetch_def silent_upstream_def empty_upstream_def sample_canary_codec_def
      sample_arcgis_def)

lemma sample_baseline: "baseline_query no_faults (1000 - 7 * 24 * hour) busy_db = Inr (Some 5)"
  by (simp add: baseline_query_def read_query_def no_faults_def FeatureCountBaseline_def busy_db_def sample_db_def
      sample_poll_row_def SourceName_def duration_defs empty_db_def)

theorem outages_count_as_zero_witness:
  "\<not> cc_passed (Check no_faults sample_canary_codec empty_upstream (NewPhoenixFire True) 1000
    (snd (Run_canary no_faults sample_canary_codec silent_upstream (NewPhoenixFire True) 900
      (snd (Run_canary no_faults sample_canary_codec silent_upstream (NewPhoenixFire True) 800 busy_db)))))"
  by (rule outages_count_as_zero [OF sample_canary_facts(1,2,2,3-5) sample_baseline])
    (simp_all add: busy_db_def sample_db_def empty_db_def)

lemma empty_snapshot_passes_alone:
  "cc_passed (Check no_faults sample_canary_codec empty_upstream (NewPhoenixFire True) 1000 busy_db)"
proof -
  have "missingFields expectedFields (actualFieldNames sample_arcgis) = []"
    by (auto simp: missingFields_def actualFieldNames_def sample_arcgis_def Let_def expectedFields_def)
  moreover have "priorZeroFeatureChecks no_faults (NewPhoenixFire True) busy_db = Inr 0"
    by (simp add: priorZeroFeatureChecks_def RecentCanaryFeatureCounts_def read_query_def no_faults_def
        busy_db_def sample_db_def empty_db_def zeroFeatureFailureThreshold_def)
  moreover have "ParseFeatures (production sample_canary_codec) ''x'' = Inr []"
    by (simp add: ParseFeatures_def sample_canary_codec_def)
  ultimately show ?thesis
    using sample_canary_facts sample_baseline
    by (simp add: Check_def Let_def structure_passed checkBaseline_passed checkDateWindow_passed count_plausible_def
        date_plausible_def outputSR_def) (simp add: sample_arcgis_def)
qed

end
