(* ===== verification/Backfill.thy ===== *)
theory Backfill
  imports Incident_Store Phxfire_Parse "HOL-Library.Char_ord" "HOL-Library.List_Lexorder"
begin

text \<open>
  Recomputing the units of stored incidents from their raw payloads (\<^verbatim>\<open>internal/backfill/backfill.go\<close>,
  \<^verbatim>\<open>cmd/backfill_units\<close>). The decoder of a raw feature is an argument: an error, or the feature's
  \<^verbatim>\<open>Units\<close> if the attribute is there and not null; the condition of the SQL query on the JSON is another.
\<close>

section \<open>One payload\<close>

record raw_codec =
  decode_raw :: "string \<Rightarrow> error + string option"
  has_units_key :: "string \<Rightarrow> bool"
  raw_unescape :: "string \<Rightarrow> string"

definition UnitsFromRaw :: "raw_codec \<Rightarrow> string \<Rightarrow> error + Unit list \<times> bool" where
  "UnitsFromRaw rc raw =
     (case decode_raw rc raw of
        Inl e \<Rightarrow> Inl e
      | Inr None \<Rightarrow> Inr ([], False)
      | Inr (Some units) \<Rightarrow> Inr (parseUnits (raw_unescape rc) units, True))"

definition HasSmashedStatus :: "Unit list \<Rightarrow> bool" where
  "HasSmashedStatus units = list_ex (\<lambda>u. Contains (unit_Status u) '':'') units"

section \<open>The run\<close>

record backfill_summary =
  bf_rowsProcessed :: int
  bf_rowsUpdated :: int
  bf_beforeSmashed :: int
  bf_afterSmashed :: int
  bf_flippedToMultiUnit :: int

definition empty_summary :: backfill_summary where
  "empty_summary =
     \<lparr>bf_rowsProcessed = 0, bf_rowsUpdated = 0, bf_beforeSmashed = 0, bf_afterSmashed = 0,
      bf_flippedToMultiUnit = 0\<rparr>"

definition candidates :: "raw_codec \<Rightarrow> database \<Rightarrow> incident_row list" where
  "candidates rc d =
     sort_key (\<lambda>r. (ir_received_at r, ir_incident_id r))
       (filter (\<lambda>r. case ir_raw r of None \<Rightarrow> False | Some raw \<Rightarrow> has_units_key rc raw) (incidents d))"

definition set_units :: "string \<Rightarrow> string \<Rightarrow> Unit list \<Rightarrow> database \<Rightarrow> database" where
  "set_units src iid units d =
     d\<lparr>incidents := update_where (\<lambda>r. ir_source r = src \<and> ir_incident_id r = iid)
          (\<lambda>r. r\<lparr>ir_units := units\<rparr>) (incidents d)\<rparr>"

definition delete_history :: "string \<Rightarrow> string \<Rightarrow> database \<Rightarrow> database" where
  "delete_history src iid d =
     d\<lparr>incident_units := filter (\<lambda>u. \<not> (iu_source u = src \<and> iu_incident_id u = iid)) (incident_units d)\<rparr>"

fun insert_history :: "faults \<Rightarrow> incident_row \<Rightarrow> Unit list \<Rightarrow> database \<Rightarrow> error + database" where
  "insert_history fault row [] d = Inr d"
| "insert_history fault row (u # us) d =
     (if unit_Unit u = [] then insert_history fault row us d
      else
        (let src = ir_source row; iid = ir_incident_id row
         in case fault (InsertUnitStmt src iid (unit_Unit u)) d of
              Some e \<Rightarrow> Inl (''insert unit history '' @ src @ ''/'' @ iid @ ''/'' @ unit_Unit u @ '': '' @ e)
            | None \<Rightarrow>
                insert_history fault row us
                  (d\<lparr>incident_units := incident_units d @
                       [\<lparr>iu_id = seq_unit d, iu_source = src, iu_incident_id = iid, iu_unit = unit_Unit u,
                         iu_status = unit_Status u, iu_first_observed_at = ir_received_at row,
                         iu_last_observed_at = ir_received_at row, iu_first_poll_id = ir_last_seen_poll_id row,
                         iu_last_poll_id = ir_last_seen_poll_id row\<rparr>],
                     seq_unit := seq_unit d + 1\<rparr>)))"

text \<open>One candidate: the summary and the tables after it.\<close>

definition count_row :: "Unit list \<Rightarrow> backfill_summary \<Rightarrow> backfill_summary" where
  "count_row prior s =
     s\<lparr>bf_rowsProcessed := bf_rowsProcessed s + 1,
       bf_beforeSmashed := bf_beforeSmashed s + (if HasSmashedStatus prior then 1 else 0)\<rparr>"

definition count_parsed :: "Unit list \<Rightarrow> Unit list \<Rightarrow> backfill_summary \<Rightarrow> backfill_summary" where
  "count_parsed prior parsed s =
     s\<lparr>bf_afterSmashed := bf_afterSmashed s + (if HasSmashedStatus parsed then 1 else 0),
       bf_flippedToMultiUnit := bf_flippedToMultiUnit s +
         (if HasSmashedStatus prior \<and> \<not> HasSmashedStatus parsed \<and> length parsed > 1 then 1 else 0)\<rparr>"

definition backfill_row ::
  "faults \<Rightarrow> raw_codec \<Rightarrow> incident_row \<Rightarrow> backfill_summary \<times> database \<Rightarrow> error + backfill_summary \<times> database" where
  "backfill_row fault rc row sd =
     (case sd of (s, d) \<Rightarrow>
        (let src = ir_source row; iid = ir_incident_id row; s1 = count_row (ir_units row) s
         in case UnitsFromRaw rc (case ir_raw row of None \<Rightarrow> [] | Some raw \<Rightarrow> raw) of
              Inl e \<Rightarrow> Inl (''parse raw units '' @ src @ ''/'' @ iid @ '': '' @ e)
            | Inr (parsed, False) \<Rightarrow> Inr (s1, d)
            | Inr (parsed, True) \<Rightarrow>
                (let s2 = count_parsed (ir_units row) parsed s1
                 in case fault (BackfillStmt ''update'' src iid) d of
                      Some e \<Rightarrow> Inl (''update incident '' @ src @ ''/'' @ iid @ '': '' @ e)
                    | None \<Rightarrow>
                        (let d1 = set_units src iid parsed d;
                             n = length (filter (\<lambda>r. ir_source r = src \<and> ir_incident_id r = iid) (incidents d));
                             s3 = s2\<lparr>bf_rowsUpdated := bf_rowsUpdated s2 + int n\<rparr>
                         in case fault (BackfillStmt ''delete'' src iid) d1 of
                              Some e \<Rightarrow> Inl (''delete unit history '' @ src @ ''/'' @ iid @ '': '' @ e)
                            | None \<Rightarrow>
                                (case insert_history fault row parsed (delete_history src iid d1) of
                                   Inl e \<Rightarrow> Inl e
                                 | Inr d2 \<Rightarrow> Inr (s3, d2))))))"

fun backfill_rows ::
  "faults \<Rightarrow> raw_codec \<Rightarrow> incident_row list \<Rightarrow> backfill_summary \<times> database \<Rightarrow> error + backfill_summary \<times> database" where
  "backfill_rows fault rc [] sd = Inr sd"
| "backfill_rows fault rc (row # rows) sd =
     (case backfill_row fault rc row sd of Inl e \<Rightarrow> Inl e | Inr sd1 \<Rightarrow> backfill_rows fault rc rows sd1)"

text \<open>The whole run in one transaction: an error leaves the tables as they were.\<close>

definition backfill_units :: "faults \<Rightarrow> raw_codec \<Rightarrow> database \<Rightarrow> (error + backfill_summary) \<times> database" where
  "backfill_units fault rc d =
     (case fault (ReadStmt ''backfill candidates'') d of
        Some e \<Rightarrow> (Inl (''query incidents: '' @ e), d)
      | None \<Rightarrow>
          (case fault BeginBackfill d of
             Some e \<Rightarrow> (Inl (''begin: '' @ e), d)
           | None \<Rightarrow>
               (case backfill_rows fault rc (candidates rc d) (empty_summary, d) of
                  Inl e \<Rightarrow> (Inl e, d)
                | Inr (s, d1) \<Rightarrow>
                    (case fault CommitBackfill d1 of
                       Some e \<Rightarrow> (Inl (''commit: '' @ e), d)
                     | None \<Rightarrow> (Inr s, d1)))))"

section \<open>What a row becomes\<close>

text \<open>The units the payload of a candidate gives it.\<close>

definition rebuilt_units :: "raw_codec \<Rightarrow> incident_row \<Rightarrow> Unit list option" where
  "rebuilt_units rc r =
     (case ir_raw r of
        None \<Rightarrow> None
      | Some raw \<Rightarrow>
          if has_units_key rc raw
          then (case UnitsFromRaw rc raw of Inr (units, True) \<Rightarrow> Some units | _ \<Rightarrow> None)
          else None)"

definition rebuilt :: "raw_codec \<Rightarrow> incident_row \<Rightarrow> incident_row" where
  "rebuilt rc r = (case rebuilt_units rc r of None \<Rightarrow> r | Some units \<Rightarrow> r\<lparr>ir_units := units\<rparr>)"

lemma rebuilt_idem: "rebuilt rc (rebuilt rc r) = rebuilt rc r"
  by (auto simp: rebuilt_def rebuilt_units_def split: option.splits sum.splits bool.splits)

lemma insert_history_frame:
  "insert_history fault row us d = Inr d' \<Longrightarrow>
   \<exists>hs n. d' = d\<lparr>incident_units := incident_units d @ hs, seq_unit := n\<rparr>"
proof (induction fault row us d rule: insert_history.induct)
  case (1 fault row d)
  then show ?case by (intro exI [of _ "[]"] exI [of _ "seq_unit d"]) simp
next
  case (2 fault row u us d)
  then show ?case by (cases "unit_Unit u = []") (fastforce simp: Let_def split: option.splits)+
qed

text \<open>The payload of one candidate, and what it does to the row it came from and to its history.\<close>

definition payload_units :: "raw_codec \<Rightarrow> incident_row \<Rightarrow> Unit list option" where
  "payload_units rc row =
     (case UnitsFromRaw rc (case ir_raw row of None \<Rightarrow> [] | Some raw \<Rightarrow> raw) of
        Inr (units, True) \<Rightarrow> Some units | _ \<Rightarrow> None)"

definition patch_row :: "raw_codec \<Rightarrow> incident_row \<Rightarrow> incident_row \<Rightarrow> incident_row" where
  "patch_row rc row r =
     (if incident_key r = incident_key row
      then (case payload_units rc row of None \<Rightarrow> r | Some units \<Rightarrow> r\<lparr>ir_units := units\<rparr>) else r)"

lemma patch_row_key [simp]:
  "incident_key (patch_row rc row r) = incident_key r" "ir_id (patch_row rc row r) = ir_id r"
  "ir_last_seen_poll_id (patch_row rc row r) = ir_last_seen_poll_id r"
  by (simp_all add: patch_row_def incident_key_def split: option.split)

definition unit_facts :: "incident_unit \<Rightarrow> string \<times> string \<times> time \<times> time \<times> int \<times> int" where
  "unit_facts u =
     (iu_unit u, iu_status u, iu_first_observed_at u, iu_last_observed_at u, iu_first_poll_id u, iu_last_poll_id u)"

definition history :: "string \<times> string \<Rightarrow> database \<Rightarrow> (string \<times> string \<times> time \<times> time \<times> int \<times> int) list" where
  "history k d = map unit_facts (filter (\<lambda>u. (iu_source u, iu_incident_id u) = k) (incident_units d))"

definition rebuilt_history :: "incident_row \<Rightarrow> Unit list \<Rightarrow> (string \<times> string \<times> time \<times> time \<times> int \<times> int) list" where
  "rebuilt_history r units =
     map (\<lambda>u. (unit_Unit u, unit_Status u, ir_received_at r, ir_received_at r, ir_last_seen_poll_id r, ir_last_seen_poll_id r))
       (filter (\<lambda>u. unit_Unit u \<noteq> []) units)"

lemma history_append:
  "history k (d\<lparr>incident_units := us, seq_unit := n\<rparr>) =
     map unit_facts (filter (\<lambda>u. (iu_source u, iu_incident_id u) = k) us)"
  by (simp add: history_def)

lemma insert_history_history:
  "insert_history fault row us d = Inr d' \<Longrightarrow>
   history k d' = history k d @ (if k = incident_key row then rebuilt_history row us else [])"
proof (induction fault row us d rule: insert_history.induct)
  case (1 fault row d)
  then show ?case by (simp add: rebuilt_history_def)
next
  case (2 fault row u us d)
  show ?case
  proof (cases "unit_Unit u = []")
    case True
    then show ?thesis using 2 by (simp add: rebuilt_history_def)
  next
    case False
    let ?new = "\<lparr>iu_id = seq_unit d, iu_source = ir_source row, iu_incident_id = ir_incident_id row,
      iu_unit = unit_Unit u, iu_status = unit_Status u, iu_first_observed_at = ir_received_at row,
      iu_last_observed_at = ir_received_at row, iu_first_poll_id = ir_last_seen_poll_id row,
      iu_last_poll_id = ir_last_seen_poll_id row\<rparr>"
    let ?d1 = "d\<lparr>incident_units := incident_units d @ [?new], seq_unit := seq_unit d + 1\<rparr>"
    have ok: "fault (InsertUnitStmt (ir_source row) (ir_incident_id row) (unit_Unit u)) d = None"
      and run: "insert_history fault row us ?d1 = Inr d'"
      using 2(3) False by (auto simp: Let_def split: option.splits)
    have "history k ?d1 = history k d @ (if k = incident_key row
        then [(unit_Unit u, unit_Status u, ir_received_at row, ir_received_at row,
               ir_last_seen_poll_id row, ir_last_seen_poll_id row)] else [])"
      by (auto simp: history_append unit_facts_def incident_key_def) (auto simp: history_def unit_facts_def)
    with 2(2) [OF False refl refl ok run] show ?thesis
      using False by (simp add: rebuilt_history_def)
  qed
qed

lemma insert_history_incidents: "insert_history fault row us d = Inr d' \<Longrightarrow> incidents d' = incidents d"
  using insert_history_frame by fastforce

text \<open>One candidate's turn.\<close>

lemma backfill_row_cases:
  assumes "backfill_row fault rc row (s, d) = Inr (s', d')"
  obtains (skipped) "d' = d" "payload_units rc row = None"
  | (rewritten) units where "payload_units rc row = Some units"
      "insert_history fault row units
         (delete_history (ir_source row) (ir_incident_id row)
            (set_units (ir_source row) (ir_incident_id row) units d)) = Inr d'"
proof -
  obtain units has where u: "UnitsFromRaw rc (case ir_raw row of None \<Rightarrow> [] | Some raw \<Rightarrow> raw) = Inr (units, has)"
    using assms by (auto simp: backfill_row_def Let_def split: sum.splits)
  show thesis
  proof (cases has)
    case False
    then show thesis
      using assms u by (intro skipped) (simp_all add: backfill_row_def payload_units_def Let_def)
  next
    case True
    then show thesis
      using assms u by (intro rewritten [of units])
        (auto simp: backfill_row_def payload_units_def Let_def split: option.splits sum.splits)
  qed
qed

lemma backfill_row_incidents:
  assumes "backfill_row fault rc row (s, d) = Inr (s', d')"
  shows "incidents d' = map (patch_row rc row) (incidents d)"
  using assms
proof (cases rule: backfill_row_cases)
  case skipped
  moreover have "patch_row rc row = (\<lambda>r. r)" by (rule ext) (simp add: patch_row_def skipped)
  ultimately show ?thesis by simp
next
  case (rewritten units)
  then show ?thesis
    using insert_history_incidents [OF rewritten(2)]
    by (auto simp: delete_history_def set_units_def update_where_def patch_row_def incident_key_def)
qed

lemma delete_history_history:
  "history k (delete_history src iid (set_units src iid units d)) = (if k = (src, iid) then [] else history k d)"
proof (cases "k = (src, iid)")
  case True
  then show ?thesis by (simp add: history_def delete_history_def set_units_def filter_empty_conv)
next
  case False
  then show ?thesis
    by (auto simp: history_def delete_history_def set_units_def
        intro!: arg_cong [where f = "map unit_facts"] filter_cong)
qed

lemma backfill_row_history:
  assumes "backfill_row fault rc row (s, d) = Inr (s', d')"
  shows "history k d' =
    (case payload_units rc row of
       None \<Rightarrow> history k d
     | Some units \<Rightarrow> if k = incident_key row then rebuilt_history row units else history k d)"
  using assms
proof (cases rule: backfill_row_cases)
  case (rewritten units)
  then show ?thesis
    using insert_history_history [OF rewritten(2), of k]
    by (simp add: delete_history_history incident_key_def)
qed simp

definition only_units :: "database \<Rightarrow> database \<Rightarrow> bool" where
  "only_units d d' \<longleftrightarrow>
     d'\<lparr>incidents := [], incident_units := [], seq_unit := 0\<rparr> =
     d\<lparr>incidents := [], incident_units := [], seq_unit := 0\<rparr>"

lemma only_units_refl: "only_units d d"
  by (simp add: only_units_def)

lemma only_units_trans: "only_units d d1 \<Longrightarrow> only_units d1 d2 \<Longrightarrow> only_units d d2"
  by (simp add: only_units_def)

lemma only_units_polls: "only_units d d' \<Longrightarrow> source_polls d' = source_polls d"
  unfolding only_units_def by (drule arg_cong [where f = source_polls]) simp

lemma backfill_row_frame:
  assumes "backfill_row fault rc row (s, d) = Inr (s', d')"
  shows "only_units d d'"
  using assms
proof (cases rule: backfill_row_cases)
  case skipped
  then show ?thesis by (simp add: only_units_refl)
next
  case (rewritten units)
  from insert_history_frame [OF this(2)] show ?thesis
    by (auto simp: only_units_def delete_history_def set_units_def)
qed

section \<open>Integrity\<close>

lemma insert_history_ok:
  "insert_history fault row us d = Inr d' \<Longrightarrow> db_ok d \<Longrightarrow> poll_known (ir_last_seen_poll_id row) d \<Longrightarrow>
   incident_known (ir_source row) (ir_incident_id row) d \<Longrightarrow> db_ok d'"
proof (induction fault row us d rule: insert_history.induct)
  case (1 fault row d)
  then show ?case by simp
next
  case (2 fault row u us d)
  show ?case
  proof (cases "unit_Unit u = []")
    case True
    then show ?thesis using 2 by simp
  next
    case False
    let ?new = "\<lparr>iu_id = seq_unit d, iu_source = ir_source row, iu_incident_id = ir_incident_id row,
      iu_unit = unit_Unit u, iu_status = unit_Status u, iu_first_observed_at = ir_received_at row,
      iu_last_observed_at = ir_received_at row, iu_first_poll_id = ir_last_seen_poll_id row,
      iu_last_poll_id = ir_last_seen_poll_id row\<rparr>"
    let ?d1 = "d\<lparr>incident_units := incident_units d @ [?new], seq_unit := seq_unit d + 1\<rparr>"
    have ok: "fault (InsertUnitStmt (ir_source row) (ir_incident_id row) (unit_Unit u)) d = None"
      and run: "insert_history fault row us ?d1 = Inr d'"
      using 2(3) False by (auto simp: Let_def split: option.splits)
    have "db_ok ?d1" using 2(4-6) by (auto simp: db_ok_defs list_all_iff)
    then show ?thesis using 2(2) [OF False refl refl ok run] 2(5,6) by simp
  qed
qed

lemma delete_history_ok: "db_ok d \<Longrightarrow> db_ok (delete_history src iid d)"
  by (auto simp: delete_history_def db_ok_defs list_all_iff intro: distinct_filter)
    (metis (mono_tags, lifting) distinct_map_filter)

lemma set_units_ok: "db_ok d \<Longrightarrow> db_ok (set_units src iid units d)"
  unfolding set_units_def by (rule update_incidents_ok) (simp_all add: incident_key_def)

lemma known_set_units [simp]:
  "poll_known pid (delete_history src' iid' (set_units src iid units d)) = poll_known pid d"
  "incident_known s i (delete_history src' iid' (set_units src iid units d)) = incident_known s i d"
proof -
  have "map incident_key (update_where q (\<lambda>r. r\<lparr>ir_units := units\<rparr>) rows) = map incident_key rows" for q rows
    by (rule map_update_where) (simp add: incident_key_def)
  from arg_cong [OF this, of set]
  show "poll_known pid (delete_history src' iid' (set_units src iid units d)) = poll_known pid d"
    "incident_known s i (delete_history src' iid' (set_units src iid units d)) = incident_known s i d"
    by (simp_all add: poll_known_def incident_known_def delete_history_def set_units_def)
qed

lemma backfill_row_ok:
  assumes "backfill_row fault rc row (s, d) = Inr (s', d')" "db_ok d" "poll_known (ir_last_seen_poll_id row) d"
    "incident_known (ir_source row) (ir_incident_id row) d"
  shows "db_ok d'"
  using assms(1)
proof (cases rule: backfill_row_cases)
  case (rewritten units)
  then show ?thesis
    using insert_history_ok [OF rewritten(2)] assms(2-4) by (simp add: delete_history_ok set_units_ok)
qed (use assms(2) in simp)

section \<open>All candidates\<close>

definition known_row :: "database \<Rightarrow> incident_row \<Rightarrow> bool" where
  "known_row d r \<longleftrightarrow> poll_known (ir_last_seen_poll_id r) d \<and> incident_known (ir_source r) (ir_incident_id r) d"

lemma known_row_step:
  assumes "backfill_row fault rc row (s, d) = Inr (s', d')"
  shows "known_row d' r = known_row d r"
proof -
  have "source_polls d' = source_polls d"
    by (rule only_units_polls) (rule backfill_row_frame [OF assms])
  moreover have "incident_key ` set (incidents d') = incident_key ` set (incidents d)"
    by (simp add: backfill_row_incidents [OF assms] image_image)
  ultimately show ?thesis by (simp add: known_row_def poll_known_def incident_known_def)
qed

lemma backfill_rows_effect:
  assumes "backfill_rows fault rc rows (s, d) = Inr (s', d')"
  shows "incidents d' = map (fold (patch_row rc) rows) (incidents d)"
    and "only_units d d'"
    and "db_ok d \<Longrightarrow> list_all (known_row d) rows \<Longrightarrow> db_ok d'"
    and "k \<notin> incident_key ` set rows \<Longrightarrow> history k d' = history k d"
  using assms
proof (induction rows arbitrary: s d)
  case Nil
  {
    case 1
    then show ?case by simp
  next
    case 2
    then show ?case by (simp add: only_units_refl)
  next
    case 3
    then show ?case by simp
  next
    case 4
    then show ?case by simp
  }
next
  case (Cons row rows)
  {
    case 1
    then obtain s1 d1 where r: "backfill_row fault rc row (s, d) = Inr (s1, d1)"
      "backfill_rows fault rc rows (s1, d1) = Inr (s', d')"
      by (auto split: sum.splits)
    show ?case using Cons.IH(1) [OF r(2)] by (simp add: backfill_row_incidents [OF r(1)])
  next
    case 2
    then obtain s1 d1 where r: "backfill_row fault rc row (s, d) = Inr (s1, d1)"
      "backfill_rows fault rc rows (s1, d1) = Inr (s', d')"
      by (auto split: sum.splits)
    show ?case using only_units_trans [OF backfill_row_frame [OF r(1)] Cons.IH(2) [OF r(2)]] .
  next
    case 3
    then obtain s1 d1 where r: "backfill_row fault rc row (s, d) = Inr (s1, d1)"
      "backfill_rows fault rc rows (s1, d1) = Inr (s', d')"
      by (auto split: sum.splits)
    have "db_ok d1" using backfill_row_ok [OF r(1)] 3 by (simp add: known_row_def)
    moreover have "list_all (known_row d1) rows" using 3 known_row_step [OF r(1)] by (simp add: list_all_iff)
    ultimately show ?case using Cons.IH(3) r(2) by blast
  next
    case 4
    then obtain s1 d1 where r: "backfill_row fault rc row (s, d) = Inr (s1, d1)"
      "backfill_rows fault rc rows (s1, d1) = Inr (s', d')"
      by (auto split: sum.splits)
    have "history k d1 = history k d"
      using backfill_row_history [OF r(1), of k] 4 by (auto split: option.splits)
    then show ?case using Cons.IH(4) [of s1 d1] r(2) 4 by simp
  }
qed

lemma distinct_key: "distinct (map k (x # xs)) \<Longrightarrow> y \<in> set xs \<Longrightarrow> k y \<noteq> k x"
  by (auto simp: image_iff)

lemma backfill_rows_history:
  assumes "backfill_rows fault rc rows (s, d) = Inr (s', d')" "r \<in> set rows" "distinct (map incident_key rows)"
  shows "history (incident_key r) d' =
    (case payload_units rc r of None \<Rightarrow> history (incident_key r) d | Some units \<Rightarrow> rebuilt_history r units)"
  using assms
proof (induction rows arbitrary: s d)
  case Nil
  then show ?case by simp
next
  case (Cons row rows)
  from Cons.prems(1) obtain s1 d1 where step: "backfill_row fault rc row (s, d) = Inr (s1, d1)"
    "backfill_rows fault rc rows (s1, d1) = Inr (s', d')"
    by (auto split: sum.splits)
  show ?case
  proof (cases "r = row")
    case True
    then have "incident_key r \<notin> incident_key ` set rows" using Cons.prems(3) by simp
    then have "history (incident_key r) d' = history (incident_key r) d1" by (rule backfill_rows_effect(4) [OF step(2)])
    then show ?thesis using backfill_row_history [OF step(1)] True by (simp split: option.split)
  next
    case False
    then have r: "r \<in> set rows" "incident_key r \<noteq> incident_key row"
      using distinct_key [OF Cons.prems(3)] Cons.prems(2) by auto
    have "history (incident_key r) d1 = history (incident_key r) d"
      using backfill_row_history [OF step(1)] r(2) by (simp split: option.split)
    then show ?thesis using Cons.IH [OF step(2) r(1)] Cons.prems(3) by (simp split: option.split)
  qed
qed

lemma fold_patch_other: "incident_key r \<notin> incident_key ` set rows \<Longrightarrow> fold (patch_row rc) rows r = r"
  by (induction rows) (simp_all add: patch_row_def)

lemma fold_patch_own:
  "r \<in> set rows \<Longrightarrow> distinct (map incident_key rows) \<Longrightarrow> fold (patch_row rc) rows r = patch_row rc r r"
proof (induction rows)
  case Nil
  then show ?case by simp
next
  case (Cons row rows)
  show ?case
  proof (cases "r = row")
    case True
    then have "incident_key (patch_row rc r r) \<notin> incident_key ` set rows" using Cons.prems(2) by simp
    then show ?thesis using True by (simp add: fold_patch_other)
  next
    case False
    then have "r \<in> set rows" "incident_key r \<noteq> incident_key row"
      using distinct_key [OF Cons.prems(2)] Cons.prems(1) by auto
    then show ?thesis using Cons by (simp add: patch_row_def)
  qed
qed

lemma candidates_set:
  "r \<in> set (candidates rc d) \<longleftrightarrow> r \<in> set (incidents d) \<and> (case ir_raw r of None \<Rightarrow> False | Some raw \<Rightarrow> has_units_key rc raw)"
  by (simp add: candidates_def)

lemma candidates_distinct:
  assumes "distinct (map incident_key (incidents d))"
  shows "distinct (map incident_key (candidates rc d))"
proof -
  have "distinct (map incident_key (filter p (incidents d)))" for p
    using assms by (rule distinct_map_filter)
  then show ?thesis by (simp add: candidates_def distinct_map)
qed

lemma candidate_rebuilt: "r \<in> set (candidates rc d) \<Longrightarrow> payload_units rc r = rebuilt_units rc r"
  by (auto simp: candidates_set payload_units_def rebuilt_units_def split: option.splits)

lemma not_candidate: "r \<in> set (incidents d) \<Longrightarrow> r \<notin> set (candidates rc d) \<Longrightarrow> rebuilt_units rc r = None"
  by (auto simp: candidates_set rebuilt_units_def split: option.splits)

lemma candidates_known:
  assumes "db_ok d"
  shows "list_all (known_row d) (candidates rc d)"
  unfolding list_all_iff
proof
  fix r
  assume "r \<in> set (candidates rc d)"
  then have r: "r \<in> set (incidents d)" by (simp add: candidates_set)
  then have "poll_known (ir_last_seen_poll_id r) d"
    using assms by (simp add: db_ok_def refs_ok_def list_all_iff poll_known_def)
  moreover have "incident_known (ir_source r) (ir_incident_id r) d"
    using imageI [OF r, of incident_key] by (simp add: incident_known_def incident_key_def)
  ultimately show "known_row d r" by (simp add: known_row_def)
qed

lemma backfill_done:
  assumes "backfill_units fault rc d = (Inr s, d')" "db_ok d"
  shows "incidents d' = map (rebuilt rc) (incidents d)" "only_units d d'" "db_ok d'"
    and "r \<in> set (incidents d) \<Longrightarrow> history (incident_key r) d' =
      (case rebuilt_units rc r of None \<Rightarrow> history (incident_key r) d | Some units \<Rightarrow> rebuilt_history r units)"
proof -
  have run: "backfill_rows fault rc (candidates rc d) (empty_summary, d) = Inr (s, d')"
    using assms(1) by (auto simp: backfill_units_def split: option.splits sum.splits prod.splits)
  have keys: "distinct (map incident_key (incidents d))" using assms(2) by (simp add: db_ok_def keys_ok_def)
  note cand = candidates_distinct [OF keys, of rc]
  have own: "r' = r" if "r \<in> set (incidents d)" "r' \<in> set (incidents d)" "incident_key r' = incident_key r" for r r'
    using keys that by (meson distinct_map inj_onD)
  have "fold (patch_row rc) (candidates rc d) r = rebuilt rc r" if r: "r \<in> set (incidents d)" for r
  proof (cases "r \<in> set (candidates rc d)")
    case True
    then show ?thesis
      using fold_patch_own [OF True cand] candidate_rebuilt [OF True]
      by (simp add: patch_row_def rebuilt_def)
  next
    case False
    then have "incident_key r \<notin> incident_key ` set (candidates rc d)"
      using own [OF r] False by (auto simp: candidates_set)
    then show ?thesis using not_candidate [OF r False] by (simp add: fold_patch_other rebuilt_def)
  qed
  then show "incidents d' = map (rebuilt rc) (incidents d)"
    by (simp add: backfill_rows_effect(1) [OF run])
  show "only_units d d'" by (rule backfill_rows_effect(2) [OF run])
  show "db_ok d'" by (rule backfill_rows_effect(3) [OF run assms(2) candidates_known [OF assms(2)]])
  show "history (incident_key r) d' =
      (case rebuilt_units rc r of None \<Rightarrow> history (incident_key r) d | Some units \<Rightarrow> rebuilt_history r units)"
    if r: "r \<in> set (incidents d)"
  proof (cases "r \<in> set (candidates rc d)")
    case True
    then show ?thesis using backfill_rows_history [OF run True cand] candidate_rebuilt [OF True] by simp
  next
    case False
    then have "incident_key r \<notin> incident_key ` set (candidates rc d)"
      using own [OF r] False by (auto simp: candidates_set)
    from backfill_rows_effect(4) [OF run this] show ?thesis using not_candidate [OF r False] by simp
  qed
qed


section \<open>Samples\<close>

definition smashed_db :: database where
  "smashed_db = snd (UpsertIncident no_faults (sample_incident\<lparr>inc_Raw := ''{}''\<rparr>) 1 100 sample_db)"

definition sample_raw_codec :: raw_codec where
  "sample_raw_codec =
     \<lparr>decode_raw = (\<lambda>_. Inr (Some ''E1: On Scene; L2: Enroute'')), has_units_key = (\<lambda>_. True), raw_unescape = (\<lambda>s. s)\<rparr>"

lemma smashed_db_facts:
  "db_ok smashed_db" "length (incidents smashed_db) = 1"
  "map_sum id bf_rowsUpdated (fst (backfill_units no_faults sample_raw_codec smashed_db)) = Inr 1"
  by code_simp+


section \<open>Rows read before\<close>

lemma fold_patch_key:
  "row \<in> set rows \<Longrightarrow> distinct (map incident_key rows) \<Longrightarrow> incident_key r = incident_key row \<Longrightarrow>
   fold (patch_row rc) rows r = patch_row rc row r"
proof (induction rows)
  case Nil
  then show ?case by simp
next
  case (Cons x rows)
  show ?case
  proof (cases "x = row")
    case True
    then have "incident_key (patch_row rc row r) \<notin> incident_key ` set rows" using Cons.prems(2,3) by simp
    then show ?thesis using True by (simp add: fold_patch_other)
  next
    case False
    then have "row \<in> set rows" "incident_key row \<noteq> incident_key x"
      using distinct_key [OF Cons.prems(2)] Cons.prems(1) by auto
    then show ?thesis using Cons by (simp add: patch_row_def)
  qed
qed

text \<open>
  The candidates are read before the transaction begins and are not locked: the units and the
  history it writes come from the payloads as they were read, whatever the incident has become since.
\<close>

theorem backfill_overwrites_newer:
  assumes "backfill_rows fault rc rows (s, d) = Inr (s', d')" "distinct (map incident_key rows)"
    and "row \<in> set rows" "payload_units rc row = Some units"
    and "r \<in> set (incidents d')" "incident_key r = incident_key row"
  shows "ir_units r = units"
proof -
  obtain q where q: "q \<in> set (incidents d)" "r = fold (patch_row rc) rows q"
    using assms(5) unfolding backfill_rows_effect(1) [OF assms(1)] by auto
  have "incident_key (fold (patch_row rc) xs q) = incident_key q" for xs q
    by (induction xs arbitrary: q) simp_all
  then have k: "incident_key q = incident_key row" using assms(6) q(2) by simp
  then show ?thesis using fold_patch_key [OF assms(3,2) k] q(2) assms(4) by (simp add: patch_row_def)
qed

text \<open>An upsert between the read and the transaction, whose units are lost.\<close>

definition newer_db :: database where
  "newer_db = snd (UpsertIncident no_faults (sample_incident\<lparr>inc_Raw := ''[]'', inc_Units := []\<rparr>) 1 200 smashed_db)"

lemma newer_units_lost:
  "map_sum id (\<lambda>(s, d). map (length \<circ> ir_units) (incidents d))
     (backfill_rows no_faults sample_raw_codec (candidates sample_raw_codec smashed_db) (empty_summary, newer_db)) = Inr [2] \<and>
   map (length \<circ> ir_units) (incidents newer_db) = [0]"
  by code_simp

end
