(* ===== verification/Parser_Loops.thy ===== *)
theory Parser_Loops
  imports Dispatch_Parser
begin

text \<open>
  The loops of the dispatch parser end: \<^verbatim>\<open>FindAll\<close> over its patterns, and the two \<^verbatim>\<open>for\<close> loops of
  \<^verbatim>\<open>internal/dispatch/parser/parser.go\<close> that walk over consecutive channel markers. The model gives each
  of them as much fuel as there are characters; here the fuel is shown to be enough, which comes down to
  every pattern being at least one character wide.
\<close>

section \<open>Width of a pattern\<close>

primrec min_width :: "regex \<Rightarrow> nat" where
  "min_width Eps = 0"
| "min_width (Cls p) = 1"
| "min_width (Seq a b) = min_width a + min_width b"
| "min_width (Alt a b) = min (min_width a) (min_width b)"
| "min_width (Star a) = 0"
| "min_width (Upto n a) = 0"
| "min_width (Capture k a) = min_width a"
| "min_width WordBoundary = 0"
| "min_width BeginText = 0"
| "min_width EndText = 0"

lemma matches_width: "t \<in> set (matches r s) \<Longrightarrow> at_index s + min_width r \<le> at_index t"
proof (induction r arbitrary: s t)
  case (Cls p)
  then show ?case by (cases "remaining s") (auto split: if_splits)
next
  case (Seq a b)
  then show ?case by fastforce
next
  case (Alt a b)
  then show ?case by (auto simp: min_def dest!: Alt.IH)
next
  case (Star r)
  then show ?case using matches_advances [of t "Star r" s] by (simp add: advances_def)
next
  case (Upto n r)
  then show ?case using matches_advances [of t "Upto n r" s] by (simp add: advances_def)
next
  case (Capture k r)
  then show ?case by fastforce
qed (auto split: if_splits)

lemma search_from_width: "search_from r prev i s = Some m \<Longrightarrow> m_start m + min_width r \<le> m_end m"
proof (induction s arbitrary: prev i)
  case Nil
  then show ?case
    using matches_width [of _ r "\<lparr>at_index = i, prev_char = prev, remaining = [], groups = []\<rparr>"]
    by (fastforce simp: search_from.simps [of r prev i] split: list.splits)
next
  case (Cons c cs)
  show ?case
  proof (cases "matches r \<lparr>at_index = i, prev_char = prev, remaining = c # cs, groups = []\<rparr>")
    case Nil
    then show ?thesis using Cons by (simp add: search_from.simps [of r prev i])
  next
    case (Cons t ts)
    then show ?thesis
      using matches_width [of t r "\<lparr>at_index = i, prev_char = prev, remaining = c # cs, groups = []\<rparr>"]
        \<open>search_from r prev i (c # cs) = Some m\<close>
      by (auto simp: search_from.simps [of r prev i])
  qed
qed

lemma find_first_width: "find_first r s = Some m \<Longrightarrow> m_start m + min_width r \<le> m_end m"
  unfolding find_first_def by (rule search_from_width)

lemma find_all_from_width: "m \<in> set (find_all_from r fuel prev i s) \<Longrightarrow> m_start m + min_width r \<le> m_end m"
proof (induction fuel arbitrary: prev i s)
  case (Suc fuel)
  show ?case
  proof (cases "search_from r prev i s")
    case None
    then show ?thesis using Suc.prems by simp
  next
    case (Some k)
    have "m = k \<or> m \<in> set (find_all_from r fuel (Some (s ! (m_end k - i - 1))) (m_end k) (drop (m_end k - i) s))"
      using Suc.prems Some by (auto simp: Let_def split: if_splits)
    then show ?thesis using Suc.IH search_from_width [OF Some] by blast
  qed
qed simp

text \<open>More fuel than characters is all the same.\<close>

lemma find_all_from_fuel:
  assumes "0 < min_width r" "length s < f" "length s < g"
  shows "find_all_from r f prev i s = find_all_from r g prev i s"
  using assms(2,3)
proof (induction "length s" arbitrary: s prev i f g rule: less_induct)
  case less
  obtain f' g' where fg: "f = Suc f'" "g = Suc g'" using less.prems by (metis not_less0 not0_implies_Suc)
  show ?case
  proof (cases "search_from r prev i s")
    case (Some m)
    let ?n = "m_end m - i"
    have "0 < ?n" "?n \<le> length s"
      using search_from_bounds [OF Some] search_from_width [OF Some] assms(1) by auto
    then have "find_all_from r f' (Some (s ! (?n - 1))) (m_end m) (drop ?n s) =
        find_all_from r g' (Some (s ! (?n - 1))) (m_end m) (drop ?n s)"
      using less.prems fg by (intro less.hyps) auto
    then show ?thesis using Some fg by (simp add: Let_def)
  qed (simp add: fg)
qed

section \<open>The patterns\<close>

definition parser_patterns :: "regex list" where
  "parser_patterns =
     [cdecPattern, unitPattern, hyphenatedAMRPattern, whitespacePattern, punctuatedDirectionPattern,
      splitHouseNumberPattern, esuiteDirectionPattern, overUnderSuffixPattern] @ addressPatterns @
     leadingNatureAddressNoisePatterns"

lemmas pattern_defs =
  parser_patterns_def cdecPattern_def unitPattern_def hyphenatedAMRPattern_def whitespacePattern_def
  punctuatedDirectionPattern_def splitHouseNumberPattern_def esuiteDirectionPattern_def
  overUnderSuffixPattern_def addressPatterns_def leadingNatureAddressNoisePatterns_def Plus_def Opt_def lit_def
  sp_def digit_def alnum_def conjunction_def streetNamePattern_def directionPattern_def plain_direction_def

lemma patterns_wide: "list_all (\<lambda>r. 0 < min_width r) parser_patterns"
  by (simp add: pattern_defs)

lemma cdec_wide: "0 < min_width cdecPattern"
  using patterns_wide by (simp add: parser_patterns_def)

section \<open>The loops over channel markers\<close>

text \<open>The body of each loop: where it goes on, if it does.\<close>

definition channel_step :: "string \<Rightarrow> nat \<Rightarrow> nat option" where
  "channel_step t end0 =
     (if end0 < length t
      then
        (let trimmed = TrimLeft separators (drop end0 t)
         in case find_first cdecPattern trimmed of
              None \<Rightarrow> None
            | Some m \<Rightarrow>
                if m_start m \<noteq> 0 then None
                else Some (end0 + (length (drop end0 t) - length trimmed) + m_end m))
      else None)"

definition marker_step :: "string \<Rightarrow> string option" where
  "marker_step candidate =
     (case find_first cdecPattern candidate of
        None \<Rightarrow> None
      | Some m \<Rightarrow> if m_start m \<noteq> 0 then None else Some (Trim separators (drop (m_end m) candidate)))"

lemma channel_end_step:
  "channel_end (Suc f) t e = (case channel_step t e of None \<Rightarrow> e | Some e' \<Rightarrow> channel_end f t e')"
  by (simp add: channel_step_def Let_def split: option.split)

lemma skip_markers_step:
  "skip_markers (Suc f) c = (case marker_step c of None \<Rightarrow> c | Some c' \<Rightarrow> skip_markers f c')"
  by (simp add: marker_step_def split: option.split)

lemma channel_step_advances: "channel_step t e = Some e' \<Longrightarrow> e < e'"
  using find_first_width [of cdecPattern] cdec_wide
  by (fastforce simp: channel_step_def Let_def split: if_splits option.splits)

lemma marker_step_shortens:
  assumes "marker_step c = Some c'"
  shows "length c' < length c"
proof -
  obtain m where m: "find_first cdecPattern c = Some m" "c' = Trim separators (drop (m_end m) c)"
    using assms by (auto simp: marker_step_def split: option.splits if_splits)
  then show ?thesis
    using find_first_width [OF m(1)] find_first_bounds [OF m(1)] cdec_wide
      length_Trim(1) [of separators "drop (m_end m) c"] by simp
qed

lemma channel_end_fuel: "length t - e \<le> f \<Longrightarrow> length t - e \<le> g \<Longrightarrow> channel_end f t e = channel_end g t e"
proof (induction "length t - e" arbitrary: e f g rule: less_induct)
  case less
  show ?case
  proof (cases "channel_step t e")
    case None
    then show ?thesis by (cases f; cases g) (simp_all add: channel_end_step del: channel_end.simps(2))
  next
    case (Some e')
    then have e: "e < length t" by (auto simp: channel_step_def split: if_splits)
    then obtain f' g' where fg: "f = Suc f'" "g = Suc g'" using less.prems by (cases f; cases g) auto
    have "channel_end f' t e' = channel_end g' t e'"
      using less.prems fg e channel_step_advances [OF Some] by (intro less.hyps) auto
    then show ?thesis using Some fg by (simp add: channel_end_step del: channel_end.simps(2))
  qed
qed

lemma skip_markers_fuel: "length c \<le> f \<Longrightarrow> length c \<le> g \<Longrightarrow> skip_markers f c = skip_markers g c"
proof (induction "length c" arbitrary: c f g rule: less_induct)
  case less
  show ?case
  proof (cases "marker_step c")
    case None
    then show ?thesis by (cases f; cases g) (simp_all add: skip_markers_step del: skip_markers.simps(2))
  next
    case (Some c')
    note short = marker_step_shortens [OF Some]
    then obtain f' g' where fg: "f = Suc f'" "g = Suc g'" using less.prems by (cases f; cases g) auto
    have "skip_markers f' c' = skip_markers g' c'"
      using less.prems fg short by (intro less.hyps) auto
    then show ?thesis using Some fg by (simp add: skip_markers_step del: skip_markers.simps(2))
  qed
qed

text \<open>
  C30. The loops of the parser end, with the value the model gives them: the functions that walk over channel
  markers satisfy the equations of the code's \<^verbatim>\<open>for\<close> loops, without any fuel, and every round of those loops
  comes strictly closer to the end of the text; no pattern of the parser matches the empty string, so that
  the search for all matches moves on and ends, whatever fuel it is given beyond the length of the text.
\<close>

theorem parser_loops_terminate:
  "channelSequenceEnd t e =
     (case channel_step t e of None \<Rightarrow> e | Some e' \<Rightarrow> channelSequenceEnd t e') \<and>
   skip_markers (length c) c =
     (case marker_step c of None \<Rightarrow> c | Some c' \<Rightarrow> skip_markers (length c') c') \<and>
   {(e', e) | e e'. channel_step t e = Some e'} \<subseteq> measure (\<lambda>e. length t - e) \<and>
   {(c', c) | c c'. marker_step c = Some c'} \<subseteq> measure length \<and>
   list_all (\<lambda>r. find_all_from r (Suc (length t + k)) None 0 t = find_all r t \<and>
     list_all (\<lambda>m. m_start m < m_end m) (find_all r t)) parser_patterns"
proof -
  have 1: "channelSequenceEnd t e =
     (case channel_step t e of None \<Rightarrow> e | Some e' \<Rightarrow> channelSequenceEnd t e')"
    using channel_end_fuel [of t e "length t" "Suc (length t)"]
    by (simp add: channelSequenceEnd_def channel_end_step le_SucI split: option.split del: channel_end.simps(2))
  have 2: "skip_markers (length c) c =
     (case marker_step c of None \<Rightarrow> c | Some c' \<Rightarrow> skip_markers (length c') c')"
  proof (cases "marker_step c")
    case (Some c')
    then show ?thesis
      using skip_markers_fuel [of c "length c" "Suc (length c)"] skip_markers_fuel [of c' "length c" "length c'"]
        marker_step_shortens [OF Some] by (simp add: skip_markers_step del: skip_markers.simps(2))
  next
    case None
    then show ?thesis
      using skip_markers_fuel [of c "length c" "Suc (length c)"]
      by (simp add: skip_markers_step del: skip_markers.simps(2))
  qed
  have 3: "{(e', e) | e e'. channel_step t e = Some e'} \<subseteq> measure (\<lambda>e. length t - e)"
  proof -
    have "e < length t" if "channel_step t e = Some e'" for e e'
      using that by (simp add: channel_step_def split: if_splits)
    then show ?thesis using channel_step_advances by fastforce
  qed
  have 5: "find_all_from r (Suc (length t + k)) None 0 t = find_all r t \<and>
     list_all (\<lambda>m. m_start m < m_end m) (find_all r t)" if "r \<in> set parser_patterns" for r
  proof -
    have w: "0 < min_width r" using patterns_wide that by (simp add: list_all_iff)
    then show ?thesis
      using find_all_from_fuel [OF w, of t "Suc (length t + k)" "Suc (length t)"]
        find_all_from_width [of _ r "Suc (length t)" None 0 t]
      by (fastforce simp: find_all_def list_all_iff)
  qed
  show ?thesis using 1 2 3 5 marker_step_shortens by (auto simp: list_all_iff)
qed

end
