(* ===== verification/Feed_API.thy ===== *)
theory Feed_API
  imports Transcripts Access Go_Text
begin

text \<open>
  The reading endpoints of \<^verbatim>\<open>internal/api\<close>: the active feed and its refresh (\<^verbatim>\<open>active.go\<close>, with
  \<^verbatim>\<open>enrichment.go\<close> and the authority of \<^verbatim>\<open>source_status.go\<close>), the incident detail (\<^verbatim>\<open>detail.go\<close>), the history
  placeholder (\<^verbatim>\<open>history.go\<close>), the public pages (\<^verbatim>\<open>public.go\<close>) and the health page.

  A response body is a datatype with one constructor per JSON shape; encoding it is left out. A request
  carries one clock reading, which Go and the database both see.
\<close>

section \<open>What the API adds to the metadata\<close>

record FeedMeta = StalenessMeta +
  fm_SourceStatus :: "source_status option"
  fm_SourceStatusReason :: string
  fm_NewestIncidentAt :: "time option"
  fm_DataStalenessSeconds :: "int option"
  fm_Disclaimer :: string
  fm_Attribution :: string
  fm_RefreshMinSeconds :: int
  fm_Tier :: string

definition feed_meta :: "StalenessMeta \<Rightarrow> FeedMeta" where
  "feed_meta m = StalenessMeta.extend m (FeedMeta.fields None [] None None [] [] 0 [])"

definition cactusDisclaimer :: string where "cactusDisclaimer = ''Not for emergency use; call 911''"
definition cactusAttribution :: string where "cactusAttribution = []"
definition activeRefreshMinSecond :: int where "activeRefreshMinSecond = 60"

definition default_parser_version :: "ApiConfig \<Rightarrow> FeedMeta \<Rightarrow> FeedMeta" where
  "default_parser_version cfg m =
     (if MetaParserVersion m = [] then m\<lparr>MetaParserVersion := cfg_DefaultParserVersion cfg\<rparr> else m)"

text \<open>The newest of the dates, the first of equal ones.\<close>

definition applyIncidentFreshnessMeta :: "FeedMeta \<Rightarrow> time \<Rightarrow> time list \<Rightarrow> FeedMeta" where
  "applyIncidentFreshnessMeta m now incidentDates =
     (case incidentDates of
        [] \<Rightarrow> m\<lparr>fm_NewestIncidentAt := None, fm_DataStalenessSeconds := None\<rparr>
      | d # ds \<Rightarrow>
          (let newest = foldl (\<lambda>newest candidate. if candidate > newest then candidate else newest) d ds;
               seconds = whole_seconds (Sub now newest)
           in m\<lparr>fm_NewestIncidentAt := Some newest,
                fm_DataStalenessSeconds := Some (if seconds < 0 then 0 else seconds)\<rparr>))"

definition applyActiveIncidentFreshnessMeta :: "FeedMeta \<Rightarrow> time \<Rightarrow> ActiveIncident list \<Rightarrow> FeedMeta" where
  "applyActiveIncidentFreshnessMeta m now incs = applyIncidentFreshnessMeta m now (map ai_IncidentDate incs)"

definition status_meta :: "FeedMeta \<Rightarrow> time \<Rightarrow> ApiConfig \<Rightarrow> FeedMeta" where
  "status_meta m now cfg =
     (case applySourceStatus m now cfg of
        (m1, status, reason) \<Rightarrow> m1\<lparr>fm_SourceStatus := Some status, fm_SourceStatusReason := reason\<rparr>)"

definition last_known :: "FeedMeta \<Rightarrow> time \<Rightarrow> bool" where
  "last_known m t =
     (case fm_SourceStatus m of None \<Rightarrow> True | Some status \<Rightarrow> incidentIsLastKnown m status t)"

definition applyIncidentAuthority :: "FeedMeta \<Rightarrow> ActiveIncident list \<Rightarrow> ActiveIncident list" where
  "applyIncidentAuthority m incs =
     map (\<lambda>i. i\<lparr>ai_LastConfirmedAt := ai_LastSeenAt i, ai_IsLastKnown := last_known m (ai_LastSeenAt i)\<rparr>) incs"

definition applyCactusMeta :: "FeedMeta \<Rightarrow> Identity \<Rightarrow> 'b Limiter \<Rightarrow> Scope \<Rightarrow> FeedMeta" where
  "applyCactusMeta m identity limiter scope =
     m\<lparr>fm_Disclaimer := cactusDisclaimer, fm_Attribution := cactusAttribution,
       fm_RefreshMinSeconds :=
         (if scope = ScopeIncidentRead then activeRefreshMinSecond
          else ceil_seconds (RefreshEvery limiter identity scope)),
       fm_Tier :=
         (if tier_string (id_Tier identity) = [] then tier_string TierFree else tier_string (id_Tier identity))\<rparr>"

definition enrichActiveIncidents :: "ActiveIncident list \<Rightarrow> ActiveIncident list" where
  "enrichActiveIncidents incs =
     map (\<lambda>i. i\<lparr>ai_NatureDesc := NatureDescriptionFor (ai_NatureCode i) (ai_NatureDesc i),
               ai_Severity := SeverityForCode (ai_NatureCode i)\<rparr>) incs"

definition enrichIncidentDetail :: "IncidentDetail \<Rightarrow> IncidentDetail" where
  "enrichIncidentDetail i =
     i\<lparr>de_NatureDesc := NatureDescriptionFor (de_NatureCode i) (de_NatureDesc i),
       de_Severity := SeverityForCode (de_NatureCode i)\<rparr>"

section \<open>The filter\<close>

definition validLat :: "float64 \<Rightarrow> bool" where
  "validLat v \<longleftrightarrow> fle (Fin (-90)) v \<and> fle v (Fin 90)"

definition validLon :: "float64 \<Rightarrow> bool" where
  "validLon v \<longleftrightarrow> fle (Fin (-180)) v \<and> fle v (Fin 180)"

record text_library =
  other_float :: "string \<Rightarrow> float64 option"
  other_time :: "string \<Rightarrow> time option"

fun parse_floats :: "text_library \<Rightarrow> string list \<Rightarrow> float64 list option" where
  "parse_floats lib [] = Some []"
| "parse_floats lib (part # parts) =
     (case ParseFloat (other_float lib) (TrimSpace part) of
        None \<Rightarrow> None
      | Some v \<Rightarrow> map_option ((#) v) (parse_floats lib parts))"

definition parseBBox :: "text_library \<Rightarrow> string \<Rightarrow> error + BBox" where
  "parseBBox lib raw =
     (let parts = Split raw (CHR '','')
      in if length parts \<noteq> 4 then Inl ''bbox must be minLon,minLat,maxLon,maxLat''
         else
           (case parse_floats lib parts of
              Some [minLon, minLat, maxLon, maxLat] \<Rightarrow>
                if fle maxLon minLon \<or> fle maxLat minLat
                then Inl ''bbox min values must be less than max values''
                else if \<not> validLon minLon \<or> \<not> validLon maxLon \<or> \<not> validLat minLat \<or> \<not> validLat maxLat
                then Inl ''bbox coordinates out of range''
                else Inr \<lparr>bb_MinLon = minLon, bb_MinLat = minLat, bb_MaxLon = maxLon, bb_MaxLat = maxLat\<rparr>
            | _ \<Rightarrow> Inl ''bbox values must be numbers''))"

definition parse_valid :: "text_library \<Rightarrow> (float64 \<Rightarrow> bool) \<Rightarrow> string \<Rightarrow> float64 option" where
  "parse_valid lib valid raw =
     (case ParseFloat (other_float lib) raw of None \<Rightarrow> None | Some v \<Rightarrow> if valid v then Some v else None)"

definition parseRadius :: "text_library \<Rightarrow> string \<Rightarrow> string \<Rightarrow> string \<Rightarrow> error + Radius" where
  "parseRadius lib latRaw lonRaw metersRaw =
     (if latRaw = [] \<or> lonRaw = [] \<or> metersRaw = []
      then Inl ''radius filter requires lat, lon, and radius_meters''
      else
        (case parse_valid lib validLat latRaw of
           None \<Rightarrow> Inl ''lat must be a valid latitude''
         | Some lat \<Rightarrow>
             (case parse_valid lib validLon lonRaw of
                None \<Rightarrow> Inl ''lon must be a valid longitude''
              | Some lon \<Rightarrow>
                  (case parse_valid lib (\<lambda>v. \<not> fle v (Fin 0)) metersRaw of
                     None \<Rightarrow> Inl ''radius_meters must be greater than zero''
                   | Some meters \<Rightarrow> Inr \<lparr>ra_Lat = lat, ra_Lon = lon, ra_Meters = meters\<rparr>))))"

text \<open>A parameter that may be missing: absent, present and good, or present and bad.\<close>

definition optional_param :: "string \<Rightarrow> (string \<Rightarrow> error + 'a) \<Rightarrow> error + 'a option" where
  "optional_param raw parse = (if raw = [] then Inr None else map_sum id Some (parse raw))"

definition parse_time_param :: "text_library \<Rightarrow> string \<Rightarrow> string \<Rightarrow> error + time" where
  "parse_time_param lib name raw =
     (case ParseRFC3339 (other_time lib) raw of None \<Rightarrow> Inl (name @ '' must be RFC3339'') | Some t \<Rightarrow> Inr t)"

definition parseActiveIncidentFilter :: "text_library \<Rightarrow> http_request \<Rightarrow> error + ActiveIncidentFilter" where
  "parseActiveIncidentFilter lib r =
     (let q = values_Get (hr_values r);
          hasBBox = (q ''bbox'' \<noteq> []);
          hasRadius = (q ''lat'' \<noteq> [] \<or> q ''lon'' \<noteq> [] \<or> q ''radius_meters'' \<noteq> [])
      in if hasBBox \<and> hasRadius then Inl ''provide either bbox or radius filter, not both''
         else
           (case optional_param (q ''bbox'') (parseBBox lib) of
              Inl e \<Rightarrow> Inl e
            | Inr bbox \<Rightarrow>
                (case (if hasRadius
                       then map_sum id Some (parseRadius lib (q ''lat'') (q ''lon'') (q ''radius_meters''))
                       else Inr None) of
                   Inl e \<Rightarrow> Inl e
                 | Inr radius \<Rightarrow>
                     (case optional_param (q ''since'') (parse_time_param lib ''since'') of
                        Inl e \<Rightarrow> Inl e
                      | Inr since \<Rightarrow>
                          (case optional_param (q ''until'') (parse_time_param lib ''until'') of
                             Inl e \<Rightarrow> Inl e
                           | Inr until' \<Rightarrow>
                               (case (since, until') of
                                  (Some s, Some u) \<Rightarrow>
                                    if s > u then Inl ''since must be before until''
                                    else Inr \<lparr>af_BBox = bbox, af_Radius = radius, af_Since = since, af_Until = until'\<rparr>
                                | _ \<Rightarrow> Inr \<lparr>af_BBox = bbox, af_Radius = radius, af_Since = since, af_Until = until'\<rparr>))))))"

section \<open>Bodies\<close>

record ActiveFeed =
  fe_Meta :: FeedMeta
  fe_Incidents :: "ActiveIncident list"

record DetailFeed =
  df_Meta :: FeedMeta
  df_Incident :: IncidentDetail
  df_UnitHistory :: "UnitObservation list"
  df_Events :: "IncidentEvent list"

record dispatchHealthResponse =
  dr_LastReceivedAt :: "time option"
  dr_LastReceivedAgeSeconds :: "int option"
  dr_RowsLastHour :: int
  dr_RowsLast24h :: int
  dr_HighConfidenceLastHour :: int
  dr_LowConfidenceLastHour :: int
  dr_ReviewRecommendedLastHour :: int
  dr_ParserLastBatchAt :: "time option"
  dr_ParserRowsPromotedLastHour :: int
  dr_ParserRowsGateFailedLastHour :: int
  dr_ParserRowsGeocodeFailedLastHour :: int
  dr_ParserBacklogUnparsed :: int
  dr_Status :: string

text \<open>A constant JSON document.\<close>

datatype doc = DObj "(string \<times> doc) list" | DArr "doc list" | DStr string | DFlag bool | DNum int

datatype payload =
    ActivePayload ActiveFeed
  | RecentPayload "ActiveIncident list"
  | DetailPayload DetailFeed
  | StatsPayload PublicStats
  | CodesPayload string "CodeInfo list"
  | DocPayload doc
  | HealthPayload healthResponse
  | TranscriptAck int bool
  | TranscriptsPayload "DispatchTranscript list"
  | DispatchHealthPayload dispatchHealthResponse
  | RawPayload string

section \<open>Handlers\<close>

record api_env =
  ap_cfg :: ApiConfig
  ap_faults :: faults
  ap_postgis :: postgis
  ap_text :: text_library

type_synonym 'b feed_handler = "(payload, 'b) handler"

definition build_active_feed ::
  "ApiConfig \<Rightarrow> time \<Rightarrow> Identity \<Rightarrow> 'b Limiter \<Rightarrow> Scope \<Rightarrow> ActiveIncidentsResult \<Rightarrow> ActiveFeed" where
  "build_active_feed cfg now identity limiter scope result =
     (let m0 = default_parser_version cfg (feed_meta (ar_Meta result));
          incs = enrichActiveIncidents (ar_Incidents result);
          m1 = applyActiveIncidentFreshnessMeta m0 now incs;
          m2 = status_meta m1 now cfg
      in \<lparr>fe_Meta = applyCactusMeta m2 identity limiter scope, fe_Incidents = applyIncidentAuthority m2 incs\<rparr>)"

definition writeActiveIncidents :: "api_env \<Rightarrow> Scope \<Rightarrow> 'b feed_handler" where
  "writeActiveIncidents env scope r s =
     (case parseActiveIncidentFilter (ap_text env) r of
        Inl e \<Rightarrow> (writeError 400 e, s)
      | Inr filt \<Rightarrow>
          (case ListActiveIncidents (ap_faults env) (ap_postgis env) (hr_now r) filt (sv_db s) of
             Inl e \<Rightarrow> (writeError 500 ''query active incidents'', s)
           | Inr result \<Rightarrow>
               (writeJSON 200 (Body (ActivePayload
                  (build_active_feed (ap_cfg env) (hr_now r) (IdentityFromContext r) (sv_limiter s) scope result))), s)))"

definition activeIncidentsHandler :: "api_env \<Rightarrow> 'b feed_handler" where
  "activeIncidentsHandler env = writeActiveIncidents env ScopeIncidentRead"

definition refreshIncidentsHandler :: "api_env \<Rightarrow> 'b feed_handler" where
  "refreshIncidentsHandler env = writeActiveIncidents env ScopeManualRefresh"

definition build_detail :: "ApiConfig \<Rightarrow> time \<Rightarrow> IncidentDetailResult \<Rightarrow> IncidentDetail \<Rightarrow> DetailFeed" where
  "build_detail cfg now result inc =
     (let m0 = default_parser_version cfg (feed_meta (dr_Meta result));
          inc1 = enrichIncidentDetail inc;
          m1 = applyIncidentFreshnessMeta m0 now [de_IncidentDate inc1];
          m2 = status_meta m1 now cfg
      in \<lparr>df_Meta = m2,
          df_Incident = inc1\<lparr>de_LastConfirmedAt := de_LastSeenAt inc1,
                             de_IsLastKnown := last_known m2 (de_LastSeenAt inc1)\<rparr>,
          df_UnitHistory = dr_UnitHistory result, df_Events = dr_Events result\<rparr>)"

definition incidentDetailHandler :: "api_env \<Rightarrow> string \<Rightarrow> string \<Rightarrow> 'b feed_handler" where
  "incidentDetailHandler env src iid r s =
     (if src = [] \<or> iid = [] then (writeError 400 ''source and incident_id are required'', s)
      else
        (case GetIncidentDetail (ap_faults env) (hr_now r) src iid (sv_db s) of
           Inl e \<Rightarrow> (writeError 500 ''query incident detail'', s)
         | Inr result \<Rightarrow>
             (case dr_Incident result of
                None \<Rightarrow> (writeError 404 ''incident not found'', s)
              | Some inc \<Rightarrow>
                  (writeJSON 200 (Body (DetailPayload (build_detail (ap_cfg env) (hr_now r) result inc))), s))))"

definition historyPlaceholderHandler :: "api_env \<Rightarrow> 'b feed_handler" where
  "historyPlaceholderHandler env r s =
     (if cfg_PaidTierEnabled (ap_cfg env)
      then (writeError 402 ''paid history requires auth and billing; those are not implemented in v0.2'', s)
      else (writeError 402 ''paid history is not enabled for v0.2'', s))"

definition statsHandler :: "api_env \<Rightarrow> 'b feed_handler" where
  "statsHandler env r s =
     (case PublicStats_of (ap_faults env) (hr_now r) (sv_db s) of
        Inl e \<Rightarrow> (writeError 500 ''query public stats'', s)
      | Inr stats \<Rightarrow>
          (let tier = tier_string (id_Tier (IdentityFromContext r))
           in (writeJSON 200 (Body (StatsPayload
                 (stats\<lparr>st_Tier := (if tier = [] then tier_string TierFree else tier)\<rparr>))), s)))"

definition codesHandler :: "'b feed_handler" where
  "codesHandler r s = (writeJSON 200 (Body (CodesPayload ParserVersion codeDictionary)), s)"

definition rootHandler :: "'b feed_handler" where
  "rootHandler r s =
     (writeJSON 200 (Body (DocPayload (DObj
        [(''name'', DStr ''cactus-watch-feed''), (''version'', DStr ''v1''),
         (''docs'', DStr ''https://feed.cactuswatch.com/v1/openapi.json''),
         (''health'', DStr ''https://feed.cactuswatch.com/v1/health'')]))), s)"

definition health_page :: "api_env \<Rightarrow> 'b feed_handler" where
  "health_page env r s =
     (let h = healthHandler (ap_faults env (ReadStmt ''ping'') (sv_db s) = None)
                (SourceHealth (ap_faults env) (hr_now r) (cfg_Sources (ap_cfg env)) (sv_db s))
                (hr_now r) (ap_cfg env)
      in (writeJSON (health_Code h) (Body (HealthPayload h)), s))"

section \<open>Filters that pass\<close>

definition filter_ok :: "ActiveIncidentFilter \<Rightarrow> bool" where
  "filter_ok f \<longleftrightarrow>
     (af_BBox f = None \<or> af_Radius f = None) \<and>
     (case af_BBox f of
        None \<Rightarrow> True
      | Some b \<Rightarrow>
          fless (bb_MinLon b) (bb_MaxLon b) \<and> fless (bb_MinLat b) (bb_MaxLat b) \<and>
          validLon (bb_MinLon b) \<and> validLon (bb_MaxLon b) \<and> validLat (bb_MinLat b) \<and> validLat (bb_MaxLat b)) \<and>
     (case af_Radius f of
        None \<Rightarrow> True
      | Some c \<Rightarrow> validLat (ra_Lat c) \<and> validLon (ra_Lon c) \<and> (fless (Fin 0) (ra_Meters c) \<or> ra_Meters c = NaN)) \<and>
     (case (af_Since f, af_Until f) of (Some t, Some u) \<Rightarrow> t \<le> u | _ \<Rightarrow> True)"

lemma valid_finite:
  "validLat v \<Longrightarrow> \<exists>q. v = Fin q \<and> -90 \<le> q \<and> q \<le> 90"
  "validLon v \<Longrightarrow> \<exists>q. v = Fin q \<and> -180 \<le> q \<and> q \<le> 180"
  by (cases v; auto simp: validLat_def validLon_def fle_def)+

lemma not_fle_less: "v = Fin p \<Longrightarrow> w = Fin q \<Longrightarrow> \<not> fle w v \<Longrightarrow> fless v w"
  by (auto simp: fle_def)

lemma parseBBox_ok:
  assumes "parseBBox lib raw = Inr b"
  shows "fless (bb_MinLon b) (bb_MaxLon b) \<and> fless (bb_MinLat b) (bb_MaxLat b) \<and>
    validLon (bb_MinLon b) \<and> validLon (bb_MaxLon b) \<and> validLat (bb_MinLat b) \<and> validLat (bb_MaxLat b)"
proof -
  obtain w x y z where v: "\<not> fle y w" "\<not> fle z x" "validLon w" "validLon y" "validLat x" "validLat z"
    and b: "b = \<lparr>bb_MinLon = w, bb_MinLat = x, bb_MaxLon = y, bb_MaxLat = z\<rparr>"
    using assms by (auto simp: parseBBox_def Let_def split: if_splits option.splits list.splits)
  have "fless w y" "fless x z"
    using valid_finite(2) [OF v(3)] valid_finite(2) [OF v(4)] valid_finite(1) [OF v(5)] valid_finite(1) [OF v(6)]
      v(1,2) not_fle_less by blast+
  then show ?thesis using v b by simp
qed

lemma parse_valid_Some: "parse_valid lib p raw = Some v \<Longrightarrow> p v"
  by (auto simp: parse_valid_def split: option.splits if_splits)

lemma parseRadius_ok:
  assumes "parseRadius lib a b c = Inr ra"
  shows "validLat (ra_Lat ra) \<and> validLon (ra_Lon ra) \<and> (fless (Fin 0) (ra_Meters ra) \<or> ra_Meters ra = NaN)"
proof -
  obtain lat lon m where p: "parse_valid lib validLat a = Some lat" "parse_valid lib validLon b = Some lon"
    "parse_valid lib (\<lambda>v. \<not> fle v (Fin 0)) c = Some m" "ra = \<lparr>ra_Lat = lat, ra_Lon = lon, ra_Meters = m\<rparr>"
    using assms by (auto simp: parseRadius_def split: if_splits option.splits)
  have "fless (Fin 0) m \<or> m = NaN"
    using parse_valid_Some [OF p(3)] by (cases m) (auto simp: fle_def)
  then show ?thesis using parse_valid_Some [OF p(1)] parse_valid_Some [OF p(2)] p(4) by simp
qed

lemma optional_param_Inr:
  "optional_param raw parse = Inr v \<longleftrightarrow>
     (raw = [] \<and> v = None) \<or> (raw \<noteq> [] \<and> (\<exists>x. parse raw = Inr x \<and> v = Some x))"
  by (cases "parse raw") (auto simp: optional_param_def)

lemma map_sum_Some: "map_sum id Some x = Inr v \<longleftrightarrow> (\<exists>y. x = Inr y \<and> v = Some y)"
  by (cases x) auto

lemma parse_filter_steps:
  assumes "parseActiveIncidentFilter lib r = Inr f"
  defines "q \<equiv> values_Get (hr_values r)"
  defines "has \<equiv> q ''lat'' \<noteq> [] \<or> q ''lon'' \<noteq> [] \<or> q ''radius_meters'' \<noteq> []"
  shows "\<exists>b c t u. \<not> (q ''bbox'' \<noteq> [] \<and> has) \<and> optional_param (q ''bbox'') (parseBBox lib) = Inr b \<and>
    (has \<longrightarrow> (\<exists>ra. parseRadius lib (q ''lat'') (q ''lon'') (q ''radius_meters'') = Inr ra \<and> c = Some ra)) \<and>
    (\<not> has \<longrightarrow> c = None) \<and> (\<forall>x y. t = Some x \<longrightarrow> u = Some y \<longrightarrow> x \<le> y) \<and>
    f = \<lparr>af_BBox = b, af_Radius = c, af_Since = t, af_Until = u\<rparr>"
proof (cases has)
  case True
  then show ?thesis
    using assms(1) unfolding parseActiveIncidentFilter_def Let_def q_def [symmetric] has_def [symmetric]
    by (auto simp: map_sum_Some split: if_splits sum.splits option.splits)
next
  case False
  then show ?thesis
    using assms(1) unfolding parseActiveIncidentFilter_def Let_def q_def [symmetric] has_def [symmetric]
    by (auto split: if_splits sum.splits option.splits)
qed

text \<open>
  C37. A filter that parses is well formed: a box or a radius but not both, a box with its corners in order
  and on the globe, a centre on the globe with a radius that is positive or NaN, and an interval of time
  that is not reversed.
\<close>

theorem parseActiveIncidentFilter_ok:
  assumes "parseActiveIncidentFilter lib r = Inr f"
  shows "filter_ok f"
proof -
  let ?q = "values_Get (hr_values r)"
  let ?has = "?q ''lat'' \<noteq> [] \<or> ?q ''lon'' \<noteq> [] \<or> ?q ''radius_meters'' \<noteq> []"
  obtain b c t u where p: "\<not> (?q ''bbox'' \<noteq> [] \<and> ?has)" "optional_param (?q ''bbox'') (parseBBox lib) = Inr b"
    "?has \<longrightarrow> (\<exists>ra. parseRadius lib (?q ''lat'') (?q ''lon'') (?q ''radius_meters'') = Inr ra \<and> c = Some ra)"
    "\<not> ?has \<longrightarrow> c = None" "\<forall>x y. t = Some x \<longrightarrow> u = Some y \<longrightarrow> x \<le> y"
    and f: "f = \<lparr>af_BBox = b, af_Radius = c, af_Since = t, af_Until = u\<rparr>"
    using parse_filter_steps [OF assms] by blast
  have box: "case b of None \<Rightarrow> True | Some b \<Rightarrow>
      fless (bb_MinLon b) (bb_MaxLon b) \<and> fless (bb_MinLat b) (bb_MaxLat b) \<and>
      validLon (bb_MinLon b) \<and> validLon (bb_MaxLon b) \<and> validLat (bb_MinLat b) \<and> validLat (bb_MaxLat b)"
    using p(2) parseBBox_ok by (auto simp: optional_param_Inr)
  have circle: "case c of None \<Rightarrow> True
      | Some c \<Rightarrow> validLat (ra_Lat c) \<and> validLon (ra_Lon c) \<and> (fless (Fin 0) (ra_Meters c) \<or> ra_Meters c = NaN)"
    using p(3,4) parseRadius_ok by (cases ?has) auto
  have "b = None \<or> c = None"
    using p(1-4) by (auto simp: optional_param_Inr)
  then show ?thesis using box circle p(5) by (simp add: filter_ok_def f split: option.split)
qed

definition plain_text :: text_library where "plain_text = \<lparr>other_float = (\<lambda>_. None), other_time = (\<lambda>_. None)\<rparr>"

definition filter_request :: http_request where
  "filter_request =
     sample_request\<lparr>hr_values := [(''lat'', [''33.5'']), (''lon'', [''-112'']), (''radius_meters'', [''NaN''])]\<rparr>"

lemma filter_request_accepted:
  "parseActiveIncidentFilter plain_text filter_request =
     Inr \<lparr>af_BBox = None, af_Radius = Some \<lparr>ra_Lat = Fin (67 / 2), ra_Lon = Fin (-112), ra_Meters = NaN\<rparr>,
          af_Since = None, af_Until = None\<rparr>"
  by code_simp

theorem parseActiveIncidentFilter_ok_witness:
  "filter_ok \<lparr>af_BBox = None, af_Radius = Some \<lparr>ra_Lat = Fin (67 / 2), ra_Lon = Fin (-112), ra_Meters = NaN\<rparr>,
     af_Since = None, af_Until = None\<rparr>"
  by (rule parseActiveIncidentFilter_ok [OF filter_request_accepted])

section \<open>The active feed\<close>

definition no_filter :: ActiveIncidentFilter where
  "no_filter = \<lparr>af_BBox = None, af_Radius = None, af_Since = None, af_Until = None\<rparr>"

definition ai_key :: "ActiveIncident \<Rightarrow> string \<times> string" where
  "ai_key i = (ai_Source i, ai_IncidentID i)"

lemma accepts_all [simp]: "filter_accepts pg no_filter r"
  by (simp add: filter_accepts_def no_filter_def)

lemma active_row_keys [simp]:
  "ai_key (active_row t n r) = incident_key r" "ai_IncidentDate (active_row t n r) = ir_incident_date r"
  "ai_LastSeenAt (active_row t n r) = ir_last_seen_at r" "ai_Units (active_row t n r) = ir_units r"
  by (simp_all add: ai_key_def active_row_def incident_key_def)

lemma enrich_keys [simp]:
  "map ai_key (enrichActiveIncidents incs) = map ai_key incs"
  "map ai_IncidentDate (enrichActiveIncidents incs) = map ai_IncidentDate incs"
  "map ai_Units (enrichActiveIncidents incs) = map ai_Units incs"
  by (simp_all add: enrichActiveIncidents_def ai_key_def comp_def)

lemma authority_keys [simp]:
  "map ai_key (applyIncidentAuthority m incs) = map ai_key incs"
  "map ai_IncidentDate (applyIncidentAuthority m incs) = map ai_IncidentDate incs"
  "map ai_Units (applyIncidentAuthority m incs) = map ai_Units incs"
  by (simp_all add: applyIncidentAuthority_def ai_key_def comp_def)

lemma newest_first_set [simp]: "set (newest_first rs) = set rs"
  by (simp add: newest_first_def)

lemma newest_first_dates: "sorted_wrt (\<ge>) (map ir_incident_date (newest_first rs))"
proof -
  have "sorted (map (\<lambda>r. (- ir_incident_date r, ir_incident_id r)) (newest_first rs))"
    by (simp add: newest_first_def)
  then show ?thesis
    unfolding sorted_wrt_map by (rule sorted_wrt_mono_rel [rotated]) auto
qed

lemma newest_first_distinct: "distinct (map f rs) \<Longrightarrow> distinct (map f (newest_first rs))"
  by (simp add: newest_first_def distinct_map)

lemma active_phase:
  assumes "keys_ok d"
  shows "(src, iid) \<in> incident_key ` set (active_incidents d) \<longleftrightarrow> phase_of src d iid \<notin> {Unknown, Cleared}"
proof
  assume "(src, iid) \<in> incident_key ` set (active_incidents d)"
  then obtain r where r: "r \<in> set (incidents d)" "ir_cleared_at r = None" "ir_source r = src" "ir_incident_id r = iid"
    by (auto simp: active_incidents_def incident_key_def)
  then have "find_incident src iid d = Some r" using find_incident_row [OF assms r(1)] by simp
  then show "phase_of src d iid \<notin> {Unknown, Cleared}"
    using r(2) by (simp add: phase_of_def row_phase_def split: option.split)
next
  assume p: "phase_of src d iid \<notin> {Unknown, Cleared}"
  then obtain r where r: "find_incident src iid d = Some r" by (auto simp: phase_of_def split: option.splits)
  then have "ir_cleared_at r = None" using p by (auto simp: phase_of_def row_phase_def split: option.splits)
  then show "(src, iid) \<in> incident_key ` set (active_incidents d)"
    using find_incident_SomeD [OF r] by (force simp: active_incidents_def incident_key_def)
qed

lemma authority_known:
  "list_all (\<lambda>i. ai_IsLastKnown i = last_known m (ai_LastSeenAt i)) (applyIncidentAuthority m incs)"
  by (simp add: applyIncidentAuthority_def list_all_iff)

lemma cactus_keeps [simp]:
  "fm_SourceStatus (applyCactusMeta m i l scope) = fm_SourceStatus m"
  "SourceLastSuccessAt (applyCactusMeta m i l scope) = SourceLastSuccessAt m"
  by (simp_all add: applyCactusMeta_def)

lemma status_meta_status: "\<exists>s. fm_SourceStatus (status_meta m now cfg) = Some s"
  by (simp add: status_meta_def applySourceStatus_def split: prod.split)

lemma last_known_iff:
  assumes "fm_SourceStatus m = Some st"
  shows "last_known m t = (fm_SourceStatus m \<noteq> Some StatusOK \<or>
    (case SourceLastSuccessAt m of None \<Rightarrow> True | Some u \<Rightarrow> t < u))"
  using assms by (auto simp: last_known_def incidentIsLastKnown_def)

lemma build_feed_known:
  "list_all (\<lambda>i. ai_IsLastKnown i =
      (fm_SourceStatus (fe_Meta (build_active_feed cfg now ident l scope result)) \<noteq> Some StatusOK \<or>
       (case SourceLastSuccessAt (fe_Meta (build_active_feed cfg now ident l scope result)) of
          None \<Rightarrow> True | Some t \<Rightarrow> ai_LastSeenAt i < t)))
    (fe_Incidents (build_active_feed cfg now ident l scope result))"
proof -
  have "list_all (\<lambda>i. ai_IsLastKnown i =
      (fm_SourceStatus (status_meta m now cfg) \<noteq> Some StatusOK \<or>
       (case SourceLastSuccessAt (status_meta m now cfg) of None \<Rightarrow> True | Some t \<Rightarrow> ai_LastSeenAt i < t)))
    (applyIncidentAuthority (status_meta m now cfg) incs)" for m incs
  proof -
    obtain st where "fm_SourceStatus (status_meta m now cfg) = Some st" using status_meta_status by blast
    from last_known_iff [OF this] show ?thesis
      using authority_known [of "status_meta m now cfg" incs] by (simp only:)
  qed
  then show ?thesis by (simp only: build_active_feed_def Let_def ActiveFeed.select_convs cactus_keeps)
qed

lemma ListActive_unfiltered:
  "ListActiveIncidents no_faults pg now no_filter d =
     Inr \<lparr>ar_Meta = sourcePollMeta now SourceName d,
          ar_Incidents =
            map (\<lambda>r. active_row (success_of (ir_source r) d) (epoch_seconds (now - ir_last_seen_at r)) r)
              (newest_first (active_incidents d))\<rparr>"
  by (simp add: ListActiveIncidents_def activeStalenessMeta_def read_query_def no_faults_def)

lemma active_request:
  assumes "ap_faults env = no_faults" "parseActiveIncidentFilter (ap_text env) r = Inr no_filter"
  shows "writeActiveIncidents env scope r s =
    (writeJSON 200 (Body (ActivePayload
       (build_active_feed (ap_cfg env) (hr_now r) (IdentityFromContext r) (sv_limiter s) scope
          \<lparr>ar_Meta = sourcePollMeta (hr_now r) SourceName (sv_db s),
           ar_Incidents =
             map (\<lambda>q. active_row (success_of (ir_source q) (sv_db s)) (epoch_seconds (hr_now r - ir_last_seen_at q)) q)
               (newest_first (active_incidents (sv_db s)))\<rparr>))), s)"
  using assms by (simp add: writeActiveIncidents_def ListActive_unfiltered)

lemma feed_incidents_keys:
  "map ai_key (fe_Incidents (build_active_feed cfg now i l scope result)) = map ai_key (ar_Incidents result)"
  "map ai_IncidentDate (fe_Incidents (build_active_feed cfg now i l scope result)) = map ai_IncidentDate (ar_Incidents result)"
  "map ai_Units (fe_Incidents (build_active_feed cfg now i l scope result)) = map ai_Units (ar_Incidents result)"
  by (simp_all add: build_active_feed_def Let_def)

lemma feed_incidents_length:
  "length (fe_Incidents (build_active_feed cfg now i l scope result)) = length (ar_Incidents result)"
  using arg_cong [OF feed_incidents_keys(1) [of cfg now i l scope result], of length] by simp

text \<open>
  C7. The unfiltered active feed: it lists, once each and newest first, exactly the incidents that the
  lifecycle machine has as seen or missing; an incident is flagged as last known exactly when the status of
  the Phoenix source is not ok, that source never succeeded, or the incident was last seen before that
  source's last success, whichever source the incident itself comes from.
\<close>

theorem active_feed_shows:
  assumes "ap_faults env = no_faults" and "parseActiveIncidentFilter (ap_text env) r = Inr no_filter"
    and "keys_ok (sv_db s)"
  shows "\<exists>feed. writeActiveIncidents env scope r s = (writeJSON 200 (Body (ActivePayload feed)), s) \<and>
    distinct (map ai_key (fe_Incidents feed)) \<and>
    set (map ai_key (fe_Incidents feed)) = {(src, iid). phase_of src (sv_db s) iid \<notin> {Unknown, Cleared}} \<and>
    sorted_wrt (\<ge>) (map ai_IncidentDate (fe_Incidents feed)) \<and>
    list_all (\<lambda>i. ai_IsLastKnown i =
      (fm_SourceStatus (fe_Meta feed) \<noteq> Some StatusOK \<or>
       (case SourceLastSuccessAt (fe_Meta feed) of None \<Rightarrow> True | Some t \<Rightarrow> ai_LastSeenAt i < t)))
      (fe_Incidents feed)"
proof -
  let ?rows = "newest_first (active_incidents (sv_db s))"
  let ?result = "\<lparr>ar_Meta = sourcePollMeta (hr_now r) SourceName (sv_db s),
      ar_Incidents = map (\<lambda>q. active_row (success_of (ir_source q) (sv_db s))
        (epoch_seconds (hr_now r - ir_last_seen_at q)) q) ?rows\<rparr>"
  let ?feed = "build_active_feed (ap_cfg env) (hr_now r) (IdentityFromContext r) (sv_limiter s) scope ?result"
  have keys: "map ai_key (fe_Incidents ?feed) = map incident_key ?rows"
    "map ai_IncidentDate (fe_Incidents ?feed) = map ir_incident_date ?rows"
    by (simp_all add: feed_incidents_keys comp_def)
  have "distinct (map incident_key (active_incidents (sv_db s)))"
    unfolding active_incidents_def by (rule distinct_map_filter) (use assms(3) in \<open>simp add: keys_ok_def\<close>)
  then have "distinct (map ai_key (fe_Incidents ?feed))" by (simp add: keys newest_first_distinct)
  moreover have "set (map ai_key (fe_Incidents ?feed)) = {(src, iid). phase_of src (sv_db s) iid \<notin> {Unknown, Cleared}}"
    unfolding keys using active_phase [OF assms(3)] by auto
  moreover have "sorted_wrt (\<ge>) (map ai_IncidentDate (fe_Incidents ?feed))"
    unfolding keys by (rule newest_first_dates)
  moreover have "list_all (\<lambda>i. ai_IsLastKnown i =
      (fm_SourceStatus (fe_Meta ?feed) \<noteq> Some StatusOK \<or>
       (case SourceLastSuccessAt (fe_Meta ?feed) of None \<Rightarrow> True | Some t \<Rightarrow> ai_LastSeenAt i < t))) (fe_Incidents ?feed)"
    by (rule build_feed_known)
  ultimately show ?thesis using active_request [OF assms(1,2)] by blast
qed

section \<open>Statistics and feed\<close>

lemma add_count_sum: "sum_list (map snd (add_count l n m)) = sum_list (map snd m) + n"
  by (induction l n m rule: add_count.induct) auto

lemma add_count_labels: "fst ` set (add_count l n m) = insert l (fst ` set m)"
  by (induction l n m rule: add_count.induct) auto

lemma add_count_distinct: "distinct (map fst m) \<Longrightarrow> distinct (map fst (add_count l n m))"
  by (induction l n m rule: add_count.induct) (auto simp: add_count_labels)

lemma sum_categories_sum: "sum_list (map snd (sum_categories cs m)) = sum_list (map snd cs) + sum_list (map snd m)"
  by (induction cs m rule: sum_categories.induct) (auto simp: add_count_sum)

lemma sum_categories_distinct: "distinct (map fst m) \<Longrightarrow> distinct (map fst (sum_categories cs m))"
  by (induction cs m rule: sum_categories.induct) (auto simp: add_count_distinct)

lemma code_counts_sum: "sum_list (map snd (code_counts rows)) = int (length rows)"
proof -
  let ?codes = "map category_code rows"
  have "sum_list (map snd (code_counts rows)) =
      sum_list (map (\<lambda>c. int (count_list ?codes c)) (sort (remdups ?codes)))"
    by (simp add: code_counts_def comp_def count_list_eq_length_filter filter_map eq_commute)
  also have "\<dots> = (\<Sum>c \<in> set ?codes. int (count_list ?codes c))"
    by (subst sum_list_distinct_conv_sum_set) simp_all
  also have "\<dots> = int (length rows)"
    using sum_count_set [of ?codes "set ?codes"] by (simp flip: of_nat_sum)
  finally show ?thesis .
qed

lemma sum_list_mset_cong: "mset xs = mset ys \<Longrightarrow> sum_list xs = sum_list (ys :: int list)"
  unfolding sum_mset_sum_list [symmetric] by simp

text \<open>
  C36. The statistics agree with the feed: at one moment, with no fault, the count of active incidents and of
  their units are those of the unfiltered feed, and today's incidents by category add up to today's total,
  with no label twice.
\<close>

theorem stats_agree_with_feed:
  assumes "ap_faults env = no_faults" and "parseActiveIncidentFilter (ap_text env) r = Inr no_filter"
  shows "\<exists>st feed. statsHandler env r s = (writeJSON 200 (Body (StatsPayload st)), s) \<and>
    writeActiveIncidents env scope r s = (writeJSON 200 (Body (ActivePayload feed)), s) \<and>
    st_CurrentActiveCount st = int (length (fe_Incidents feed)) \<and>
    st_ActiveUnitsNow st = sum_list (map (\<lambda>i. int (length (ai_Units i))) (fe_Incidents feed)) \<and>
    sum_list (map snd (st_TodayByCategory st)) = st_TodayTotalIncidents st \<and>
    distinct (map fst (st_TodayByCategory st))"
proof -
  let ?d = "sv_db s"
  let ?rows = "newest_first (active_incidents ?d)"
  let ?result = "\<lparr>ar_Meta = sourcePollMeta (hr_now r) SourceName ?d,
      ar_Incidents = map (\<lambda>q. active_row (success_of (ir_source q) ?d)
        (epoch_seconds (hr_now r - ir_last_seen_at q)) q) ?rows\<rparr>"
  let ?feed = "build_active_feed (ap_cfg env) (hr_now r) (IdentityFromContext r) (sv_limiter s) scope ?result"
  obtain st where st: "statsHandler env r s = (writeJSON 200 (Body (StatsPayload st)), s)"
    "st_CurrentActiveCount st = int (length (active_incidents ?d))"
    "st_ActiveUnitsNow st = sum_list (map (\<lambda>q. int (length (ir_units q))) (active_incidents ?d))"
    "sum_list (map snd (st_TodayByCategory st)) = st_TodayTotalIncidents st"
    "distinct (map fst (st_TodayByCategory st))"
    using assms(1)
    by (simp add: statsHandler_def PublicStats_of_def read_query_def no_faults_def Let_def code_counts_sum
        sum_categories_sum sum_categories_distinct)
  have "length (fe_Incidents ?feed) = length (active_incidents ?d)"
    by (simp add: feed_incidents_length newest_first_def)
  moreover have "sum_list (map (\<lambda>i. int (length (ai_Units i))) (fe_Incidents ?feed)) =
      sum_list (map (\<lambda>q. int (length (ir_units q))) (active_incidents ?d))"
  proof -
    have "map (\<lambda>i. int (length (ai_Units i))) (fe_Incidents ?feed) = map (\<lambda>us. int (length us)) (map ai_Units (fe_Incidents ?feed))"
      by simp
    also have "\<dots> = map (\<lambda>q. int (length (ir_units q))) ?rows" by (simp add: feed_incidents_keys)
    finally have "mset (map (\<lambda>i. int (length (ai_Units i))) (fe_Incidents ?feed)) =
        mset (map (\<lambda>q. int (length (ir_units q))) (active_incidents ?d))"
      by (simp add: newest_first_def)
    then show ?thesis by (rule sum_list_mset_cong)
  qed
  ultimately have "st_CurrentActiveCount st = int (length (fe_Incidents ?feed))"
    "st_ActiveUnitsNow st = sum_list (map (\<lambda>i. int (length (ai_Units i))) (fe_Incidents ?feed))"
    using st(2,3) by (simp_all only:)
  then show ?thesis using st(1,4,5) active_request [OF assms, of scope s] by blast
qed

section \<open>Samples\<close>

definition sample_cfg :: ApiConfig where
  "sample_cfg =
     \<lparr>cfg_Sources = [SourceName], cfg_StaleAfter = 0, cfg_SourceDegradedAfter = 0, cfg_SourceDownAfter = 0,
      cfg_SourceDownFailures = 0, cfg_FrozenDownAfter = 0, cfg_DefaultParserVersion = [], cfg_AdminToken = ''s3cret, next'',
      cfg_AllowedOrigins = [], cfg_FireStationsURL = [], cfg_PaidTierEnabled = False\<rparr>"

definition sample_env :: api_env where
  "sample_env =
     \<lparr>ap_cfg = sample_cfg, ap_faults = no_faults,
      ap_postgis = \<lparr>pg_overlaps = (\<lambda>_ _ _. True), pg_dwithin = (\<lambda>_ _ _. True)\<rparr>, ap_text = plain_text\<rparr>"

definition sample_server :: "nat server" where
  "sample_server =
     \<lparr>sv_db = showing_db,
      sv_limiter = NewLimiter \<lparr>lc_FreeEvery = 0, lc_PaidEvery = 0, lc_ManualEvery = 0,
                               lc_AdminDispatchEvery = 0, lc_AdminDispatchBurst = 0\<rparr>\<rparr>"

lemma sample_unfiltered: "parseActiveIncidentFilter (ap_text sample_env) sample_request = Inr no_filter"
  by (simp add: parseActiveIncidentFilter_def sample_request_def values_Get_def no_filter_def optional_param_def)

lemma sample_env_faults: "ap_faults sample_env = no_faults"
  by (simp add: sample_env_def)

theorem active_feed_shows_witness:
  "\<exists>feed. writeActiveIncidents sample_env ScopeIncidentRead sample_request sample_server =
      (writeJSON 200 (Body (ActivePayload feed)), sample_server) \<and>
    (''phoenix-fire-mapserver'', ''F1'') \<in> set (map ai_key (fe_Incidents feed))"
proof -
  have k: "keys_ok (sv_db sample_server)" and p: "phase_of ''phoenix-fire-mapserver'' (sv_db sample_server) ''F1'' = Seen"
    using showing_db_facts(1,2) by (simp_all add: sample_server_def lifecycle_ok_def db_ok_def)
  obtain feed where f: "writeActiveIncidents sample_env ScopeIncidentRead sample_request sample_server =
      (writeJSON 200 (Body (ActivePayload feed)), sample_server)"
    "set (map ai_key (fe_Incidents feed)) = {(src, iid). phase_of src (sv_db sample_server) iid \<notin> {Unknown, Cleared}}"
    using active_feed_shows [OF sample_env_faults sample_unfiltered k, of ScopeIncidentRead] by blast
  moreover have "(''phoenix-fire-mapserver'', ''F1'') \<in> set (map ai_key (fe_Incidents feed))"
    unfolding f(2) by (simp add: p del: list.simps)
  ultimately show ?thesis by blast
qed

theorem stats_agree_with_feed_witness:
  "\<exists>st feed. statsHandler sample_env sample_request sample_server =
      (writeJSON 200 (Body (StatsPayload st)), sample_server) \<and>
    writeActiveIncidents sample_env ScopeIncidentRead sample_request sample_server =
      (writeJSON 200 (Body (ActivePayload feed)), sample_server) \<and>
    st_CurrentActiveCount st = int (length (fe_Incidents feed))"
  using stats_agree_with_feed [OF sample_env_faults sample_unfiltered, of sample_server ScopeIncidentRead] by blast

end
