(* ===== verification/Admin_API.thy ===== *)
theory Admin_API
  imports Feed_API
begin

text \<open>
  The admin endpoints (\<^verbatim>\<open>internal/api/admin_recent.go\<close>, \<^verbatim>\<open>admin_dispatch_transcripts.go\<close>): the bearer
  token, the recent incidents, the upload of radio transcripts with its validation and its rate limit, the
  recent transcripts and their health.

  The JSON decoder is an argument: it has a value exactly for a body that is one JSON text, with the members of
  an object under distinct keys, the last one of each key, as Go's map has them.
\<close>

section \<open>Tokens\<close>

definition adminRecentDefaultHours :: int where "adminRecentDefaultHours = 48"
definition adminRecentMaxHours :: int where "adminRecentMaxHours = 48"
definition adminRecentMaxItems :: int where "adminRecentMaxItems = 500"

definition parseAdminBearerToken :: "string \<Rightarrow> string option" where
  "parseAdminBearerToken header =
     (if \<not> HasPrefix header ''Bearer '' then None
      else (let token = TrimSpace (TrimPrefix header ''Bearer '') in if token = [] then None else Some token))"

definition adminTokenCandidates :: "string \<Rightarrow> string list" where
  "adminTokenCandidates configured = filter (\<lambda>p. p \<noteq> []) (map TrimSpace (Split configured (CHR '','')))"

definition validAdminToken :: "string \<Rightarrow> string \<Rightarrow> bool" where
  "validAdminToken token configured \<longleftrightarrow>
     TrimSpace token \<noteq> [] \<and> list_ex (\<lambda>c. token = c) (adminTokenCandidates configured)"

definition validAdminBearer :: "string \<Rightarrow> string \<Rightarrow> bool" where
  "validAdminBearer header configured =
     (case parseAdminBearerToken header of None \<Rightarrow> False | Some token \<Rightarrow> validAdminToken token configured)"

definition authorized :: "api_env \<Rightarrow> http_request \<Rightarrow> bool" where
  "authorized env r = validAdminBearer (hr_header r ''Authorization'') (cfg_AdminToken (ap_cfg env))"

section \<open>Recent incidents\<close>

definition parseAdminRecentHours :: "string \<Rightarrow> error + int" where
  "parseAdminRecentHours raw =
     (if TrimSpace raw = [] then Inr adminRecentDefaultHours
      else
        (case Atoi raw of
           Some hours \<Rightarrow>
             if hours < 1 \<or> hours > adminRecentMaxHours
             then Inl (''hours must be an integer from 1 through '' @ Itoa adminRecentMaxHours) else Inr hours
         | None \<Rightarrow> Inl (''hours must be an integer from 1 through '' @ Itoa adminRecentMaxHours)))"

definition adminRecentIncidentsHandler :: "api_env \<Rightarrow> 'b feed_handler" where
  "adminRecentIncidentsHandler env r s =
     (if \<not> authorized env r then (writeError 401 ''invalid admin token'', s)
      else
        (case parseAdminRecentHours (values_Get (hr_values r) ''hours'') of
           Inl e \<Rightarrow> (writeError 400 e, s)
         | Inr hours \<Rightarrow>
             (case ListRecentIncidents (ap_faults env) (hr_now r)
                     \<lparr>rf_Hours = hours, rf_Limit = adminRecentMaxItems\<rparr> (sv_db s) of
                Inl e \<Rightarrow> (writeError 500 ''query recent incidents'', s)
              | Inr result \<Rightarrow>
                  (with_headers [(''X-Total-Count'', Itoa (rr_TotalCount result)),
                                 (''X-Returned-Count'', Itoa (int (length (rr_Incidents result))))]
                     (writeJSON 200 (Body (RecentPayload (enrichActiveIncidents (rr_Incidents result))))), s))))"

section \<open>The body of an upload\<close>

datatype json =
    JNull
  | JBool bool
  | JNumber string
  | JString string
  | JArr "json list"
  | JObj "(string \<times> json) list"

type_synonym jobject = "(string \<times> json) list"

definition dispatchTranscriptMaxBodyBytes :: int where "dispatchTranscriptMaxBodyBytes = 256 * 1024"
definition dispatchTranscriptMaxTextBytes :: int where "dispatchTranscriptMaxTextBytes = 16 * 1024"
definition dispatchTranscriptRecentLimit :: int where "dispatchTranscriptRecentLimit = 50"
definition dispatchTranscriptStaleSeconds :: int where "dispatchTranscriptStaleSeconds = 600"

definition dispatchTranscriptMinCapturedAt :: time where
  "dispatchTranscriptMinCapturedAt = DateUTC 2024 1 1 0 0 0"

definition objectField :: "jobject \<Rightarrow> string \<Rightarrow> jobject" where
  "objectField payload key = (case map_of payload key of Some (JObj m) \<Rightarrow> m | _ \<Rightarrow> [])"

definition stringField :: "jobject \<Rightarrow> string \<Rightarrow> string" where
  "stringField payload key = (case map_of payload key of Some (JString v) \<Rightarrow> v | _ \<Rightarrow> [])"

definition boolField :: "jobject \<Rightarrow> string \<Rightarrow> bool" where
  "boolField payload key = (case map_of payload key of Some (JBool b) \<Rightarrow> b | _ \<Rightarrow> False)"

definition numberField :: "text_library \<Rightarrow> jobject \<Rightarrow> string \<Rightarrow> float64 option" where
  "numberField lib payload key =
     (case map_of payload key of Some (JNumber n) \<Rightarrow> ParseFloat (other_float lib) n | _ \<Rightarrow> None)"

definition stringSliceField :: "jobject \<Rightarrow> string \<Rightarrow> string list" where
  "stringSliceField payload key =
     (case map_of payload key of
        Some (JArr vs) \<Rightarrow> List.map_filter (\<lambda>v. case v of JString t \<Rightarrow> Some t | _ \<Rightarrow> None) vs
      | _ \<Rightarrow> [])"

definition wav_name :: "string \<Rightarrow> bool" where
  "wav_name s \<longleftrightarrow>
     (let stem = take (length s - 4) s in suffix ''.wav'' s \<and> stem \<noteq> [] \<and> list_all re_word stem)"

definition validateDispatchWavFilename :: "string \<Rightarrow> error option" where
  "validateDispatchWavFilename filename =
     (if Contains filename ''..'' then Some ''wav_filename must not contain ..''
      else if ContainsAny filename [CHR ''/'', CHR 0x5C] then Some ''wav_filename must not contain path separators''
      else if \<not> wav_name filename then Some (''wav_filename must match ^[A-Za-z0-9_]+'' @ [CHR 0x5C] @ ''.wav$'')
      else None)"

definition validateDispatchCapturedAt :: "time \<Rightarrow> time \<Rightarrow> error option" where
  "validateDispatchCapturedAt capturedAt now =
     (if capturedAt < dispatchTranscriptMinCapturedAt
      then Some ''captured_at must be on or after 2024-01-01T00:00:00Z''
      else if capturedAt > now + 30 * minute
      then Some ''captured_at must not be more than 30 minutes in the future''
      else None)"

text \<open>Length in bytes: the characters from U+0080 on take two in UTF-8.\<close>

definition byte_length :: "string \<Rightarrow> int" where
  "byte_length s = sum_list (map (\<lambda>c. if code_of c < 128 then 1 else 2) s)"

definition decode_payload :: "(string \<Rightarrow> json option) \<Rightarrow> string \<Rightarrow> jobject option" where
  "decode_payload parse body =
     (case parse body of Some JNull \<Rightarrow> Some [] | Some (JObj m) \<Rightarrow> Some m | _ \<Rightarrow> None)"

definition payload_input :: "text_library \<Rightarrow> jobject \<Rightarrow> string \<Rightarrow> time \<Rightarrow> string \<Rightarrow> DispatchTranscriptInsert" where
  "payload_input lib payload wavFilename capturedAt body =
     (let primary = objectField payload ''primary''; secondary = objectField payload ''secondary'';
          verification = objectField payload ''verification'';
          domainKeywords = objectField verification ''domain_keywords''
      in \<lparr>di_WavFilename = wavFilename, di_CapturedAt = capturedAt,
          di_AudioDurationSeconds = numberField lib payload ''audio_duration_s'',
          di_DisplayText = stringField payload ''display_text'',
          di_PrimaryText = stringField primary ''text'', di_SecondaryText = stringField secondary ''text'',
          di_PrimaryModel = stringField primary ''model'', di_SecondaryModel = stringField secondary ''model'',
          di_PrimaryAvgLogprob = numberField lib primary ''avg_logprob'',
          di_VerificationConfidence = numberField lib verification ''confidence'',
          di_VerificationAgreement = numberField lib verification ''agreement'',
          di_ReviewRecommended = boolField verification ''review_recommended'',
          di_DomainKeywordMatches = stringSliceField domainKeywords ''matches'',
          di_DomainKeywordRatio = numberField lib domainKeywords ''ratio'',
          di_RawPayload = body\<rparr>)"

definition dispatchTranscriptInputFromBody ::
  "text_library \<Rightarrow> (string \<Rightarrow> json option) \<Rightarrow> string \<Rightarrow> time \<Rightarrow> error + DispatchTranscriptInsert" where
  "dispatchTranscriptInputFromBody lib parse body now =
     (case decode_payload parse body of
        None \<Rightarrow> Inl ''malformed json''
      | Some payload \<Rightarrow>
          (let wavFilename = TrimSpace (stringField payload ''wav_filename'')
           in if wavFilename = [] then Inl ''wav_filename is required''
              else
                (case validateDispatchWavFilename wavFilename of
                   Some e \<Rightarrow> Inl e
                 | None \<Rightarrow>
                     (let capturedAtRaw = TrimSpace (stringField payload ''captured_at'')
                      in if capturedAtRaw = [] then Inl ''captured_at is required''
                         else
                           (case ParseRFC3339 (other_time lib) capturedAtRaw of
                              None \<Rightarrow> Inl ''captured_at must be RFC3339''
                            | Some capturedAt \<Rightarrow>
                                (case validateDispatchCapturedAt capturedAt now of
                                   Some e \<Rightarrow> Inl e
                                 | None \<Rightarrow>
                                     if byte_length (stringField payload ''display_text'') > dispatchTranscriptMaxTextBytes
                                     then Inl (''display_text must be '' @ Itoa dispatchTranscriptMaxTextBytes @ '' bytes or less'')
                                     else Inr (payload_input lib payload wavFilename capturedAt body)))))))"

definition isJSONContentType :: "string \<Rightarrow> bool" where
  "isJSONContentType contentType =
     (if TrimSpace contentType = [] then True
      else ToLower (TrimSpace (hd (Split contentType (CHR '';'')))) = ''application/json'')"

text \<open>The body, or the refusal.\<close>

definition readLimitedJSONBody :: "http_request \<Rightarrow> int \<times> string + string" where
  "readLimitedJSONBody r =
     (case hr_body r of
        (body, err) \<Rightarrow>
          if int (length body) > dispatchTranscriptMaxBodyBytes then Inl (413, ''request body too large'')
          else (case err of Some e \<Rightarrow> Inl (400, ''read request body'') | None \<Rightarrow> Inr body))"

section \<open>The transcript endpoints\<close>

definition adminDispatchTranscriptHandler :: "api_env \<Rightarrow> (string \<Rightarrow> json option) \<Rightarrow> 'b feed_handler" where
  "adminDispatchTranscriptHandler env parse r s =
     (if \<not> authorized env r then (writeError 401 ''invalid admin token'', s)
      else if \<not> isJSONContentType (hr_header r ''Content-Type'')
      then (writeError 400 ''content-type must be application/json'', s)
      else
        (case readLimitedJSONBody r of
           Inl (status, e) \<Rightarrow> (writeError status e, s)
         | Inr body \<Rightarrow>
             (case dispatchTranscriptInputFromBody (ap_text env) parse body (hr_now r) of
                Inl e \<Rightarrow> (writeError 400 e, s)
              | Inr input \<Rightarrow>
                  (case InsertDispatchTranscript (ap_faults env) (hr_now r) input (sv_db s) of
                     (Inl e, d1) \<Rightarrow> (writeError 500 ''insert dispatch transcript'', s\<lparr>sv_db := d1\<rparr>)
                   | (Inr (i, duplicate), d1) \<Rightarrow>
                       (writeJSON 200 (Body (TranscriptAck i duplicate)), s\<lparr>sv_db := d1\<rparr>)))))"

definition adminDispatchRecentTranscriptsHandler :: "api_env \<Rightarrow> 'b feed_handler" where
  "adminDispatchRecentTranscriptsHandler env r s =
     (if \<not> authorized env r then (writeError 401 ''invalid admin token'', s)
      else
        (case ListRecentDispatchTranscripts (ap_faults env) dispatchTranscriptRecentLimit (sv_db s) of
           Inl e \<Rightarrow> (writeError 500 ''query dispatch transcripts'', s)
         | Inr rows \<Rightarrow> (writeJSON 200 (Body (TranscriptsPayload rows)), s)))"

definition buildDispatchHealthResponse :: "DispatchTranscriptHealth \<Rightarrow> time \<Rightarrow> dispatchHealthResponse" where
  "buildDispatchHealthResponse h now =
     (let age = map_option (\<lambda>t. max 0 (whole_seconds (Sub now t))) (dh_LastReceivedAt h)
      in \<lparr>dr_LastReceivedAt = dh_LastReceivedAt h, dr_LastReceivedAgeSeconds = age,
          dr_RowsLastHour = dh_RowsLastHour h, dr_RowsLast24h = dh_RowsLast24h h,
          dr_HighConfidenceLastHour = dh_HighConfidenceLastHour h,
          dr_LowConfidenceLastHour = dh_LowConfidenceLastHour h,
          dr_ReviewRecommendedLastHour = dh_ReviewRecommendedLastHour h,
          dr_ParserLastBatchAt = dh_ParserLastBatchAt h,
          dr_ParserRowsPromotedLastHour = dh_ParserRowsPromotedLastHour h,
          dr_ParserRowsGateFailedLastHour = dh_ParserRowsGateFailedLastHour h,
          dr_ParserRowsGeocodeFailedLastHour = dh_ParserRowsGeocodeFailedLastHour h,
          dr_ParserBacklogUnparsed = dh_ParserBacklogUnparsed h,
          dr_Status =
            (case age of
               None \<Rightarrow> ''stale''
             | Some a \<Rightarrow> if a \<le> dispatchTranscriptStaleSeconds then ''ok'' else ''stale'')\<rparr>)"

definition adminDispatchHealthHandler :: "api_env \<Rightarrow> 'b feed_handler" where
  "adminDispatchHealthHandler env r s =
     (if \<not> authorized env r then (writeError 401 ''invalid admin token'', s)
      else
        (case DispatchTranscriptHealth_of (ap_faults env) (hr_now r) (sv_db s) of
           Inl e \<Rightarrow> (writeError 500 ''query dispatch transcript health'', s)
         | Inr h \<Rightarrow> (writeJSON 200 (Body (DispatchHealthPayload (buildDispatchHealthResponse h (hr_now r)))), s)))"

section \<open>Middlewares of the transcript endpoints\<close>

definition adminDispatchRateLimitMiddleware ::
  "'b rate_library \<Rightarrow> (string \<Rightarrow> string) \<Rightarrow> string \<Rightarrow> 'b feed_handler \<Rightarrow> 'b feed_handler" where
  "adminDispatchRateLimitMiddleware rl HashKey configured nxt r s =
     (case parseAdminBearerToken (hr_header r ''Authorization'') of
        None \<Rightarrow> (writeError 401 ''invalid admin token'', s)
      | Some token \<Rightarrow>
          if \<not> validAdminToken token configured then (writeError 401 ''invalid admin token'', s)
          else
            (let identity = \<lparr>id_Tier = TierPaid, id_KeyID = 0, id_KeyHash = HashKey token,
                             id_ClientID = requestClientID r, id_Anonymous = False\<rparr>;
                 (decision, l1) = Allow rl (hr_now r) identity ScopeAdminDispatch (sv_limiter s);
                 s1 = s\<lparr>sv_limiter := l1\<rparr>
             in if \<not> dc_Allowed decision
                then (with_headers [(''Retry-After'', Itoa (max 1 (ceil_seconds (dc_RetryAfter decision))))]
                        (writeError 429 ''rate limit exceeded''), s1)
                else nxt r s1))"

definition dispatchRequestID :: "http_request \<Rightarrow> string" where
  "dispatchRequestID r =
     (let given = TrimSpace (hr_header r ''X-Request-ID'')
      in if given \<noteq> [] then given else ''dispatch-'' @ Itoa (hr_now r))"

definition adminDispatchAccessLogMiddleware :: "'b feed_handler \<Rightarrow> 'b feed_handler" where
  "adminDispatchAccessLogMiddleware nxt r s =
     apfst (with_headers [(''X-Request-ID'', dispatchRequestID r)]) (nxt r s)"

section \<open>Tokens\<close>

lemma validAdminToken_iff: "validAdminToken token configured \<longleftrightarrow> TrimSpace token \<noteq> [] \<and> token \<in> set (adminTokenCandidates configured)"
  by (auto simp: validAdminToken_def list_ex_iff)

text \<open>Without a configured token nobody is authorized.\<close>

lemma no_token_no_access: "adminTokenCandidates configured = [] \<Longrightarrow> \<not> validAdminBearer header configured"
  by (simp add: validAdminBearer_def validAdminToken_iff split: option.split)

section \<open>Uploads\<close>

definition upload_ok :: "time \<Rightarrow> DispatchTranscriptInsert \<Rightarrow> bool" where
  "upload_ok now input \<longleftrightarrow>
     wav_name (di_WavFilename input) \<and>
     dispatchTranscriptMinCapturedAt \<le> di_CapturedAt input \<and> di_CapturedAt input \<le> now + 30 * minute \<and>
     byte_length (di_DisplayText input) \<le> dispatchTranscriptMaxTextBytes \<and>
     int (length (di_RawPayload input)) \<le> dispatchTranscriptMaxBodyBytes"

lemma payload_input_fields [simp]:
  "di_WavFilename (payload_input lib p w t b) = w" "di_CapturedAt (payload_input lib p w t b) = t"
  "di_DisplayText (payload_input lib p w t b) = stringField p ''display_text''"
  "di_RawPayload (payload_input lib p w t b) = b"
  by (simp_all add: payload_input_def Let_def)

lemma input_ok:
  assumes "dispatchTranscriptInputFromBody lib parse body now = Inr input"
    "int (length body) \<le> dispatchTranscriptMaxBodyBytes"
  shows "upload_ok now input"
proof -
  have "\<exists>p w t. validateDispatchWavFilename w = None \<and> validateDispatchCapturedAt t now = None \<and>
    byte_length (stringField p ''display_text'') \<le> dispatchTranscriptMaxTextBytes \<and>
    input = payload_input lib p w t body"
    using assms(1)
    by (force simp: dispatchTranscriptInputFromBody_def Let_def not_less split: option.splits if_splits)
  then obtain p w t where "validateDispatchWavFilename w = None" "validateDispatchCapturedAt t now = None"
    "byte_length (stringField p ''display_text'') \<le> dispatchTranscriptMaxTextBytes"
    "input = payload_input lib p w t body"
    by blast
  then show ?thesis
    using assms(2)
    by (auto simp: upload_ok_def validateDispatchWavFilename_def validateDispatchCapturedAt_def split: if_splits)
qed

lemma new_transcript_fields:
  "new_transcript i now input = Inr t \<Longrightarrow>
   dt_wav_filename t = di_WavFilename input \<and> dt_captured_at t = di_CapturedAt input \<and>
   dt_display_text t = di_DisplayText input \<and> dt_parsed_at t = None \<and> dt_geocode_attempts t = None \<and>
   dt_id t = i \<and> dt_received_at t = now"
  by (auto simp: new_transcript_def split: sum.splits)

lemma InsertDispatchTranscript_row:
  assumes "InsertDispatchTranscript fault now input d = (Inr (i, duplicate), d')"
  shows "if duplicate then d' = d
    else \<exists>t. new_transcript i now input = Inr t \<and>
      d' = d\<lparr>dispatch_transcripts := dispatch_transcripts d @ [t], seq_transcript := seq_transcript d + 1\<rparr>"
  using assms by (auto simp: InsertDispatchTranscript_def split: option.splits sum.splits)

lemma InsertDispatchTranscript_error: "InsertDispatchTranscript fault now input d = (Inl e, d') \<Longrightarrow> d' = d"
  by (auto simp: InsertDispatchTranscript_def split: option.splits sum.splits)

lemma writeError_not_ack [simp]: "writeError st e \<noteq> writeJSON 200 (Body x)"
  by (simp add: writeError_def writeJSON_def)

lemma writeJSON_inject [simp]: "writeJSON st b = writeJSON st' b' \<longleftrightarrow> st = st' \<and> b = b'"
  by (simp add: writeJSON_def)

lemma upload_steps:
  assumes "adminDispatchTranscriptHandler env parse r s = (writeJSON 200 (Body (TranscriptAck i duplicate)), s')"
  obtains body input d1 where "authorized env r" "readLimitedJSONBody r = Inr body"
    "dispatchTranscriptInputFromBody (ap_text env) parse body (hr_now r) = Inr input"
    "InsertDispatchTranscript (ap_faults env) (hr_now r) input (sv_db s) = (Inr (i, duplicate), d1)"
    "s' = s\<lparr>sv_db := d1\<rparr>"
  using assms by (auto simp: adminDispatchTranscriptHandler_def split: if_splits sum.splits prod.splits)

text \<open>
  C24. What an acknowledged upload guarantees: the request carried a configured token; the file name, the
  capture time and the sizes are within their bounds; and unless it was a duplicate, exactly one transcript was
  added, under the acknowledged id, unparsed, so that it waits in the queue of the dispatch parser.
\<close>

theorem upload_enters_queue:
  assumes "adminDispatchTranscriptHandler env parse r s = (writeJSON 200 (Body (TranscriptAck i duplicate)), s')"
  shows "authorized env r \<and>
    (\<exists>input. upload_ok (hr_now r) input \<and>
      (if duplicate then s' = s
       else \<exists>t. dispatch_transcripts (sv_db s') = dispatch_transcripts (sv_db s) @ [t] \<and> dt_id t = i \<and>
          dt_parsed_at t = None \<and> dt_wav_filename t = di_WavFilename input \<and>
          dt_display_text t = di_DisplayText input \<and> dt_captured_at t = di_CapturedAt input))"
proof -
  obtain body input d1 where u: "authorized env r" "readLimitedJSONBody r = Inr body"
    "dispatchTranscriptInputFromBody (ap_text env) parse body (hr_now r) = Inr input"
    "InsertDispatchTranscript (ap_faults env) (hr_now r) input (sv_db s) = (Inr (i, duplicate), d1)"
    "s' = s\<lparr>sv_db := d1\<rparr>"
    by (rule upload_steps [OF assms])
  have "int (length body) \<le> dispatchTranscriptMaxBodyBytes"
    using u(2) by (auto simp: readLimitedJSONBody_def split: prod.splits if_splits option.splits)
  with u(3) have "upload_ok (hr_now r) input" by (rule input_ok)
  moreover have "if duplicate then s' = s
       else \<exists>t. dispatch_transcripts (sv_db s') = dispatch_transcripts (sv_db s) @ [t] \<and> dt_id t = i \<and>
          dt_parsed_at t = None \<and> dt_wav_filename t = di_WavFilename input \<and>
          dt_display_text t = di_DisplayText input \<and> dt_captured_at t = di_CapturedAt input"
    using InsertDispatchTranscript_row [OF u(4)] new_transcript_fields u(5) by (auto split: if_splits)
  ultimately show ?thesis using u(1) by blast
qed

section \<open>Samples\<close>

definition sample_payload :: "json" where
  "sample_payload =
     JObj [(''wav_filename'', JString ''a_1.wav''), (''captured_at'', JString ''2024-06-01T00:00:00Z''),
           (''display_text'', JString ''CDEC 5''), (''verification'', JObj [(''confidence'', JNumber ''0.9'')])]"

definition upload_request :: http_request where
  "upload_request =
     sample_request\<lparr>hr_method := ''POST'', hr_path := [''v1'', ''admin'', ''dispatch'', ''transcript''],
       hr_header := (\<lambda>h. if h = ''Authorization'' then ''Bearer next'' else []), hr_body := (''{}'', None),
       hr_now := DateUTC 2024 6 1 0 10 0\<rparr>"

definition quiet_server :: "nat server" where
  "quiet_server = sample_server\<lparr>sv_db := empty_db\<rparr>"

lemma sample_upload_ack:
  "\<exists>s'. adminDispatchTranscriptHandler sample_env (\<lambda>_. Some sample_payload) upload_request quiet_server =
     (writeJSON 200 (Body (TranscriptAck 1 False)), s')"
proof -
  have "fst (adminDispatchTranscriptHandler sample_env (\<lambda>_. Some sample_payload) upload_request quiet_server) =
     writeJSON 200 (Body (TranscriptAck 1 False))"
    by code_simp
  then show ?thesis by (metis prod.collapse)
qed

theorem upload_enters_queue_witness:
  "\<exists>s' t. adminDispatchTranscriptHandler sample_env (\<lambda>_. Some sample_payload) upload_request quiet_server =
      (writeJSON 200 (Body (TranscriptAck 1 False)), s') \<and>
    dispatch_transcripts (sv_db s') = dispatch_transcripts (sv_db quiet_server) @ [t] \<and> dt_parsed_at t = None"
proof -
  obtain s' where s': "adminDispatchTranscriptHandler sample_env (\<lambda>_. Some sample_payload) upload_request quiet_server =
     (writeJSON 200 (Body (TranscriptAck 1 False)), s')"
    using sample_upload_ack by blast
  from upload_enters_queue [OF s'] s' show ?thesis by auto
qed

end
