(* ===== verification/OpenAPI.thy ===== *)
theory OpenAPI
  imports Feed_API
begin

text \<open>
  The OpenAPI document the API serves (\<^verbatim>\<open>internal/api/public.go\<close>), as a constant. Theory Router compares it
  with the routes.
\<close>

definition stalenessMetaSchema :: doc where
  "stalenessMetaSchema =
     DObj [
       (''type'', DStr ''object''),
       (''properties'', DObj [
           (''source_status'', DObj [
               (''type'', DStr ''string''),
               (''enum'', DArr [DStr ''ok'', DStr ''degraded'', DStr ''down''])]),
           (''source_status_reason'', DObj [
               (''type'', DStr ''string''),
               (''enum'', DArr [
                   DStr ''healthy'',
                   DStr ''recent_failures'',
                   DStr ''success_overdue'',
                   DStr ''contract_invalid'',
                   DStr ''snapshot_incomplete'',
                   DStr ''payload_frozen'',
                   DStr ''never_succeeded''])]),
           (''source_last_attempt_at'', DObj [
               (''type'', DStr ''string''),
               (''format'', DStr ''date-time''),
               (''nullable'', DFlag True)]),
           (''source_consecutive_failures'', DObj [(''type'', DStr ''integer''), (''minimum'', DNum 0)]),
           (''source_last_success_at'', DObj [
               (''type'', DStr ''string''),
               (''format'', DStr ''date-time''),
               (''nullable'', DFlag True),
               (''description'', DStr ''Timestamp of the latest authoritative upstream snapshot.'')]),
           (''data_age_seconds'', DObj [
               (''type'', DStr ''integer''),
               (''nullable'', DFlag True),
               (''description'', DStr ''Seconds since the latest authoritative upstream snapshot.'')]),
           (''newest_incident_at'', DObj [
               (''type'', DStr ''string''),
               (''format'', DStr ''date-time''),
               (''nullable'', DFlag True),
               (''description'', DStr ''UTC timestamp of the newest incident_date in this response.'')]),
           (''data_staleness_seconds'', DObj [
               (''type'', DStr ''integer''),
               (''nullable'', DFlag True),
               (''description'', DStr ''Server-computed seconds between response time and newest_incident_at.'')]),
           (''parser_version'', DObj [(''type'', DStr ''string'')]),
           (''disclaimer'', DObj [(''type'', DStr ''string'')]),
           (''attribution'', DObj [(''type'', DStr ''string'')]),
           (''refresh_min_seconds'', DObj [(''type'', DStr ''integer'')]),
           (''tier'', DObj [(''type'', DStr ''string'')])])]"

definition activeFeedResponses :: doc where
  "activeFeedResponses =
     DObj [
       (''200'', DObj [
           (''description'', DStr ''Active incident feed response''),
           (''content'', DObj [
               (''application/json'', DObj [
                   (''schema'', DObj [
                       (''type'', DStr ''object''),
                       (''properties'', DObj [
                           (''meta'', DObj [(''$ref'', DStr ''#/components/schemas/StalenessMeta'')]),
                           (''incidents'', DObj [
                               (''type'', DStr ''array''),
                               (''items'', DObj [(''type'', DStr ''object'')])])])])])])])]"

definition openAPIDocument :: doc where
  "openAPIDocument =
     DObj [
       (''openapi'', DStr ''3.0.3''),
       (''info'', DObj [
           (''title'', DStr ''Cactus Watch Feed API''),
           (''version'', DStr ''v1'')]),
       (''paths'', DObj [
           (''/'', DObj [(''get'', DObj [(''summary'', DStr ''API identifier'')])]),
           (''/v1/incidents/active'', DObj [
               (''get'', DObj [
                   (''summary'', DStr ''List active incidents''),
                   (''parameters'', DArr [
                       DObj [
                         (''name'', DStr ''bbox''),
                         (''in'', DStr ''query''),
                         (''schema'', DObj [(''type'', DStr ''string'')])],
                       DObj [
                         (''name'', DStr ''lat''),
                         (''in'', DStr ''query''),
                         (''schema'', DObj [(''type'', DStr ''number'')])],
                       DObj [
                         (''name'', DStr ''lon''),
                         (''in'', DStr ''query''),
                         (''schema'', DObj [(''type'', DStr ''number'')])],
                       DObj [
                         (''name'', DStr ''radius_meters''),
                         (''in'', DStr ''query''),
                         (''schema'', DObj [(''type'', DStr ''number'')])],
                       DObj [
                         (''name'', DStr ''since''),
                         (''in'', DStr ''query''),
                         (''schema'', DObj [(''type'', DStr ''string''), (''format'', DStr ''date-time'')])],
                       DObj [
                         (''name'', DStr ''until''),
                         (''in'', DStr ''query''),
                         (''schema'', DObj [(''type'', DStr ''string''), (''format'', DStr ''date-time'')])]]),
                   (''responses'', activeFeedResponses)])]),
           (''/v1/incidents/refresh'', DObj [
               (''post'', DObj [
                   (''summary'', DStr ''Manual active incident refresh read''),
                   (''responses'', activeFeedResponses)])]),
           (''/v1/fire-stations'', DObj [
               (''get'', DObj [(''summary'', DStr ''List Phoenix Fire station overlay features'')])]),
           (''/v1/incidents/{source}/{incident_id}'', DObj [
               (''get'', DObj [
                   (''summary'', DStr ''Get incident detail, unit history, and events''),
                   (''responses'', DObj [
                       (''200'', DObj [
                           (''description'', DStr ''Incident detail response''),
                           (''content'', DObj [
                               (''application/json'', DObj [
                                   (''schema'', DObj [
                                       (''type'', DStr ''object''),
                                       (''properties'', DObj [
                                           (''meta'', DObj [(''$ref'', DStr ''#/components/schemas/StalenessMeta'')])])])])])])])])]),
           (''/v1/incidents/history'', DObj [(''get'', DObj [(''summary'', DStr ''Paid history placeholder'')])]),
           (''/api/admin/incidents/recent'', DObj [
               (''get'', DObj [
                   (''summary'', DStr ''Admin-only recent incident history''),
                   (''parameters'', DArr [
                       DObj [
                         (''name'', DStr ''hours''),
                         (''in'', DStr ''query''),
                         (''schema'', DObj [(''type'', DStr ''integer'')])]])])]),
           (''/v1/admin/dispatch/transcript'', DObj [
               (''post'', DObj [
                   (''summary'', DStr ''Admin-only SDR dispatch transcript upload''),
                   (''requestBody'', DObj [
                       (''required'', DFlag True),
                       (''content'', DObj [
                           (''application/json'', DObj [
                               (''schema'', DObj [
                                   (''type'', DStr ''object''),
                                   (''required'', DArr [DStr ''wav_filename'', DStr ''captured_at'']),
                                   (''additionalProperties'', DFlag True),
                                   (''properties'', DObj [
                                       (''wav_filename'', DObj [(''type'', DStr ''string'')]),
                                       (''captured_at'', DObj [(''type'', DStr ''string''), (''format'', DStr ''date-time'')])])])])])]),
                   (''responses'', DObj [
                       (''200'', DObj [(''description'', DStr ''Transcript accepted or already present'')]),
                       (''400'', DObj [(''description'', DStr ''Malformed request'')]),
                       (''401'', DObj [(''description'', DStr ''Invalid admin token'')]),
                       (''413'', DObj [(''description'', DStr ''Body exceeds 256 KiB'')]),
                       (''429'', DObj [(''description'', DStr ''Upload rate limit exceeded'')])])])]),
           (''/v1/admin/dispatch/transcripts/recent'', DObj [
               (''get'', DObj [
                   (''summary'', DStr ''Admin-only recent SDR dispatch transcripts''),
                   (''responses'', DObj [
                       (''200'', DObj [(''description'', DStr ''Newest 50 dispatch transcripts'')]),
                       (''401'', DObj [(''description'', DStr ''Invalid admin token'')])])])]),
           (''/v1/admin/dispatch/health'', DObj [
               (''get'', DObj [
                   (''summary'', DStr ''Admin-only SDR dispatch transcript ingestion health''),
                   (''responses'', DObj [
                       (''200'', DObj [
                           (''description'', DStr ''Dispatch transcript freshness and volume counters'')]),
                       (''401'', DObj [(''description'', DStr ''Invalid admin token'')])])])]),
           (''/v1/stats'', DObj [(''get'', DObj [(''summary'', DStr ''Public live feed statistics'')])]),
           (''/v1/codes'', DObj [
               (''get'', DObj [(''summary'', DStr ''Phoenix incident code dictionary'')])]),
           (''/v1/openapi.json'', DObj [(''get'', DObj [(''summary'', DStr ''OpenAPI document'')])]),
           (''/v1/health'', DObj [(''get'', DObj [(''summary'', DStr ''Service health'')])])]),
       (''components'', DObj [(''schemas'', DObj [(''StalenessMeta'', stalenessMetaSchema)])])]"

definition openAPIHandler :: "'b feed_handler" where
  "openAPIHandler r s = (writeJSON 200 (Body (DocPayload openAPIDocument)), s)"

section \<open>Looking into a document\<close>

fun members :: "doc \<Rightarrow> (string \<times> doc) list" where
  "members (DObj ms) = ms"
| "members _ = []"

definition member :: "string \<Rightarrow> doc \<Rightarrow> doc" where
  "member k d = (case map_of (members d) k of None \<Rightarrow> DObj [] | Some v \<Rightarrow> v)"

fun strings :: "doc \<Rightarrow> string list" where
  "strings (DArr ds) = concat (map (\<lambda>d. case d of DStr t \<Rightarrow> [t] | _ \<Rightarrow> []) ds)"
| "strings _ = []"

text \<open>Every path of the document with each of its methods.\<close>

definition documented :: "(string \<times> string) list" where
  "documented =
     concat (map (\<lambda>(p, d). map (\<lambda>(m, _). (m, p)) (members d)) (members (member ''paths'' openAPIDocument)))"

definition documented_enum :: "string \<Rightarrow> string list" where
  "documented_enum fld =
     strings (member ''enum'' (member fld (member ''properties'' stalenessMetaSchema)))"

definition documented_codes :: "string \<Rightarrow> string \<Rightarrow> string list" where
  "documented_codes path method =
     map fst (members (member ''responses'' (member method (member path (member ''paths'' openAPIDocument)))))"

end
