(* ===== verification/Router.thy ===== *)
theory Router
  imports Admin_API OpenAPI "HOL-Library.AList"
begin

text \<open>
  The routes (\<^verbatim>\<open>internal/api/router.go\<close>) with the station overlay (\<^verbatim>\<open>fire_stations.go\<close>): every route behind
  the CORS and the authentication middlewares, some behind a rate limit. The router library picks the route
  whose method and path pattern fit, a parameter standing for one path segment; what it answers when
  none does is the argument \<^verbatim>\<open>rt_fallback\<close>. URLs and the upstream of the overlay are the record
  \<^verbatim>\<open>url_library\<close>.
\<close>

section \<open>Fire stations\<close>

record url =
  u_Scheme :: string
  u_Host :: string
  u_Rest :: string
  u_Query :: "(string \<times> string list) list"

record url_library =
  parse_url :: "string \<Rightarrow> error + url"
  render_url :: "url \<Rightarrow> string"
  new_request :: "string \<Rightarrow> error option"
  do_request :: "string \<Rightarrow> error + int \<times> (error + string)"
  decode_features :: "string \<Rightarrow> error + string list option"

definition defaultFireStationsURL :: string where
  "defaultFireStationsURL =
     ''https://maps.phoenix.gov/phxfire/rest/services/SharedResources/PFD_Regional_Dispatch_Fire_Stations'' @
     ''/FeatureServer/0/query''"

definition setDefaultQuery :: "string \<Rightarrow> string \<Rightarrow> (string \<times> string list) list \<Rightarrow> (string \<times> string list) list" where
  "setDefaultQuery key v query = (if values_Get query key = [] then AList.update key [v] query else query)"

text \<open>Each incoming key replaces the key of the configured URL.\<close>

fun override_query :: "(string \<times> string list) list \<Rightarrow> (string \<times> string list) list \<Rightarrow> (string \<times> string list) list" where
  "override_query query [] = query"
| "override_query query ((key, vals) # rest) =
     override_query (if vals = [] then AList.delete key query else AList.update key vals query) rest"

definition station_defaults :: "(string \<times> string) list" where
  "station_defaults =
     [(''where'', ''1=1''), (''outFields'', ''*''), (''returnGeometry'', ''true''), (''outSR'', ''4326''),
      (''f'', ''json'')]"

definition buildFireStationsURL :: "url_library \<Rightarrow> string \<Rightarrow> (string \<times> string list) list \<Rightarrow> error + string" where
  "buildFireStationsURL ul raw incoming =
     (case parse_url ul raw of
        Inl e \<Rightarrow> Inl e
      | Inr target \<Rightarrow>
          if u_Scheme target = [] \<or> u_Host target = [] then Inl ''fire stations url must be absolute''
          else Inr (render_url ul
                 (target\<lparr>u_Query := fold (\<lambda>(k, v). setDefaultQuery k v) station_defaults
                                    (override_query (u_Query target) incoming)\<rparr>)))"

definition validateFireStationsBody :: "url_library \<Rightarrow> string \<Rightarrow> error option" where
  "validateFireStationsBody ul body =
     (case decode_features ul body of
        Inl e \<Rightarrow> Some e
      | Inr None \<Rightarrow> Some ''missing features array''
      | Inr (Some _) \<Rightarrow> None)"

definition stations_limit :: nat where "stations_limit = 5 * 2 ^ 20"

definition fireStationsHandler :: "url_library \<Rightarrow> ApiConfig \<Rightarrow> 'b feed_handler" where
  "fireStationsHandler ul cfg r s =
     (let upstream = (if cfg_FireStationsURL cfg = [] then defaultFireStationsURL else cfg_FireStationsURL cfg)
      in case buildFireStationsURL ul upstream (hr_values r) of
           Inl e \<Rightarrow> (writeError 500 ''configure fire stations'', s)
         | Inr target \<Rightarrow>
             (case new_request ul target of
                Some e \<Rightarrow> (writeError 500 ''build fire stations request'', s)
              | None \<Rightarrow>
                  (case do_request ul target of
                     Inl e \<Rightarrow> (writeError 502 ''fetch fire stations'', s)
                   | Inr (status, Inl e) \<Rightarrow> (writeError 502 ''read fire stations'', s)
                   | Inr (status, Inr full) \<Rightarrow>
                       (let body = take stations_limit full
                        in if status < 200 \<or> status \<ge> 300 then (writeError 502 ''fetch fire stations'', s)
                           else
                             (case validateFireStationsBody ul body of
                                Some e \<Rightarrow> (writeError 502 ''parse fire stations'', s)
                              | None \<Rightarrow>
                                  (\<lparr>rs_status = 200,
                                    rs_headers = [(''Content-Type'', ''application/json''),
                                                  (''Cache-Control'', ''public, max-age=3600'')],
                                    rs_body = Body (RawPayload body)\<rparr>, s))))))"

section \<open>Routes\<close>

datatype segment = Lit string | Param

fun match_path :: "segment list \<Rightarrow> string list \<Rightarrow> string list option" where
  "match_path [] [] = Some []"
| "match_path (Lit l # ps) (x # xs) = (if l = x then match_path ps xs else None)"
| "match_path (Param # ps) (x # xs) = map_option ((#) x) (match_path ps xs)"
| "match_path _ _ = None"

record 'b router_env =
  rt_api :: api_env
  rt_HashKey :: "string \<Rightarrow> string"
  rt_rate :: "'b rate_library"
  rt_json :: "string \<Rightarrow> json option"
  rt_urls :: url_library
  rt_fallback :: "'b feed_handler"

type_synonym 'b route = "string \<times> segment list \<times> (string list \<Rightarrow> 'b feed_handler)"

definition upload_path :: "segment list" where
  "upload_path = [Lit ''v1'', Lit ''admin'', Lit ''dispatch'', Lit ''transcript'']"

definition upload_route :: "'b router_env \<Rightarrow> 'b feed_handler" where
  "upload_route env =
     adminDispatchAccessLogMiddleware
       (adminDispatchRateLimitMiddleware (rt_rate env) (rt_HashKey env) (cfg_AdminToken (ap_cfg (rt_api env)))
          (adminDispatchTranscriptHandler (rt_api env) (rt_json env)))"

definition detail_route :: "'b router_env \<Rightarrow> string list \<Rightarrow> 'b feed_handler" where
  "detail_route env ps =
     (case ps of
        [src, iid] \<Rightarrow> rateLimitMiddleware (rt_rate env) ScopeIncidentRead (incidentDetailHandler (rt_api env) src iid)
      | _ \<Rightarrow> rt_fallback env)"

definition routes :: "'b router_env \<Rightarrow> 'b route list" where
  "routes env =
     (let api = rt_api env; rl = rt_rate env
      in [(''GET'', [Lit []], \<lambda>_. rootHandler),
          (''GET'', [Lit ''api'', Lit ''admin'', Lit ''incidents'', Lit ''recent''], \<lambda>_. adminRecentIncidentsHandler api),
          (''POST'', upload_path, \<lambda>_. upload_route env),
          (''GET'', [Lit ''v1'', Lit ''admin'', Lit ''dispatch'', Lit ''transcripts'', Lit ''recent''],
             \<lambda>_. adminDispatchAccessLogMiddleware (adminDispatchRecentTranscriptsHandler api)),
          (''GET'', [Lit ''v1'', Lit ''admin'', Lit ''dispatch'', Lit ''health''],
             \<lambda>_. adminDispatchAccessLogMiddleware (adminDispatchHealthHandler api)),
          (''GET'', [Lit ''v1'', Lit ''incidents'', Lit ''active''], \<lambda>_. activeIncidentsHandler api),
          (''GET'', [Lit ''v1'', Lit ''fire-stations''], \<lambda>_. fireStationsHandler (rt_urls env) (ap_cfg api)),
          (''POST'', [Lit ''v1'', Lit ''incidents'', Lit ''refresh''],
             \<lambda>_. rateLimitMiddleware rl ScopeManualRefresh (refreshIncidentsHandler api)),
          (''GET'', [Lit ''v1'', Lit ''incidents'', Lit ''history''], \<lambda>_. historyPlaceholderHandler api),
          (''GET'', [Lit ''v1'', Lit ''incidents'', Param, Param], detail_route env),
          (''GET'', [Lit ''v1'', Lit ''stats''], \<lambda>_. rateLimitMiddleware rl ScopeIncidentRead (statsHandler api)),
          (''GET'', [Lit ''v1'', Lit ''codes''], \<lambda>_. codesHandler),
          (''GET'', [Lit ''v1'', Lit ''openapi.json''], \<lambda>_. openAPIHandler),
          (''GET'', [Lit ''v1'', Lit ''health''], \<lambda>_. health_page api),
          (''HEAD'', [Lit ''v1'', Lit ''health''], \<lambda>_. health_page api)])"

fun find_route :: "'b route list \<Rightarrow> string \<Rightarrow> string list \<Rightarrow> 'b feed_handler option" where
  "find_route [] method path = None"
| "find_route ((m, pat, h) # rest) method path =
     (if m = method then (case match_path pat path of Some ps \<Rightarrow> Some (h ps) | None \<Rightarrow> find_route rest method path)
      else find_route rest method path)"

definition dispatch :: "'b router_env \<Rightarrow> 'b feed_handler" where
  "dispatch env r s =
     (if hr_method r = ''OPTIONS'' then (\<lparr>rs_status = 204, rs_headers = [], rs_body = NoBody\<rparr>, s)
      else
        (case find_route (routes env) (hr_method r) (hr_path r) of
           Some h \<Rightarrow> h r s
         | None \<Rightarrow> rt_fallback env r s))"

definition RegisterRoutes :: "'b router_env \<Rightarrow> 'b feed_handler" where
  "RegisterRoutes env =
     corsMiddleware (cfg_AllowedOrigins (ap_cfg (rt_api env)))
       (authMiddleware (rt_HashKey env) (ap_faults (rt_api env)) (dispatch env))"

section \<open>What a request can change\<close>

definition reads_only :: "'b feed_handler \<Rightarrow> bool" where
  "reads_only h \<longleftrightarrow> (\<forall>r s. sv_db (snd (h r s)) = sv_db s)"

named_theorems read_only

lemma constant_read_only [read_only]: "reads_only rootHandler" "reads_only codesHandler" "reads_only openAPIHandler"
  by (simp_all add: reads_only_def rootHandler_def codesHandler_def openAPIHandler_def)

lemma writeActiveIncidents_read_only [read_only]: "reads_only (writeActiveIncidents env scope)"
  by (simp add: reads_only_def writeActiveIncidents_def split: sum.split)

lemma activeIncidentsHandler_read_only [read_only]: "reads_only (activeIncidentsHandler env)" "reads_only (refreshIncidentsHandler env)"
  unfolding activeIncidentsHandler_def refreshIncidentsHandler_def by (rule read_only)+

lemma incidentDetailHandler_read_only [read_only]: "reads_only (incidentDetailHandler env src iid)"
  by (simp add: reads_only_def incidentDetailHandler_def split: sum.split option.split)

lemma historyPlaceholderHandler_read_only [read_only]: "reads_only (historyPlaceholderHandler env)"
  by (simp add: reads_only_def historyPlaceholderHandler_def)

lemma statsHandler_read_only [read_only]: "reads_only (statsHandler env)"
  by (simp add: reads_only_def statsHandler_def Let_def split: sum.split)

lemma health_page_read_only [read_only]: "reads_only (health_page env)"
  unfolding reads_only_def health_page_def Let_def snd_conv by (rule allI)+ (rule refl)

lemma fireStationsHandler_read_only [read_only]: "reads_only (fireStationsHandler ul cfg :: 'b feed_handler)"
proof -
  have "snd (fireStationsHandler ul cfg r s) = s" for r and s :: "'b server"
    unfolding fireStationsHandler_def Let_def
    by (simp only: snd_conv split: sum.split option.split prod.split if_split) blast
  then show ?thesis by (simp add: reads_only_def)
qed

lemma adminRecentIncidentsHandler_read_only [read_only]: "reads_only (adminRecentIncidentsHandler env)"
  by (simp add: reads_only_def adminRecentIncidentsHandler_def split: sum.split)

lemma adminDispatchRecentTranscriptsHandler_read_only [read_only]: "reads_only (adminDispatchRecentTranscriptsHandler env)" "reads_only (adminDispatchHealthHandler env)"
  by (simp_all add: reads_only_def adminDispatchRecentTranscriptsHandler_def adminDispatchHealthHandler_def split: sum.split)

lemma adminDispatchAccessLogMiddleware_read_only [read_only]: "reads_only h \<Longrightarrow> reads_only (adminDispatchAccessLogMiddleware h)"
  by (simp add: reads_only_def adminDispatchAccessLogMiddleware_def)

lemma rateLimitMiddleware_read_only [read_only]: "reads_only h \<Longrightarrow> reads_only (rateLimitMiddleware rl scope h)"
  by (simp add: reads_only_def rateLimitMiddleware_def Let_def split: prod.split)

lemma detail_route_read_only [read_only]: "reads_only (rt_fallback env) \<Longrightarrow> reads_only (detail_route env ps)"
  unfolding detail_route_def by (auto intro: read_only split: list.split)

lemma find_route_some:
  "find_route rs m p = Some h \<Longrightarrow> \<exists>pat g ps. (m, pat, g) \<in> set rs \<and> match_path pat p = Some ps \<and> h = g ps"
  by (induction rs m p rule: find_route.induct) (fastforce split: if_splits option.splits)+

definition uploads :: "'b router_env \<Rightarrow> http_request \<Rightarrow> bool" where
  "uploads env r \<longleftrightarrow>
     hr_method r = ''POST'' \<and> match_path upload_path (hr_path r) \<noteq> None \<and> authorized (rt_api env) r"

definition adds_transcript :: "database \<Rightarrow> database \<Rightarrow> bool" where
  "adds_transcript d d' \<longleftrightarrow>
     (\<exists>t. d' = d\<lparr>dispatch_transcripts := dispatch_transcripts d @ [t], seq_transcript := seq_transcript d + 1\<rparr>)"

lemma upload_handler_effect:
  "sv_db (snd (adminDispatchTranscriptHandler env parse r s)) = sv_db s \<or>
   (authorized env r \<and> adds_transcript (sv_db s) (sv_db (snd (adminDispatchTranscriptHandler env parse r s))))"
proof (cases "authorized env r")
  case a: True
  show ?thesis
  proof (cases "sv_db (snd (adminDispatchTranscriptHandler env parse r s)) = sv_db s")
    case False
    then obtain input i dup d1 where i: "InsertDispatchTranscript (ap_faults env) (hr_now r) input (sv_db s) = (Inr (i, dup), d1)"
      "sv_db (snd (adminDispatchTranscriptHandler env parse r s)) = d1"
      by (auto simp: adminDispatchTranscriptHandler_def dest: InsertDispatchTranscript_error
          split: if_splits sum.splits prod.splits)
    have "adds_transcript (sv_db s) d1"
      using InsertDispatchTranscript_row [OF i(1)] i(2) False by (auto simp: adds_transcript_def split: if_splits)
    then show ?thesis using a i(2) by simp
  qed simp
qed (simp add: adminDispatchTranscriptHandler_def)

lemma upload_route_effect:
  "sv_db (snd (upload_route env r s)) = sv_db s \<or>
   (authorized (rt_api env) r \<and> adds_transcript (sv_db s) (sv_db (snd (upload_route env r s))))"
proof -
  let ?h = "adminDispatchTranscriptHandler (rt_api env) (rt_json env)"
  let ?m = "adminDispatchRateLimitMiddleware (rt_rate env) (rt_HashKey env) (cfg_AdminToken (ap_cfg (rt_api env))) ?h"
  have "snd (upload_route env r s) = snd (?m r s)"
    by (simp add: upload_route_def adminDispatchAccessLogMiddleware_def)
  moreover have "sv_db (snd (?m r s)) = sv_db s \<or> (\<exists>l. ?m r s = ?h r (s\<lparr>sv_limiter := l\<rparr>))"
    unfolding adminDispatchRateLimitMiddleware_def Let_def
    by (simp split: option.split prod.split if_split) blast
  moreover have "sv_db (snd (?h r (s\<lparr>sv_limiter := l\<rparr>))) = sv_db s \<or> (authorized (rt_api env) r \<and>
      adds_transcript (sv_db s) (sv_db (snd (?h r (s\<lparr>sv_limiter := l\<rparr>)))))" for l
    using upload_handler_effect [of "rt_api env" "rt_json env" r "s\<lparr>sv_limiter := l\<rparr>"] by simp
  ultimately show ?thesis by metis
qed

lemma routes_effect:
  assumes "reads_only (rt_fallback env)" "find_route (routes env) (hr_method r) (hr_path r) = Some h"
  shows "sv_db (snd (h r s)) = sv_db s \<or> (uploads env r \<and> adds_transcript (sv_db s) (sv_db (snd (h r s))))"
proof -
  obtain pat g ps where g: "(hr_method r, pat, g) \<in> set (routes env)" "match_path pat (hr_path r) = Some ps" "h = g ps"
    using find_route_some [OF assms(2)] by blast
  have "(hr_method r = ''POST'' \<and> pat = upload_path \<and> h = upload_route env) \<or> reads_only h"
    using g(1,3) assms(1) unfolding routes_def Let_def
    by (auto intro: read_only)
  then show ?thesis
  proof
    assume h: "hr_method r = ''POST'' \<and> pat = upload_path \<and> h = upload_route env"
    then show ?thesis using upload_route_effect [of env r s] g(2) by (auto simp: uploads_def)
  qed (simp add: reads_only_def)
qed

lemma RegisterRoutes_effect:
  assumes "reads_only (rt_fallback env)"
  shows "sv_db (snd (RegisterRoutes env r s)) = sv_db s \<or>
    (uploads env r \<and> adds_transcript (sv_db s) (sv_db (snd (RegisterRoutes env r s))))"
proof -
  have disp: "sv_db (snd (dispatch env r' s)) = sv_db s \<or>
      (uploads env r' \<and> adds_transcript (sv_db s) (sv_db (snd (dispatch env r' s))))" for r'
    using routes_effect [OF assms, of r'] assms
    by (auto simp: dispatch_def reads_only_def split: option.split)
  have same: "uploads env (r\<lparr>hr_identity := i\<rparr>) = uploads env r" for i
    by (simp add: uploads_def authorized_def)
  have "snd (RegisterRoutes env r s) = s \<or>
    (\<exists>i. snd (RegisterRoutes env r s) = snd (dispatch env (r\<lparr>hr_identity := i\<rparr>) s))"
    by (auto simp: RegisterRoutes_def corsMiddleware_def authMiddleware_def Let_def split: sum.split)
  then show ?thesis using disp same by metis
qed

text \<open>
  C8. The API only writes what it is meant to: whatever the request, the database after it is the database
  before it, unless the request is a POST to the upload path with a configured admin token, and then one
  transcript has been added at most. (The answer to unrouted requests is the router library's.)
\<close>

theorem api_writes_only_uploads:
  assumes "reads_only (rt_fallback env)"
  shows "sv_db (snd (RegisterRoutes env r s)) = sv_db s \<or>
    (uploads env r \<and> adds_transcript (sv_db s) (sv_db (snd (RegisterRoutes env r s))))"
  by (rule RegisterRoutes_effect [OF assms])

definition sample_router :: "nat router_env" where
  "sample_router =
     \<lparr>rt_api = sample_env, rt_HashKey = id, rt_rate = \<lparr>rl_NewLimiter = (\<lambda>_ burst. nat burst), rl_Allow = (\<lambda>_ b. (0 < b, b - 1))\<rparr>, rt_json = (\<lambda>_. Some sample_payload),
      rt_urls = \<lparr>parse_url = (\<lambda>_. Inl ''no urls''), render_url = u_Host, new_request = (\<lambda>_. None),
                 do_request = (\<lambda>_. Inl ''offline''), decode_features = (\<lambda>_. Inl ''no body'')\<rparr>,
      rt_fallback = (\<lambda>r s. (\<lparr>rs_status = 404, rs_headers = [], rs_body = NoBody\<rparr>, s))\<rparr>"

lemma sample_fallback: "reads_only (rt_fallback sample_router)"
  by (simp add: reads_only_def sample_router_def)

lemma sample_read_is_no_upload: "\<not> uploads sample_router sample_request"
  by (simp add: uploads_def sample_request_def)

theorem api_writes_only_uploads_witness:
  "sv_db (snd (RegisterRoutes sample_router sample_request sample_server)) = sv_db sample_server"
  using api_writes_only_uploads [OF sample_fallback, of sample_request sample_server] sample_read_is_no_upload
  by simp

section \<open>The administration routes\<close>

definition admin_routes :: "(string \<times> string list) list" where
  "admin_routes =
     [(''GET'', [''api'', ''admin'', ''incidents'', ''recent'']),
      (''POST'', [''v1'', ''admin'', ''dispatch'', ''transcript'']),
      (''GET'', [''v1'', ''admin'', ''dispatch'', ''transcripts'', ''recent'']),
      (''GET'', [''v1'', ''admin'', ''dispatch'', ''health''])]"

definition refuses :: "'b feed_handler \<Rightarrow> http_request \<Rightarrow> 'b server \<Rightarrow> bool" where
  "refuses h r s \<longleftrightarrow> snd (h r s) = s \<and> rs_status (fst (h r s)) = 401 \<and>
     (\<exists>e. rs_body (fst (h r s)) = ErrorBody e)"

lemma refuses_error: "h r s = (writeError 401 e, s) \<Longrightarrow> refuses h r s"
  by (simp add: refuses_def writeError_def writeJSON_def)

lemma refuses_logged: "refuses h r s \<Longrightarrow> refuses (adminDispatchAccessLogMiddleware h) r s"
  by (simp add: refuses_def adminDispatchAccessLogMiddleware_def with_headers_def)

lemma unauthorized_refused:
  assumes "\<not> authorized (rt_api env) r"
  shows "refuses (adminRecentIncidentsHandler (rt_api env)) r s"
    "refuses (adminDispatchRecentTranscriptsHandler (rt_api env)) r s"
    "refuses (adminDispatchHealthHandler (rt_api env)) r s"
    "refuses (upload_route env) r s"
proof -
  show "refuses (adminRecentIncidentsHandler (rt_api env)) r s"
    using assms by (intro refuses_error) (simp add: adminRecentIncidentsHandler_def)
  show "refuses (adminDispatchRecentTranscriptsHandler (rt_api env)) r s"
    using assms by (intro refuses_error) (simp add: adminDispatchRecentTranscriptsHandler_def)
  show "refuses (adminDispatchHealthHandler (rt_api env)) r s"
    using assms by (intro refuses_error) (simp add: adminDispatchHealthHandler_def)
  show "refuses (upload_route env) r s"
    unfolding upload_route_def using assms
    by (intro refuses_logged refuses_error)
      (auto simp: adminDispatchRateLimitMiddleware_def authorized_def validAdminBearer_def split: option.split)
qed

lemma admin_dispatch_refused:
  assumes "(hr_method r, hr_path r) \<in> set admin_routes" "\<not> authorized (rt_api env) r"
  shows "refuses (dispatch env) r s"
proof -
  have "dispatch env r s \<in> {adminRecentIncidentsHandler (rt_api env) r s, upload_route env r s,
      adminDispatchAccessLogMiddleware (adminDispatchRecentTranscriptsHandler (rt_api env)) r s,
      adminDispatchAccessLogMiddleware (adminDispatchHealthHandler (rt_api env)) r s}"
    using assms(1) by (auto simp: admin_routes_def dispatch_def routes_def Let_def upload_path_def)
  then show ?thesis
    using unauthorized_refused [OF assms(2), of s, THEN refuses_logged] unauthorized_refused [OF assms(2), of s]
    by (auto simp: refuses_def)
qed

lemma authenticate_refusal: "authenticate H fault d r = Inl (st, e) \<Longrightarrow> st \<in> {401, 500}"
  unfolding authenticate_def Let_def
  by (simp split: if_split_asm sum.split_asm lookup_error.split_asm option.split_asm)

lemma auth_cases:
  obtains st e where "st \<in> {401, 500}" "authMiddleware H fault nxt r s = (writeError st e, s)"
  | i where "authMiddleware H fault nxt r s = nxt (r\<lparr>hr_identity := i\<rparr>) s"
proof (cases "authenticate H fault (sv_db s) r")
  case (Inl refusal)
  then obtain st e where "authenticate H fault (sv_db s) r = Inl (st, e)" by (metis prod.collapse)
  then show thesis using authenticate_refusal that(1) [of st e] by (simp add: authMiddleware_def)
next
  case (Inr i)
  then show thesis using that(2) [of "Some i"] by (simp add: authMiddleware_def)
qed

text \<open>
  C23. The administration routes are closed: a request to one of the four without a configured token in its
  \<^verbatim>\<open>Authorization\<close> header gets an error, with status 401 (or 500 when the lookup of its API key fails), and leaves
  the database and the rate limits as they were. When no token is configured, that is every request.
\<close>

theorem admin_routes_closed:
  assumes "(hr_method r, hr_path r) \<in> set admin_routes"
    "\<not> authorized (rt_api env) r \<or> adminTokenCandidates (cfg_AdminToken (ap_cfg (rt_api env))) = []"
    "RegisterRoutes env r s = (resp, s')"
  shows "s' = s \<and> rs_status resp \<in> {401, 500} \<and> (\<exists>e. rs_body resp = ErrorBody e)"
proof -
  have na: "\<not> authorized (rt_api env) r" using assms(2) no_token_no_access unfolding authorized_def by metis
  have "hr_method r \<in> fst ` set admin_routes" using assms(1) by (metis fst_conv imageI)
  then have "hr_method r = ''GET'' \<or> hr_method r = ''POST''" unfolding admin_routes_def by auto
  then have opt: "hr_method r \<noteq> ''OPTIONS''" by (elim disjE) simp_all
  let ?a = "authMiddleware (rt_HashKey env) (ap_faults (rt_api env)) (dispatch env)"
  have inner: "refuses (dispatch env) (r\<lparr>hr_identity := i\<rparr>) s" for i
    using admin_dispatch_refused [of "r\<lparr>hr_identity := i\<rparr>" env s] assms(1) na by (simp add: authorized_def)
  have a: "snd (?a r s) = s \<and> rs_status (fst (?a r s)) \<in> {401, 500} \<and> (\<exists>e. rs_body (fst (?a r s)) = ErrorBody e)"
  proof (rule auth_cases)
    fix st e
    assume "st \<in> {401, 500}" "?a r s = (writeError st e, s)"
    then show ?thesis by (simp add: writeError_def writeJSON_def)
  next
    fix i
    assume "?a r s = dispatch env (r\<lparr>hr_identity := i\<rparr>) s"
    then show ?thesis using inner [of i] by (simp add: refuses_def)
  qed
  have "snd (RegisterRoutes env r s) = snd (?a r s) \<and>
      rs_status (fst (RegisterRoutes env r s)) = rs_status (fst (?a r s)) \<and>
      rs_body (fst (RegisterRoutes env r s)) = rs_body (fst (?a r s))"
    using opt by (simp add: RegisterRoutes_def corsMiddleware_def Let_def with_headers_def)
  with a assms(3) show ?thesis by simp
qed

definition health_probe :: http_request where
  "health_probe = sample_request\<lparr>hr_path := [''v1'', ''admin'', ''dispatch'', ''health'']\<rparr>"

theorem admin_routes_closed_witness:
  "rs_status (fst (RegisterRoutes sample_router health_probe quiet_server)) \<in> {401, 500}"
proof -
  have p: "(hr_method health_probe, hr_path health_probe) \<in> set admin_routes"
    by (simp add: admin_routes_def health_probe_def sample_request_def)
  have "\<not> authorized (rt_api sample_router) health_probe"
    by (simp add: authorized_def validAdminBearer_def parseAdminBearerToken_def health_probe_def sample_request_def
        HasPrefix_def)
  then show ?thesis
    using admin_routes_closed [OF p, of sample_router quiet_server, OF _ prod.collapse [symmetric]] by blast
qed

section \<open>The document against the code\<close>

text \<open>A path of the document as a pattern: its segments, those in braces being parameters.\<close>

definition segment_of :: "string \<Rightarrow> segment" where
  "segment_of t = (if t \<noteq> [] \<and> hd t = CHR ''{'' then Param else Lit t)"

fun path_segments :: "string \<Rightarrow> string \<Rightarrow> string list" where
  "path_segments acc [] = [rev acc]"
| "path_segments acc (c # cs) =
     (if c = CHR ''/'' then rev acc # path_segments [] cs else path_segments (c # acc) cs)"

definition documented_route :: "string \<times> string \<Rightarrow> string \<times> segment list" where
  "documented_route mp = (ToUpper (fst mp), map segment_of (tl (path_segments [] (snd mp))))"

lemma documented_routes:
  "map documented_route documented =
     [(''GET'', [Lit []]),
      (''GET'', [Lit ''v1'', Lit ''incidents'', Lit ''active'']),
      (''POST'', [Lit ''v1'', Lit ''incidents'', Lit ''refresh'']),
      (''GET'', [Lit ''v1'', Lit ''fire-stations'']),
      (''GET'', [Lit ''v1'', Lit ''incidents'', Param, Param]),
      (''GET'', [Lit ''v1'', Lit ''incidents'', Lit ''history'']),
      (''GET'', [Lit ''api'', Lit ''admin'', Lit ''incidents'', Lit ''recent'']),
      (''POST'', upload_path),
      (''GET'', [Lit ''v1'', Lit ''admin'', Lit ''dispatch'', Lit ''transcripts'', Lit ''recent'']),
      (''GET'', [Lit ''v1'', Lit ''admin'', Lit ''dispatch'', Lit ''health'']),
      (''GET'', [Lit ''v1'', Lit ''stats'']),
      (''GET'', [Lit ''v1'', Lit ''codes'']),
      (''GET'', [Lit ''v1'', Lit ''openapi.json'']),
      (''GET'', [Lit ''v1'', Lit ''health''])]"
  by code_simp

lemma documented_enums:
  "documented_enum ''source_status'' = [''ok'', ''degraded'', ''down'']"
  "documented_enum ''source_status_reason'' = known_reasons"
  by code_simp+

text \<open>
  The OpenAPI document the API serves is true of the code: the methods and paths it lists are the routes,
  all of them but the \<^verbatim>\<open>HEAD\<close> of the health page, and the source status and its reason, as the classification
  of any poll record gives them, are among the values it enumerates.
\<close>

theorem openapi_matches_code:
  "set (map documented_route documented) \<union> {(''HEAD'', [Lit ''v1'', Lit ''health''])} =
     set (map (\<lambda>(m, pat, h). (m, pat)) (routes env)) \<and>
   (let (status, reason) = classifySourceStatus now success failures cls given unchanged th
    in status_string status \<in> set (documented_enum ''source_status'') \<and>
       reason \<in> set (documented_enum ''source_status_reason''))"
proof -
  have "set (map documented_route documented) \<union> {(''HEAD'', [Lit ''v1'', Lit ''health''])} =
     set (map (\<lambda>(m, pat, h). (m, pat)) (routes env))"
    unfolding documented_routes routes_def Let_def by (simp add: insert_commute) 
  moreover have "status_string st \<in> set (documented_enum ''source_status'')" for st
    by (cases st) (simp_all add: documented_enums status_string_def)
  moreover have "snd (classifySourceStatus now success failures cls given unchanged th) \<in> set known_reasons"
    by (rule classifySourceStatus_reason)
  ultimately show ?thesis by (simp add: documented_enums split_beta)
qed

end
