(* ===== verification/Programs.thy ===== *)
theory Programs
  imports Router Ingester Canary Retention Backfill
begin

text \<open>
  The processes (the \<^verbatim>\<open>main\<close> functions under \<^verbatim>\<open>cmd/\<close>): what each makes of the environment before its loop or
  its server starts, and what the processes do together. The ingester's is in theory Ingester. Opening the
  database is an argument: the pool and the ping each succeed or fail. The middlewares \<^verbatim>\<open>cmd/api\<close> takes from the
  router library are the argument \<^verbatim>\<open>chain\<close>.
\<close>

section \<open>Starting up\<close>

datatype startup_error = ConfigError config_error | Fatal string

record postgres =
  pg_pool :: "string \<Rightarrow> error option"
  pg_ping :: "string \<Rightarrow> error option"

definition open_store :: "postgres \<Rightarrow> string \<Rightarrow> error option" where
  "open_store pg dsn =
     (case pg_pool pg dsn of
        Some e \<Rightarrow> Some (''pgx pool: '' @ e)
      | None \<Rightarrow> (case pg_ping pg dsn of Some e \<Rightarrow> Some (''pgx ping: '' @ e) | None \<Rightarrow> None))"

definition start_process :: "env \<Rightarrow> postgres \<Rightarrow> startup_error + Config" where
  "start_process e pg =
     (case Load e of
        Inl err \<Rightarrow> Inl (ConfigError err)
      | Inr cfg \<Rightarrow>
          (case open_store pg (c_DatabaseURL cfg) of Some err \<Rightarrow> Inl (Fatal err) | None \<Rightarrow> Inr cfg))"

definition janitor_main ::
  "env \<Rightarrow> postgres \<Rightarrow> time \<times> faults \<Rightarrow> (tick \<times> time \<times> faults) list \<Rightarrow> database \<Rightarrow> startup_error + database" where
  "janitor_main e pg start ticks d =
     map_sum id (\<lambda>cfg. janitor (c_RawRetention cfg) (c_SDRActiveWindow cfg) start ticks d) (start_process e pg)"

text \<open>The check at the start comes first in the list.\<close>

definition canary_main ::
  "env \<Rightarrow> postgres \<Rightarrow> canary_codec \<Rightarrow> (Upstream \<times> time \<times> faults) list \<Rightarrow> database \<Rightarrow>
   startup_error + contract_canary_row list \<times> database" where
  "canary_main e pg cc checks d =
     map_sum id (\<lambda>cfg. canary_loop cc (NewPhoenixFire True) checks d) (start_process e pg)"

definition api_config :: "Config \<Rightarrow> ApiConfig" where
  "api_config cfg =
     \<lparr>cfg_Sources = [SourceName], cfg_StaleAfter = c_SourceDownAfter cfg,
      cfg_SourceDegradedAfter = c_SourceDegradedAfter cfg, cfg_SourceDownAfter = c_SourceDownAfter cfg,
      cfg_SourceDownFailures = c_SourceDownFailures cfg, cfg_FrozenDownAfter = c_FrozenDownAfter cfg,
      cfg_DefaultParserVersion = ParserVersion, cfg_AdminToken = c_AdminToken cfg,
      cfg_AllowedOrigins = c_AllowedOrigins cfg, cfg_FireStationsURL = c_FireStationsURL cfg,
      cfg_PaidTierEnabled = c_PaidTierEnabled cfg\<rparr>"

definition api_main ::
  "env \<Rightarrow> postgres \<Rightarrow> ('b feed_handler \<Rightarrow> 'b feed_handler) \<Rightarrow> (ApiConfig \<Rightarrow> 'b router_env) \<Rightarrow>
   startup_error + 'b feed_handler" where
  "api_main e pg chain surroundings =
     map_sum id (\<lambda>cfg. chain (RegisterRoutes (surroundings (api_config cfg)))) (start_process e pg)"

definition missing_token :: string where
  "missing_token =
     ''MAPBOX_TOKEN is required for dispatch-parser; provision a server-side Mapbox token before deploy''"

definition dispatch_parser_start ::
  "env \<Rightarrow> postgres \<Rightarrow> http_client \<Rightarrow> (duration \<Rightarrow> int \<Rightarrow> waiter) \<Rightarrow> startup_error + MapboxClient \<times> Worker" where
  "dispatch_parser_start e pg http limiter =
     (case Load e of
        Inl err \<Rightarrow> Inl (ConfigError err)
      | Inr cfg \<Rightarrow>
          if c_MapboxToken cfg = [] then Inl (Fatal missing_token)
          else
            (case open_store pg (c_DatabaseURL cfg) of
               Some err \<Rightarrow> Inl (Fatal err)
             | None \<Rightarrow>
                 (case NewMapboxClient http limiter (c_MapboxToken cfg) [] of
                    Inl err \<Rightarrow> Inl (Fatal err)
                  | Inr mapbox \<Rightarrow>
                      Inr (mapbox, NewWorker \<lparr>wo_MaxAge = c_DispatchMaxAge cfg, wo_MaxGeocodeAttempts = 0\<rparr>))))"

definition dispatch_parser_main ::
  "env \<Rightarrow> postgres \<Rightarrow> http_client \<Rightarrow> (duration \<Rightarrow> int \<Rightarrow> waiter) \<Rightarrow> (MapboxClient \<Rightarrow> ((nat \<Rightarrow> pass) \<times> duration) list) \<Rightarrow> database \<Rightarrow>
   startup_error + duration option list option \<times> database" where
  "dispatch_parser_main e pg http limiter rounds d =
     map_sum id (\<lambda>(mapbox, worker). Run worker (5 * second) (rounds mapbox) d) (dispatch_parser_start e pg http limiter)"

text \<open>\<^verbatim>\<open>cmd/backfill_units\<close> opens the pool by itself.\<close>

definition backfill_main ::
  "env \<Rightarrow> postgres \<Rightarrow> faults \<Rightarrow> raw_codec \<Rightarrow> database \<Rightarrow> (startup_error + backfill_summary) \<times> database" where
  "backfill_main e pg fault rc d =
     (case Load e of
        Inl err \<Rightarrow> (Inl (ConfigError err), d)
      | Inr cfg \<Rightarrow>
          (case pg_pool pg (c_DatabaseURL cfg) of
             Some err \<Rightarrow> (Inl (Fatal (''pgx pool: '' @ err)), d)
           | None \<Rightarrow>
               (case pg_ping pg (c_DatabaseURL cfg) of
                  Some err \<Rightarrow> (Inl (Fatal (''pg ping: '' @ err)), d)
                | None \<Rightarrow>
                    (case backfill_units fault rc d of
                       (Inl err, d1) \<Rightarrow> (Inl (Fatal (''backfill units: '' @ err)), d1)
                     | (Inr s, d1) \<Rightarrow> (Inr s, d1)))))"

section \<open>The configuration takes effect\<close>

lemma dispatch_parser_started:
  assumes "dispatch_parser_start e pg http limiter = Inr (mapbox, worker)"
  obtains cfg where "Load e = Inr cfg" "TrimSpace (c_MapboxToken cfg) \<noteq> []" "mb_token mapbox = TrimSpace (c_MapboxToken cfg)"
    "worker = NewWorker \<lparr>wo_MaxAge = c_DispatchMaxAge cfg, wo_MaxGeocodeAttempts = 0\<rparr>"
  using assms
  by (auto simp: dispatch_parser_start_def NewMapboxClient_def Let_def split: sum.splits if_splits option.splits)

text \<open>
  What is configured is what runs: of a configuration that loads, no default inside the components replaces
  a value. The API judges sources by the configured thresholds, degraded coming before down; the parser process
  starts only with a token, and rejects transcripts older than the configured age, after five geocoding attempts;
  and the ingester's client has the configured policy.
\<close>

theorem configuration_takes_effect:
  assumes "Load e = Inr cfg"
  shows "sourceThresholds (api_config cfg) =
      \<lparr>degradedAfter = c_SourceDegradedAfter cfg, downAfter = c_SourceDownAfter cfg,
       downFailures = c_SourceDownFailures cfg, frozenDownAfter = c_FrozenDownAfter cfg\<rparr> \<and>
    c_SourceDegradedAfter cfg < c_SourceDownAfter cfg \<and>
    policy (pickSource cfg) =
      \<lparr>FrozenRepeatCount = c_FrozenRepeatCount cfg, SuddenCollapsePercent = c_SuddenCollapsePct cfg\<rparr> \<and>
    (case dispatch_parser_start e pg http limiter of
       Inl _ \<Rightarrow> True
     | Inr (mapbox, worker) \<Rightarrow>
         mb_token mapbox \<noteq> [] \<and> wk_maxAge worker = c_DispatchMaxAge cfg \<and> wk_maxGeocodeAttempts worker = 5)"
proof -
  have ok: "config_ok cfg" using assms Load_ok_iff by blast
  have "case dispatch_parser_start e pg http limiter of
       Inl _ \<Rightarrow> True
     | Inr (mapbox, worker) \<Rightarrow>
         mb_token mapbox \<noteq> [] \<and> wk_maxAge worker = c_DispatchMaxAge cfg \<and> wk_maxGeocodeAttempts worker = 5"
  proof (cases "dispatch_parser_start e pg http limiter")
    case (Inr start)
    obtain mapbox worker where start: "start = (mapbox, worker)" by (cases start)
    show ?thesis
    proof (rule dispatch_parser_started [OF Inr [unfolded start]])
      fix c
      assume c: "Load e = Inr c" "TrimSpace (c_MapboxToken c) \<noteq> []" "mb_token mapbox = TrimSpace (c_MapboxToken c)"
        "worker = NewWorker \<lparr>wo_MaxAge = c_DispatchMaxAge c, wo_MaxGeocodeAttempts = 0\<rparr>"
      then have "c = cfg" using assms by simp
      then show ?thesis
        using c ok by (simp add: Inr start NewWorker_def defaultGeocodeMaxAttempts_def config_ok_def)
    qed
  qed simp
  moreover have "sourceThresholds (api_config cfg) =
      \<lparr>degradedAfter = c_SourceDegradedAfter cfg, downAfter = c_SourceDownAfter cfg,
       downFailures = c_SourceDownFailures cfg, frozenDownAfter = c_FrozenDownAfter cfg\<rparr>"
    using ok by (simp add: sourceThresholds_def api_config_def config_ok_def)
  moreover have "c_SourceDegradedAfter cfg < c_SourceDownAfter cfg" using ok by (simp add: config_ok_def)
  moreover have "policy (pickSource cfg) =
      \<lparr>FrozenRepeatCount = c_FrozenRepeatCount cfg, SuddenCollapsePercent = c_SuddenCollapsePct cfg\<rparr>"
    using ok by (simp add: config_ok_def pickSource_def NewWithPolicy_def NewClient_def Let_def)
  ultimately show ?thesis by blast
qed

theorem configuration_takes_effect_witness:
  "\<exists>cfg. Load (\<lambda>_. None) = Inr cfg \<and> downFailures (sourceThresholds (api_config cfg)) = c_SourceDownFailures cfg"
  using configuration_takes_effect [OF default_loads] default_loads by auto

section \<open>From an upload to the feed\<close>

lemma processNext_success:
  assumes "undisturbed ps" "next_transcript [] d = Some t" "\<not> staleCapture w ps (dt_captured_at t)"
    "ParseTranscript (dt_display_text t) (tr_VerificationConfidence (row_of t)) = Some (Inr p)"
    "fst (geocode_pass ps (pd_LocationText p) d) = Inr g"
  shows "\<exists>d' q. processNext w ps d = (Some (outcomeInserted, dt_id t, None), d') \<and>
    find_incident sdr_source (sdr_incident_id (dt_id t)) d' = Some q \<and> shows_dispatch p g (dt_captured_at t) q"
proof -
  have nf: "ps_faults ps = no_faults" "ps_locked ps = []" using assms(1) by (simp_all add: undisturbed_def)
  have row: "tr_ID (row_of t) = dt_id t" "tr_CapturedAt (row_of t) = dt_captured_at t"
    "tr_DisplayText (row_of t) = dt_display_text t"
    by (simp_all add: row_of_def)
  obtain d1 where d1: "geocode_pass ps (pd_LocationText p) d = (Inr g, d1)" using assms(5) by (metis prod.collapse)
  obtain i d2 where d2: "insertIncident ps (row_of t) p g d1 = Inr (i, d2)"
    using insertIncident_no_faults [OF nf(1)] by blast
  obtain d3 where d3: "markTranscriptParsed ps (dt_id t) (Some i) d2 = Inr d3" using mark_no_faults(1) [OF nf(1)] by blast
  have "process_parsed w ps (row_of t) p d = ((outcomeInserted, dt_id t, None), d3)"
    using d1 d2 d3 row by (simp add: process_parsed_def Let_def commit_tx_no_faults [OF nf(1)])
  then have "processNext w ps d = (Some (outcomeInserted, dt_id t, None), d3)"
    using assms(2-4) nf row by (simp add: processNext_def lockNextTranscript_def no_faults_def)
  moreover have "find_incident src iid d3 = find_incident src iid d2" for src iid
    using d3 by (auto simp: markTranscriptParsed_def update_transcript_def find_incident_def split: option.splits)
  ultimately show ?thesis using insertIncident_row [OF d2] row by auto
qed

definition feed_entry :: "ParsedDispatch \<Rightarrow> GeoResult \<Rightarrow> time \<Rightarrow> ActiveIncident \<Rightarrow> bool" where
  "feed_entry p g captured inc \<longleftrightarrow>
     ai_NatureDesc inc = NatureDescriptionFor (ai_NatureCode inc) (pd_Nature p) \<and>
     ai_Units inc = incidentUnitsJSON (pd_Units p) \<and> ai_Channel inc = pd_Channel p \<and>
     ai_LocationText inc = pd_LocationText p \<and> ai_Lon inc = geo_Lon g \<and> ai_Lat inc = geo_Lat g \<and>
     ai_IncidentDate inc = captured"

lemma entry_of_row:
  assumes "shows_dispatch p g captured q"
  shows "feed_entry p g captured ((active_row u n q)
      \<lparr>ai_NatureDesc := NatureDescriptionFor (ai_NatureCode (active_row u n q)) (ai_NatureDesc (active_row u n q)),
        ai_Severity := sev, ai_LastConfirmedAt := seen, ai_IsLastKnown := known\<rparr>)"
  using assms by (simp add: feed_entry_def shows_dispatch_def active_row_def)

lemma finished_entry:
  assumes "q \<in> set rows" "shows_dispatch p g captured q"
  shows "\<exists>inc \<in> set (applyIncidentAuthority m (enrichActiveIncidents (map (\<lambda>q. active_row (u q) (n q) q) rows))).
    ai_key inc = incident_key q \<and> feed_entry p g captured inc"
proof -
  let ?row = "active_row (u q) (n q) q"
  let ?inc = "?row\<lparr>ai_NatureDesc := NatureDescriptionFor (ai_NatureCode ?row) (ai_NatureDesc ?row),
      ai_Severity := SeverityForCode (ai_NatureCode ?row), ai_LastConfirmedAt := ai_LastSeenAt ?row,
      ai_IsLastKnown := last_known m (ai_LastSeenAt ?row)\<rparr>"
  have "?inc \<in> set (applyIncidentAuthority m (enrichActiveIncidents (map (\<lambda>q. active_row (u q) (n q) q) rows)))"
    unfolding applyIncidentAuthority_def enrichActiveIncidents_def set_map image_image
    by (rule image_eqI [OF _ assms(1)]) simp
  moreover have "ai_key ?inc = incident_key q"
    by (simp add: ai_key_def active_row_def incident_key_def)
  ultimately show ?thesis using entry_of_row [OF assms(2)] by blast
qed

text \<open>An active row that shows a dispatch is an entry of the unfiltered feed.\<close>

lemma row_in_feed:
  assumes "find_incident src iid (sv_db s) = Some q" "shows_dispatch p g captured q"
    "ap_faults env = no_faults" "parseActiveIncidentFilter (ap_text env) r = Inr no_filter"
  shows "\<exists>feed inc. writeActiveIncidents env scope r s = (writeJSON 200 (Body (ActivePayload feed)), s) \<and>
    inc \<in> set (fe_Incidents feed) \<and> ai_key inc = (src, iid) \<and> feed_entry p g captured inc"
proof -
  have q: "q \<in> set (active_incidents (sv_db s))" "incident_key q = (src, iid)"
    using find_incident_SomeD [OF assms(1)] assms(2)
    by (auto simp: active_incidents_def incident_key_def shows_dispatch_def)
  let ?result = "\<lparr>ar_Meta = sourcePollMeta (hr_now r) SourceName (sv_db s),
      ar_Incidents = map (\<lambda>q. active_row (success_of (ir_source q) (sv_db s))
        (epoch_seconds (hr_now r - ir_last_seen_at q)) q) (newest_first (active_incidents (sv_db s)))\<rparr>"
  let ?feed = "build_active_feed (ap_cfg env) (hr_now r) (IdentityFromContext r) (sv_limiter s) scope ?result"
  obtain m where m: "fe_Incidents ?feed = applyIncidentAuthority m (enrichActiveIncidents (ar_Incidents ?result))"
    unfolding build_active_feed_def Let_def ActiveFeed.select_convs by blast
  have "q \<in> set (newest_first (active_incidents (sv_db s)))" by (simp only: newest_first_set q(1))
  then have "\<exists>inc \<in> set (fe_Incidents ?feed). ai_key inc = incident_key q \<and> feed_entry p g captured inc"
    unfolding m ActiveIncidentsResult.select_convs by (rule finished_entry [OF _ assms(2)])
  then show ?thesis unfolding q(2) using active_request [OF assms(3,4), of scope s] by blast
qed

text \<open>
  C5. From an upload to the feed: when the queue is empty, a new upload is acknowledged under an id, its text is
  a dispatch that is not too old, and the geocoder knows the address, then one undisturbed pass of the worker
  inserts the incident \<^verbatim>\<open>sdr-<id>\<close>, and the active feed served after it has that incident with the units, the
  channel and the address of the text, the time the audio was captured and the place the geocoder gave.
\<close>

theorem uploaded_dispatch_served:
  assumes "adminDispatchTranscriptHandler env parse r s = (writeJSON 200 (Body (TranscriptAck i False)), s1)"
    and "filter queued (dispatch_transcripts (sv_db s)) = []" and "undisturbed ps"
    and "t = last (dispatch_transcripts (sv_db s1))" and "\<not> staleCapture w ps (dt_captured_at t)"
    and "ParseTranscript (dt_display_text t) (tr_VerificationConfidence (row_of t)) = Some (Inr p)"
    and "fst (geocode_pass ps (pd_LocationText p) (sv_db s1)) = Inr g"
    and "ap_faults env = no_faults" and "parseActiveIncidentFilter (ap_text env) q = Inr no_filter"
  shows "\<exists>d feed inc. processNext w ps (sv_db s1) = (Some (outcomeInserted, i, None), d) \<and>
    writeActiveIncidents env scope q (s1\<lparr>sv_db := d\<rparr>) =
      (writeJSON 200 (Body (ActivePayload feed)), s1\<lparr>sv_db := d\<rparr>) \<and>
    inc \<in> set (fe_Incidents feed) \<and> ai_key inc = (sdr_source, sdr_incident_id i) \<and>
    feed_entry p g (dt_captured_at t) inc"
proof -
  obtain body input d1 where u: "InsertDispatchTranscript (ap_faults env) (hr_now r) input (sv_db s) = (Inr (i, False), d1)"
    "s1 = s\<lparr>sv_db := d1\<rparr>"
    by (rule upload_steps [OF assms(1)])
  obtain t' where t': "new_transcript i (hr_now r) input = Inr t'"
    "dispatch_transcripts (sv_db s1) = dispatch_transcripts (sv_db s) @ [t']"
    using InsertDispatchTranscript_row [OF u(1)] u(2) by auto
  have t: "t' = t" "dt_id t = i" "queued t"
    using new_transcript_fields [OF t'(1)] t'(2) assms(4) by (simp_all add: queued_def)
  have nxt: "next_transcript [] (sv_db s1) = Some t"
    using assms(2) t t'(2) by (simp add: next_transcript_def)
  obtain d q' where d: "processNext w ps (sv_db s1) = (Some (outcomeInserted, i, None), d)"
    and q': "find_incident sdr_source (sdr_incident_id i) (sv_db (s1\<lparr>sv_db := d\<rparr>)) = Some q'"
    "shows_dispatch p g (dt_captured_at t) q'"
    using processNext_success [OF assms(3) nxt assms(5-7)] t(2) by auto
  show ?thesis using row_in_feed [OF q' assms(8,9), of scope] d by blast
qed

definition dispatch_payload :: json where
  "dispatch_payload =
     JObj [(''wav_filename'', JString ''a_1.wav''), (''captured_at'', JString ''2024-06-01T00:00:00Z''),
           (''display_text'', JString ''AMR 214 CDEC 5 fall 1 n a st''),
           (''verification'', JObj [(''confidence'', JNumber ''1'')])]"

definition upload_sample :: "payload http_response \<times> nat server" where
  "upload_sample = adminDispatchTranscriptHandler sample_env (\<lambda>_. Some dispatch_payload) upload_request quiet_server"

lemma upload_sample_ack: "fst upload_sample = writeJSON 200 (Body (TranscriptAck 1 False))"
  by code_simp

lemma upload_sample_row:
  "map (\<lambda>t. (dt_display_text t, dt_verification_confidence t, dt_captured_at t))
     (dispatch_transcripts (sv_db (snd upload_sample))) =
   [(''AMR 214 CDEC 5 fall 1 n a st'', Some (Fin 1), DateUTC 2024 6 1 0 0 0)]"
  "geocode_cache (sv_db (snd upload_sample)) = []"
  by code_simp+

definition served_pass :: pass where
  "served_pass = sample_pass\<lparr>ps_now := DateUTC 2024 6 1 0 10 0\<rparr>"

theorem uploaded_dispatch_served_witness:
  "\<exists>d feed inc. processNext sample_worker served_pass (sv_db (snd upload_sample)) = (Some (outcomeInserted, 1, None), d) \<and>
     writeActiveIncidents sample_env ScopeIncidentRead sample_request ((snd upload_sample)\<lparr>sv_db := d\<rparr>) =
       (writeJSON 200 (Body (ActivePayload feed)), (snd upload_sample)\<lparr>sv_db := d\<rparr>) \<and>
     inc \<in> set (fe_Incidents feed) \<and> ai_key inc = (sdr_source, sdr_incident_id 1) \<and>
     ai_LocationText inc = ''1 n a st''"
proof -
  have ack: "adminDispatchTranscriptHandler sample_env (\<lambda>_. Some dispatch_payload) upload_request quiet_server =
      (writeJSON 200 (Body (TranscriptAck 1 False)), snd upload_sample)"
    using upload_sample_ack by (simp add: upload_sample_def prod_eq_iff)
  have quiet: "filter queued (dispatch_transcripts (sv_db quiet_server)) = []"
    by (simp add: quiet_server_def empty_db_def)
  have pass: "undisturbed served_pass" by (simp add: served_pass_def sample_pass_def undisturbed_def)
  obtain t where t: "dispatch_transcripts (sv_db (snd upload_sample)) = [t]"
    "dt_display_text t = ''AMR 214 CDEC 5 fall 1 n a st''" "dt_verification_confidence t = Some (Fin 1)"
    "dt_captured_at t = DateUTC 2024 6 1 0 0 0"
    using upload_sample_row(1) by (auto simp: map_eq_Cons_conv)
  have last: "t = last (dispatch_transcripts (sv_db (snd upload_sample)))" by (simp add: t(1))
  have fresh: "\<not> staleCapture sample_worker served_pass (dt_captured_at t)"
    unfolding t(4) by code_simp
  have parsed: "ParseTranscript (dt_display_text t) (tr_VerificationConfidence (row_of t)) =
     Some (Inr \<lparr>pd_Nature = ''Fall'', pd_Channel = ''CDEC 5'',
                pd_Units = [\<lparr>eu_UnitName = ''AMR 214'', eu_UnitType = ''AMR''\<rparr>], pd_LocationText = ''1 n a st''\<rparr>)"
    using ParseTranscript_amr_plain by (simp add: t row_of_def)
  have geo: "fst (geocode_pass served_pass a (sv_db (snd upload_sample))) = Inr \<lparr>geo_Lon = - 112, geo_Lat = 33\<rparr>" for a
    using upload_sample_row(2)
    by (simp add: geocode_pass_def CachedGeocode_def ask_provider_def NewPostgresCache_def PostgresLookup_def
        PostgresStore_def no_faults_def find_geocode_def served_pass_def sample_pass_def)
  from uploaded_dispatch_served [OF ack quiet pass last fresh parsed geo sample_env_faults sample_unfiltered, of ScopeIncidentRead]
  show ?thesis by (auto simp: feed_entry_def)
qed

end
