(* ===== verification/Apply_Steps.thy ===== *)
theory Apply_Steps
  imports Lifecycle
begin

text \<open>
  The calls an apply makes to the store, one at a time (\<^verbatim>\<open>Manager.Apply\<close>,
  \<^verbatim>\<open>internal/lifecycle/lifecycle.go\<close>). Each is one statement or one transaction; between two of them the
  other processes can run. Run without interruption the calls make up \<^verbatim>\<open>Apply\<close> as the lifecycle theory has it.
\<close>

section \<open>An apply in steps\<close>

text \<open>
  Where an apply stands between two calls of the store: the poll identifier it holds, the incidents
  it has observed and those it still has to write, what the sweep has cleared.
\<close>

datatype activity =
    Beginning PollResult
  | Upserting PollResult int "string list" "Incident list"
  | Marking PollResult int "string list"
  | Sweeping PollResult int
  | Recording PollResult int "ClearedIncident list"
  | Succeeding PollResult int
  | Failing PollResult int error
  | Finished "error option"

fun advance :: "int \<Rightarrow> faults \<Rightarrow> activity \<times> database \<Rightarrow> activity \<times> database" where
  "advance N fault (Beginning r, d) =
     (if \<not> Success r
      then (case RecordPoll fault r d of
              (Inl e, d1) \<Rightarrow> (Finished (Some e), d1)
            | (Inr _, d1) \<Rightarrow> (Finished None, d1))
      else (case RecordPollPending fault r d of
              (Inl e, d1) \<Rightarrow> (Finished (Some e), d1)
            | (Inr pid, d1) \<Rightarrow> (Upserting r pid [] (res_Incidents r), d1)))"
| "advance N fault (Upserting r pid ids [], d) = (Marking r pid ids, d)"
| "advance N fault (Upserting r pid ids (inc # incs), d) =
     (case UpsertIncident fault inc pid (res_StartedAt r) d of
        (Some e, d1) \<Rightarrow>
          (Failing r pid (''upsert incident '' @ inc_Source inc @ ''/'' @ inc_IncidentID inc @ '': '' @ e), d1)
      | (None, d1) \<Rightarrow> (Upserting r pid (ids @ [inc_IncidentID inc]) incs, d1))"
| "advance N fault (Marking r pid ids, d) =
     (case MarkMissing fault (res_Source r) (res_StartedAt r) ids d of
        (Some e, d1) \<Rightarrow> (Failing r pid (''mark missing '' @ res_Source r @ '': '' @ e), d1)
      | (None, d1) \<Rightarrow> (Sweeping r pid, d1))"
| "advance N fault (Sweeping r pid, d) =
     (case SweepCleared fault (res_Source r) N d of
        (Inl e, d1) \<Rightarrow> (Failing r pid (''sweep cleared '' @ res_Source r @ '': '' @ e), d1)
      | (Inr cleared, d1) \<Rightarrow> (if cleared \<noteq> [] then Recording r pid cleared else Succeeding r pid, d1))"
| "advance N fault (Recording r pid cleared, d) =
     (case RecordClearedEvents fault cleared pid d of
        (Some e, d1) \<Rightarrow> (Failing r pid (''record cleared events '' @ res_Source r @ '': '' @ e), d1)
      | (None, d1) \<Rightarrow> (Succeeding r pid, d1))"
| "advance N fault (Succeeding r pid, d) = map_prod Finished id (finish_apply fault pid d)"
| "advance N fault (Failing r pid e, d) = map_prod Finished id (failPollApply fault pid e d)"
| "advance N fault (Finished e, d) = (Finished e, d)"

definition ends :: "int \<Rightarrow> faults \<Rightarrow> nat \<Rightarrow> activity \<times> database \<Rightarrow> error option \<times> database \<Rightarrow> bool" where
  "ends N fault m s out \<longleftrightarrow> (\<forall>n. (advance N fault ^^ (m + n)) s = map_prod Finished id out)"

lemma ends_Finished: "ends N fault 0 (Finished e, d) (e, d)"
proof -
  have "(advance N fault ^^ n) (Finished e, d) = (Finished e, d)" for n
    by (induction n) simp_all
  then show ?thesis by (simp add: ends_def)
qed

lemma ends_step: "ends N fault m (advance N fault s) out \<Longrightarrow> ends N fault (Suc m) s out"
  by (simp add: ends_def funpow_swap1)

lemma ends_later: "ends N fault m s out \<Longrightarrow> m \<le> m' \<Longrightarrow> ends N fault m' s out"
  unfolding ends_def by (metis add.assoc le_add_diff_inverse)

lemma ends_Failing: "ends N fault 1 (Failing r pid e, d) (failPollApply fault pid e d)"
  using ends_Finished [of N fault "fst (failPollApply fault pid e d)" "snd (failPollApply fault pid e d)"]
  by (simp add: ends_step map_prod_def split_beta)

lemma ends_Succeeding: "ends N fault 1 (Succeeding r pid, d) (finish_apply fault pid d)"
  using ends_Finished [of N fault "fst (finish_apply fault pid d)" "snd (finish_apply fault pid d)"]
  by (simp add: ends_step map_prod_def split_beta)

lemma ends_Recording:
  "ends N fault 2 (Recording r pid cleared, d)
     (case RecordClearedEvents fault cleared pid d of
        (Some e, d1) \<Rightarrow> failPollApply fault pid (''record cleared events '' @ res_Source r @ '': '' @ e) d1
      | (None, d1) \<Rightarrow> finish_apply fault pid d1)"
  unfolding Suc_1 [symmetric]
  by (rule ends_step) (simp split: prod.split option.split add: ends_Failing [simplified] ends_Succeeding [simplified])

lemma ends_Sweeping:
  "ends N fault 3 (Sweeping r pid, d)
     (case SweepCleared fault (res_Source r) N d of
        (Inl e, d4) \<Rightarrow> failPollApply fault pid (''sweep cleared '' @ res_Source r @ '': '' @ e) d4
      | (Inr cleared, d4) \<Rightarrow>
          if cleared \<noteq> []
          then (case RecordClearedEvents fault cleared pid d4 of
                  (Some e, d5) \<Rightarrow> failPollApply fault pid (''record cleared events '' @ res_Source r @ '': '' @ e) d5
                | (None, d5) \<Rightarrow> finish_apply fault pid d5)
          else finish_apply fault pid d4)"
proof -
  have s: "Suc 2 = 3" by simp
  show ?thesis
    unfolding s [symmetric]
    by (rule ends_step) (simp split: prod.split sum.split
        add: ends_later [OF ends_Failing] ends_later [OF ends_Succeeding] ends_Recording)
qed

lemma ends_Marking:
  "ends N fault 4 (Marking r pid ids, d)
     (case MarkMissing fault (res_Source r) (res_StartedAt r) ids d of
        (Some e, d3) \<Rightarrow> failPollApply fault pid (''mark missing '' @ res_Source r @ '': '' @ e) d3
      | (None, d3) \<Rightarrow>
          (case SweepCleared fault (res_Source r) N d3 of
             (Inl e, d4) \<Rightarrow> failPollApply fault pid (''sweep cleared '' @ res_Source r @ '': '' @ e) d4
           | (Inr cleared, d4) \<Rightarrow>
               if cleared \<noteq> []
               then (case RecordClearedEvents fault cleared pid d4 of
                       (Some e, d5) \<Rightarrow> failPollApply fault pid (''record cleared events '' @ res_Source r @ '': '' @ e) d5
                     | (None, d5) \<Rightarrow> finish_apply fault pid d5)
               else finish_apply fault pid d4))"
proof -
  have s: "Suc 3 = 4" by simp
  show ?thesis
  proof (cases "MarkMissing fault (res_Source r) (res_StartedAt r) ids d")
    case (Pair e d3)
    show ?thesis
      unfolding s [symmetric]
      by (rule ends_step, cases e) (simp_all add: Pair ends_later [OF ends_Failing] ends_Sweeping)
  qed
qed

lemma ends_Upserting:
  "ends N fault (length incs + 5) (Upserting r pid ids incs, d)
     (case upsert_all fault incs pid (res_StartedAt r) d of
        (Inl e, d2) \<Rightarrow> failPollApply fault pid e d2
      | (Inr ids', d2) \<Rightarrow>
          (case MarkMissing fault (res_Source r) (res_StartedAt r) (ids @ ids') d2 of
             (Some e, d3) \<Rightarrow> failPollApply fault pid (''mark missing '' @ res_Source r @ '': '' @ e) d3
           | (None, d3) \<Rightarrow>
               (case SweepCleared fault (res_Source r) N d3 of
                  (Inl e, d4) \<Rightarrow> failPollApply fault pid (''sweep cleared '' @ res_Source r @ '': '' @ e) d4
                | (Inr cleared, d4) \<Rightarrow>
                    if cleared \<noteq> []
                    then (case RecordClearedEvents fault cleared pid d4 of
                            (Some e, d5) \<Rightarrow>
                              failPollApply fault pid (''record cleared events '' @ res_Source r @ '': '' @ e) d5
                          | (None, d5) \<Rightarrow> finish_apply fault pid d5)
                    else finish_apply fault pid d4)))"
proof (induction incs arbitrary: ids d)
  case Nil
  have s: "length ([] :: Incident list) + 5 = Suc 4" by simp
  show ?case unfolding s by (rule ends_step) (simp only: advance.simps upsert_all.simps append_Nil2 prod.case sum.case ends_Marking)
next
  case (Cons inc incs)
  obtain e d1 where u: "UpsertIncident fault inc pid (res_StartedAt r) d = (e, d1)" by fastforce
  have s: "length (inc # incs) + 5 = Suc (length incs + 5)" by simp
  show ?case
  proof (cases e)
    case (Some m)
    show ?thesis
      unfolding s by (rule ends_step) (simp add: u Some ends_later [OF ends_Failing])
  next
    case None
    obtain res d2 where a: "upsert_all fault incs pid (res_StartedAt r) d1 = (res, d2)" by fastforce
    show ?thesis
      unfolding s
      by (rule ends_step, cases res)
        (use Cons.IH [of "ids @ [inc_IncidentID inc]" d1] in \<open>simp_all add: u None a\<close>)
  qed
qed

lemma apply_steps_reach:
  "(advance N fault ^^ (length (res_Incidents r) + 6 + k)) (Beginning r, d) =
     (Finished (fst (Apply fault N r d)), snd (Apply fault N r d))"
proof -
  have "ends N fault (Suc (length (res_Incidents r) + 5)) (Beginning r, d) (Apply fault N r d)"
  proof (rule ends_step)
    consider (failed) "\<not> Success r" | (pending) "Success r" by blast
    then show "ends N fault (length (res_Incidents r) + 5) (advance N fault (Beginning r, d)) (Apply fault N r d)"
    proof cases
      case failed
      then show ?thesis
        by (simp add: Apply_def ends_later [OF ends_Finished] split: prod.split sum.split)
    next
      case pending
      obtain res d1 where p: "RecordPollPending fault r d = (res, d1)" by fastforce
      show ?thesis
      proof (cases res)
        case (Inl e)
        then show ?thesis using pending p by (simp add: Apply_def ends_later [OF ends_Finished])
      next
        case (Inr pid)
        then show ?thesis
          using pending p ends_Upserting [of N fault "res_Incidents r" r pid "[]" d1, unfolded append_Nil]
          by (simp add: Apply_def apply_success_def Let_def)
      qed
    qed
  qed
  then show ?thesis
    by (simp add: ends_def map_prod_def split_beta add.commute [of "length (res_Incidents r)" 6])
qed


end
