(* ===== verification/Concurrency.thy ===== *)
theory Concurrency
  imports Programs Backfill Apply_Steps
begin

text \<open>
  The processes together. They share one database and no other state; each call of the store is one
  statement or one transaction, taken as atomic (the statements of two transactions are not interleaved).
  The ingester's apply is followed call by call, the other processes step between the calls: the dispatch
  worker, the janitor, the canary, the key generator, the backfill and the API.
\<close>

section \<open>What the machine of a source reads\<close>

definition polls_of :: "string \<Rightarrow> database \<Rightarrow> source_poll list" where
  "polls_of src d = filter (\<lambda>p. sp_source p = src) (source_polls d)"

definition life :: "incident_row \<Rightarrow> time option \<times> time option" where
  "life r = (ir_missing_since r, ir_cleared_at r)"

definition life_of :: "string \<Rightarrow> database \<Rightarrow> string \<Rightarrow> (time option \<times> time option) option" where
  "life_of src d iid = map_option life (find_incident src iid d)"

fun life_phase :: "source_poll list \<Rightarrow> (time option \<times> time option) option \<Rightarrow> phase" where
  "life_phase ps None = Unknown"
| "life_phase ps (Some (m, Some c)) = Cleared"
| "life_phase ps (Some (None, None)) = Seen"
| "life_phase ps (Some (Some t, None)) = Missing (length (filter (\<lambda>p. sp_success p \<and> t \<le> sp_started_at p) ps))"

lemma phase_of_life: "phase_of src d iid = life_phase (polls_of src d) (life_of src d iid)"
proof (cases "find_incident src iid d")
  case None
  then show ?thesis by (simp add: phase_of_def life_of_def)
next
  case (Some r)
  have "ir_source r = src" using find_incident_SomeD [OF Some] by simp
  moreover have "filter (\<lambda>p. sp_source p = src \<and> sp_success p \<and> t \<le> sp_started_at p) ps =
      filter (\<lambda>p. sp_success p \<and> t \<le> sp_started_at p) (filter (\<lambda>p. sp_source p = src) ps)" for t ps
    by (simp add: conj_commute conj_left_commute)
  ultimately show ?thesis
    using Some by (cases "ir_cleared_at r"; cases "ir_missing_since r")
      (simp_all add: phase_of_def life_of_def life_def row_phase_def misses_def polls_of_def)
qed

text \<open>
  A change of the tables that leaves the incidents of the other sources where they are in their lives,
  their polls as they were, and every poll and incident in place.
\<close>

definition harmless :: "database \<Rightarrow> database \<Rightarrow> bool" where
  "harmless d d' \<longleftrightarrow>
     (lifecycle_ok d \<longrightarrow> lifecycle_ok d') \<and>
     set (source_polls d) \<subseteq> set (source_polls d') \<and>
     incident_key ` set (incidents d) \<subseteq> incident_key ` set (incidents d') \<and>
     (\<forall>src iid. src \<noteq> sdr_source \<longrightarrow> polls_of src d' = polls_of src d \<and> life_of src d' iid = life_of src d iid)"

lemma harmless_refl: "harmless d d"
  by (simp add: harmless_def)

lemma harmless_trans: "harmless d d1 \<Longrightarrow> harmless d1 d2 \<Longrightarrow> harmless d d2"
  unfolding harmless_def by (metis order.trans)

lemma harmless_same:
  assumes "incidents d' = incidents d" "source_polls d' = source_polls d" "db_ok d' = db_ok d"
  shows "harmless d d'"
proof -
  have "life_of src d' iid = life_of src d iid" for src iid
    using find_incident_cong [OF assms(1), of src iid] by (simp add: life_of_def)
  then show ?thesis
    using assms by (simp add: harmless_def lifecycle_ok_def missing_ok_def polls_of_def)
qed

lemma harmless_map:
  assumes "incidents d' = map f (incidents d)" "source_polls d' = source_polls d"
    and "\<And>r. incident_key (f r) = incident_key r"
    and "\<And>r. ir_missing_since (f r) = ir_missing_since r"
    and "\<And>r. ir_source r \<noteq> sdr_source \<Longrightarrow> ir_cleared_at (f r) = ir_cleared_at r"
    and "db_ok d \<Longrightarrow> db_ok d'"
  shows "harmless d d'"
proof -
  have k: "ir_source (f r) = ir_source r" "ir_incident_id (f r) = ir_incident_id r" for r
    using assms(3) [of r] by (simp_all add: incident_key_def)
  have find: "find_incident src iid d' = map_option f (find_incident src iid d)" for src iid
  proof -
    have "List.find (\<lambda>r. ir_source r = src \<and> ir_incident_id r = iid) (map f rows) =
      map_option f (List.find (\<lambda>r. ir_source r = src \<and> ir_incident_id r = iid) rows)" for rows
      by (induction rows) (simp_all add: k)
    then show ?thesis by (simp add: find_incident_def assms(1))
  qed
  have "life_of src d' iid = life_of src d iid" if "src \<noteq> sdr_source" for src iid
  proof (cases "find_incident src iid d")
    case (Some r)
    then have "ir_source r = src" using find_incident_SomeD by blast
    then show ?thesis using Some find assms(4,5) that by (simp add: life_of_def life_def)
  qed (simp add: life_of_def find)
  moreover have "missing_known K (f r) = missing_known K r" for K r
    by (simp add: missing_known_def k assms(4) split: option.split)
  then have "missing_ok d \<Longrightarrow> missing_ok d'"
    using assms(1,2) by (simp add: missing_ok_def list_all_iff)
  moreover have "incident_key ` set (incidents d') = incident_key ` set (incidents d)"
    by (simp add: assms(1,3) image_image)
  ultimately show ?thesis
    using assms(2,6) by (simp add: harmless_def lifecycle_ok_def polls_of_def)
qed

section \<open>The routine of the other processes\<close>

text \<open>
  A step of a process that runs beside the ingester: a pass of the dispatch worker, a sweep of the janitor,
  a check of the canary, a new key, a request to the API.
\<close>

inductive routine :: "'b router_env \<Rightarrow> database \<Rightarrow> database \<Rightarrow> bool" for env where
  worker_pass: "routine env d (snd (processNext w ps d))"
| raw_sweep: "routine env d (runRawSweep fault retention now d)"
| sdr_sweep: "routine env d (runSDRSweep fault window now d)"
| canary_check: "routine env d (snd (Run_canary fault cc up ck now d))"
| new_key: "routine env d (snd (keygen H fault getenv rand now d))"
| api_request: "reads_only (rt_fallback env) \<Longrightarrow> routine env (sv_db s) (sv_db (snd (RegisterRoutes env r s)))"

text \<open>
  What such steps keep: a relation of the tables before and after that composes, holds of a change beside
  the incidents and the polls, of an incident the worker inserts and of the sweeps, holds of all of them.
\<close>

locale kept =
  fixes keeps :: "database \<Rightarrow> database \<Rightarrow> bool"
  assumes kept_refl: "keeps d d"
    and kept_trans: "keeps d d1 \<Longrightarrow> keeps d1 d2 \<Longrightarrow> keeps d d2"
    and kept_aside: "incidents d' = incidents d \<Longrightarrow> incident_units d' = incident_units d \<Longrightarrow>
      incident_events d' = incident_events d \<Longrightarrow> source_polls d' = source_polls d \<Longrightarrow> db_ok d' = db_ok d \<Longrightarrow> keeps d d'"
    and kept_insert: "insertIncident ps row p g d = Inr (i, d') \<Longrightarrow> keeps d d'"
    and kept_raw_sweep: "keeps d (runRawSweep fault retention now d)"
    and kept_sdr_sweep: "keeps d (runSDRSweep fault window now d)"
begin

lemma kept_mark:
  "markTranscriptParsed ps i x d = Inr d' \<Longrightarrow> keeps d d'"
  "markTranscriptParsedAfterGeocodeAttempts ps i x n d = Inr d' \<Longrightarrow> keeps d d'"
  "recordTranscriptGeocodeAttempt ps i n d = Inr d' \<Longrightarrow> keeps d d'"
  by (auto simp: markTranscriptParsed_def markTranscriptParsedAfterGeocodeAttempts_def
      recordTranscriptGeocodeAttempt_def update_transcript_def intro!: kept_aside split: option.splits)

lemma kept_commit:
  "keeps d0 d \<Longrightarrow> (\<And>x. res = Inr x \<Longrightarrow> keeps d x) \<Longrightarrow> keeps d0 (snd (commit_tx ps oc i d res))"
  by (auto simp: commit_tx_def split: sum.split option.split intro: kept_trans)

lemma kept_parsed: "keeps d (snd (process_parsed w ps row p d))"
proof -
  obtain r d1 where g: "geocode_pass ps (pd_LocationText p) d = (r, d1)" by fastforce
  have d1: "keeps d d1"
    using geocode_pass_frame [OF g] by (auto simp: only_cache_def intro: kept_aside)
  show ?thesis
  proof (cases r)
    case (Inl e)
    then show ?thesis
      using g d1 kept_mark by (auto simp: process_parsed_def Let_def intro!: kept_commit)
  next
    case (Inr geo)
    have "keeps d1 x" if "(case insertIncident ps row p geo d1 of Inl e \<Rightarrow> Inl e
        | Inr (dbid, d2) \<Rightarrow> markTranscriptParsed ps (tr_ID row) (Some dbid) d2) = Inr x" for x
      using that kept_insert kept_mark(1) kept_trans by (fastforce split: sum.splits)
    then show ?thesis
      using g d1 Inr by (auto simp: process_parsed_def Let_def intro!: kept_commit)
  qed
qed

lemma kept_pass: "keeps d (snd (processNext w ps d))"
  using kept_mark kept_parsed
  by (auto simp: processNext_def intro!: kept_commit kept_refl split: option.split sum.split)

lemma kept_canary: "keeps d (snd (Run_canary fault cc up ck now d))"
  by (auto simp: Run_canary_def RecordCanary_def Let_def db_ok_def keys_ok_def refs_ok_def
      intro!: kept_aside split: option.split)

lemma kept_key: "keeps d (snd (keygen H fault getenv rand now d))"
proof -
  have "keeps d (snd (CreateAPIKey fault now p d))" for p
    by (auto simp: CreateAPIKey_def Let_def db_ok_def keys_ok_def refs_ok_def intro!: kept_aside split: option.split)
  then have c: "keeps d d1" if "CreateAPIKey fault now p d = (x, d1)" for p x d1
    using that by (metis snd_conv)
  show ?thesis
    by (auto simp: keygen_def kept_refl split: option.split sum.split prod.split intro: c)
qed

lemma kept_request:
  assumes "reads_only (rt_fallback env)"
  shows "keeps (sv_db s) (sv_db (snd (RegisterRoutes env r s)))"
proof -
  have "keeps d d'" if "adds_transcript d d'" for d d'
    using that by (auto simp: adds_transcript_def db_ok_def keys_ok_def refs_ok_def intro!: kept_aside)
  then show ?thesis using RegisterRoutes_effect [OF assms, of r s] kept_refl by metis
qed

lemma kept_routine: "routine env d d' \<Longrightarrow> keeps d d'"
  by (induction rule: routine.induct)
    (simp_all add: kept_pass kept_raw_sweep kept_sdr_sweep kept_canary kept_key kept_request)

end

section \<open>The other processes are harmless\<close>

lemma upsert_sdr_other:
  assumes "src \<noteq> ir_source new"
  shows "find_incident src iid (snd (upsert_sdr new d)) = find_incident src iid d"
proof (cases "find_incident (ir_source new) (ir_incident_id new) d")
  case None
  then show ?thesis using assms by (simp add: upsert_sdr_def find_incident_def find_append split: option.split)
next
  case (Some r)
  let ?q = "\<lambda>r. ir_source r = ir_source new \<and> ir_incident_id r = ir_incident_id new"
  let ?f = "\<lambda>r. if ?q r then sdr_conflict_row new r else r"
  have "List.find (\<lambda>r. ir_source r = src \<and> ir_incident_id r = iid) (update_where ?q ?f (incidents d)) =
      map_option (\<lambda>r. if ?q r then ?f r else r) (List.find (\<lambda>r. ir_source r = src \<and> ir_incident_id r = iid) (incidents d))"
    by (rule find_update_where) (auto simp: sdr_conflict_row_def)
  moreover have "map_option (\<lambda>r. if ?q r then ?f r else r) (find_incident src iid d) = find_incident src iid d"
    using assms find_incident_SomeD [of src iid d] by (cases "find_incident src iid d") auto
  ultimately show ?thesis
    using Some update_where_guard [of ?q "sdr_conflict_row new" "incidents d"]
    by (simp add: upsert_sdr_def find_incident_def)
qed

lemma upsert_sdr_rows:
  assumes "ir_missing_since new = None"
  shows "incident_key ` set (incidents d) \<subseteq> incident_key ` set (incidents (snd (upsert_sdr new d)))"
    "list_all (missing_known K) (incidents d) \<Longrightarrow> list_all (missing_known K) (incidents (snd (upsert_sdr new d)))"
proof -
  let ?q = "\<lambda>r. ir_source r = ir_source new \<and> ir_incident_id r = ir_incident_id new"
  have "map incident_key (update_where ?q (sdr_conflict_row new) rows) = map incident_key rows" for rows
    by (rule map_update_where) (simp add: incident_key_def sdr_conflict_row_def)
  from arg_cong [OF this, of set] show "incident_key ` set (incidents d) \<subseteq> incident_key ` set (incidents (snd (upsert_sdr new d)))"
    by (auto simp: upsert_sdr_def split: option.split)
  have "missing_known K new" "missing_known K (sdr_conflict_row new r)" for r
    using assms by (simp_all add: missing_known_def sdr_conflict_row_def)
  then show "list_all (missing_known K) (incidents d) \<Longrightarrow> list_all (missing_known K) (incidents (snd (upsert_sdr new d)))"
    by (auto simp: upsert_sdr_def list_all_iff set_update_where split: option.split)
qed

lemma insertIncident_harmless:
  assumes "insertIncident ps row p g d = Inr (i, d')"
  shows "harmless d d'"
  using assms
proof (cases rule: insertIncident_elim)
  case (1 d1 d2)
  let ?new = "sdr_row (seq_incident d) row p g (ps_insert_now ps) (seq_poll d)"
  have new: "ir_source ?new = sdr_source" "ir_missing_since ?new = None" by (simp_all add: sdr_row_def)
  have d2: "d2 = snd (upsert_sdr ?new d1)" using 1(2) by simp
  have polls: "source_polls d2 = source_polls d1" using upsert_sdr_frame [of ?new d1] d2 by auto
  have rows: "incidents d' = incidents d2" "source_polls d' = source_polls d2"
    using insert_sdr_units_frame [OF 1(3)] by auto
  have all: "source_polls d' = source_polls d @ [parser_poll (seq_poll d) (ps_insert_now ps)]" "incidents d1 = incidents d"
    using rows polls by (simp_all add: 1(1))
  have "life_of src d' iid = life_of src d iid" if "src \<noteq> sdr_source" for src iid
  proof -
    have "find_incident src iid d' = find_incident src iid d2" by (rule find_incident_cong) (rule rows)
    also have "\<dots> = find_incident src iid d1" using upsert_sdr_other [of src ?new iid d1] new that d2 by simp
    also have "\<dots> = find_incident src iid d" by (rule find_incident_cong) (rule all)
    finally show ?thesis by (simp add: life_of_def)
  qed
  moreover have "polls_of src d' = polls_of src d" if "src \<noteq> sdr_source" for src
    using that by (simp add: polls_of_def all parser_poll_def)
  moreover have "missing_ok d'" if "missing_ok d"
  proof -
    have "list_all (missing_known (started (source_polls d'))) (incidents d)"
      using that unfolding missing_ok_def list_all_iff all started_def
      by (auto elim!: missing_known_mono)
    then show ?thesis
      using upsert_sdr_rows(2) [OF new(2), of _ d1] all rows d2 by (simp add: missing_ok_def)
  qed
  ultimately show ?thesis
    using insertIncident_ok [OF assms] upsert_sdr_rows(1) [OF new(2), of d1] all rows d2
    by (auto simp: harmless_def lifecycle_ok_def)
qed

lemma sweeps_harmless: "harmless d (runRawSweep fault retention now d)" "harmless d (runSDRSweep fault window now d)"
proof -
  obtain f where f: "f \<in> {\<lambda>r. r, dropped (RawRetentionCutoff now retention) now}"
    "sweeps_rows f d (runRawSweep fault retention now d)"
    using runRawSweep_rows by blast
  then have "ir_cleared_at (f r) = ir_cleared_at r" for r by (auto simp: dropped_def)
  with f(2) show "harmless d (runRawSweep fault retention now d)"
    using sweeps_rows_ok [OF f(2)] by (intro harmless_map [of _ f]) (simp_all add: sweeps_rows_def)
next
  obtain f where f: "f \<in> {\<lambda>r. r, sdr_cleared (now - window) now}"
    "sweeps_rows f d (runSDRSweep fault window now d)"
    using runSDRSweep_rows by blast
  then have "ir_source r \<noteq> sdr_source \<Longrightarrow> ir_cleared_at (f r) = ir_cleared_at r" for r
    by (auto simp: sdr_cleared_def sdr_stale_def sdr_source_def)
  with f(2) show "harmless d (runSDRSweep fault window now d)"
    using sweeps_rows_ok [OF f(2)] by (intro harmless_map [of _ f]) (simp_all add: sweeps_rows_def)
qed

lemma backfill_harmless:
  assumes "backfill_rows fault rc rows (s, d) = Inr (s', d')" "list_all (known_row d) rows"
  shows "harmless d d'"
proof -
  note rows = backfill_rows_effect(1,2) [OF assms(1)]
  have keep: "incident_key (fold (patch_row rc) rs r) = incident_key r \<and>
      ir_missing_since (fold (patch_row rc) rs r) = ir_missing_since r \<and>
      ir_cleared_at (fold (patch_row rc) rs r) = ir_cleared_at r" for rs r
  proof (induction rs arbitrary: r)
    case (Cons a rs)
    have "ir_missing_since (patch_row rc a r) = ir_missing_since r \<and> ir_cleared_at (patch_row rc a r) = ir_cleared_at r"
      by (simp add: patch_row_def split: option.split)
    then show ?case by (simp add: Cons.IH)
  qed simp
  show ?thesis
    by (rule harmless_map [OF rows(1) only_units_polls [OF rows(2)]])
      (use keep backfill_rows_effect(3) [OF assms(1) _ assms(2)] in simp_all)
qed

text \<open>The rows a backfill has read are still known when its transaction begins.\<close>

lemma known_row_later: "harmless d d' \<Longrightarrow> known_row d r \<Longrightarrow> known_row d' r"
  by (auto simp: harmless_def known_row_def poll_known_def incident_known_def)

text \<open>
  One step of any of the other processes: a routine step, or the transaction of a backfill over rows it has
  read before.
\<close>

inductive background :: "'b router_env \<Rightarrow> database \<Rightarrow> database \<Rightarrow> bool" for env where
  routine_step: "routine env d d' \<Longrightarrow> background env d d'"
| backfill: "list_all (known_row d) rows \<Longrightarrow> backfill_rows fault rc rows (empty_summary, d) = Inr (s, d') \<Longrightarrow>
    background env d d'"

interpretation harmless: kept harmless
  by unfold_locales (auto simp: sweeps_harmless harmless_refl intro: harmless_trans harmless_same insertIncident_harmless)

lemma background_harmless: "background env d d' \<Longrightarrow> harmless d d'"
  by (induction rule: background.induct) (simp_all add: harmless.kept_routine backfill_harmless)

section \<open>Interleavings\<close>

text \<open>
  The states an apply can reach while other processes change the tables between its calls; each call
  meets faults of its own.
\<close>

inductive interleaved ::
  "(database \<Rightarrow> database \<Rightarrow> bool) \<Rightarrow> int \<Rightarrow> activity \<times> database \<Rightarrow> activity \<times> database \<Rightarrow> bool" for other N s where
  begun: "interleaved other N s s"
| own: "interleaved other N s s1 \<Longrightarrow> interleaved other N s (advance N fault s1)"
| others: "interleaved other N s (a, d) \<Longrightarrow> other d d' \<Longrightarrow> interleaved other N s (a, d')"

subsection \<open>What an apply holds between its calls\<close>

definition holds_poll :: "PollResult \<Rightarrow> int \<Rightarrow> database \<Rightarrow> bool" where
  "holds_poll r pid d \<longleftrightarrow> poll_known pid d \<and> (res_Source r, res_StartedAt r) \<in> started (source_polls d)"

fun held :: "activity \<Rightarrow> database \<Rightarrow> bool" where
  "held (Upserting r pid ids incs) d = holds_poll r pid d"
| "held (Marking r pid ids) d = holds_poll r pid d"
| "held (Sweeping r pid) d = holds_poll r pid d"
| "held (Recording r pid cleared) d =
     (holds_poll r pid d \<and> list_all (\<lambda>c. incident_known (cl_Source c) (cl_IncidentID c) d) cleared)"
| "held _ d = True"

lemma holds_poll_cong: "source_polls d' = source_polls d \<Longrightarrow> holds_poll r pid d' = holds_poll r pid d"
  by (simp add: holds_poll_def poll_known_def)

lemma held_mono:
  assumes "held a d" "set (source_polls d) \<subseteq> set (source_polls d')"
    "incident_key ` set (incidents d) \<subseteq> incident_key ` set (incidents d')"
  shows "held a d'"
proof -
  have "holds_poll r pid d \<Longrightarrow> holds_poll r pid d'" for r pid
    using assms(2) by (auto simp: holds_poll_def poll_known_def started_def)
  moreover have "incident_known s i d \<Longrightarrow> incident_known s i d'" for s i
    using assms(3) by (auto simp: incident_known_def)
  ultimately show ?thesis using assms(1) by (cases a) (auto simp: list_all_iff)
qed

lemma UpsertIncident_polls: "source_polls (snd (UpsertIncident fault inc pid ot d)) = source_polls d"
proof (cases "UpsertIncident fault inc pid ot d")
  case (Pair e d')
  then show ?thesis using UpsertIncident_failed UpsertIncident_effect(1) by (cases e) fastforce+
qed

lemma MarkMissing_polls: "source_polls (snd (MarkMissing fault src ot ids d)) = source_polls d"
  by (simp add: MarkMissing_def split: option.split)

lemma SweepCleared_polls: "source_polls (snd (SweepCleared fault src N d)) = source_polls d"
  by (simp add: SweepCleared_def Let_def split: option.split)

lemma advance_keeps:
  assumes "held a d" "lifecycle_ok d"
  shows "held (fst (advance N fault (a, d))) (snd (advance N fault (a, d))) \<and>
    lifecycle_ok (snd (advance N fault (a, d)))"
proof (cases a)
  case (Beginning r)
  have p: "lifecycle_ok (snd (recordPoll fault r s m d))" for s m
    by (rule recordPoll_lifecycle_ok [OF assms(2)])
  show ?thesis
  proof (cases "Success r")
    case False
    then show ?thesis
      using p [of "Success r" "pollErrorString (res_Err r)"] Beginning
      by (auto simp: RecordPoll_def split: prod.splits sum.splits)
  next
    case True
    show ?thesis
    proof (cases rule: recordPoll_cases [of fault r False pending_error d])
      case (failed e)
      then show ?thesis using True Beginning assms by (simp add: RecordPollPending_def)
    next
      case (stored row)
      then show ?thesis
        using True Beginning p [of False pending_error]
        by (auto simp: RecordPollPending_def holds_poll_def poll_known_def started_def)
    qed
  qed
next
  case (Upserting r pid ids incs)
  show ?thesis
  proof (cases incs)
    case Nil
    then show ?thesis using Upserting assms by simp
  next
    case (Cons inc rest)
    obtain e d1 where u: "UpsertIncident fault inc pid (res_StartedAt r) d = (e, d1)" by fastforce
    have "poll_known pid d" using assms(1) Upserting by (simp add: holds_poll_def)
    then have "lifecycle_ok d1"
      using UpsertIncident_ok [of d pid fault inc "res_StartedAt r"]
        missing_ok_UpsertIncident [of d fault inc pid "res_StartedAt r"] assms(2) u
      by (simp add: lifecycle_ok_def)
    moreover have "holds_poll r pid d1"
      using holds_poll_cong [OF UpsertIncident_polls, of r pid fault inc pid "res_StartedAt r" d] u assms(1) Upserting
      by simp
    ultimately show ?thesis using Upserting Cons u by (simp split: option.split)
  qed
next
  case (Marking r pid ids)
  obtain e d1 where m: "MarkMissing fault (res_Source r) (res_StartedAt r) ids d = (e, d1)" by fastforce
  have "lifecycle_ok d1"
    using MarkMissing_ok [of d fault "res_Source r" "res_StartedAt r" ids]
      missing_ok_MarkMissing [of d "res_Source r" "res_StartedAt r" fault ids] assms Marking m
    by (simp add: lifecycle_ok_def holds_poll_def)
  moreover have "holds_poll r pid d1"
    using holds_poll_cong [OF MarkMissing_polls, of r pid fault "res_Source r" "res_StartedAt r" ids d] m assms(1) Marking
    by simp
  ultimately show ?thesis using Marking m by (simp split: option.split)
next
  case (Sweeping r pid)
  obtain res d1 where s: "SweepCleared fault (res_Source r) N d = (res, d1)" by fastforce
  have "lifecycle_ok d1"
    using SweepCleared_ok [of d fault "res_Source r" N] missing_ok_Sweep [of d fault "res_Source r" N] assms s
    by (simp add: lifecycle_ok_def)
  moreover have "holds_poll r pid d1"
    using holds_poll_cong [OF SweepCleared_polls, of r pid fault "res_Source r" N d] s assms(1) Sweeping by simp
  ultimately show ?thesis
    using Sweeping s sweep_known(1) [of fault "res_Source r" N d _ d1] by (cases res) auto
next
  case (Recording r pid cleared)
  obtain e d1 where c: "RecordClearedEvents fault cleared pid d = (e, d1)" by fastforce
  have "lifecycle_ok d1"
    using RecordClearedEvents_ok [of d pid cleared fault] missing_ok_RecordClearedEvents [of d fault cleared pid]
      assms Recording c
    by (simp add: lifecycle_ok_def holds_poll_def)
  then show ?thesis using Recording c by (simp split: option.split)
next
  case (Succeeding r pid)
  then show ?thesis
    using MarkPollSucceeded_lifecycle_ok [OF assms(2)] by (simp add: finish_apply_snd)
next
  case (Failing r pid e)
  then show ?thesis
    using MarkPollFailed_lifecycle_ok [OF assms(2)] by (simp add: failPollApply_snd)
next
  case (Finished e)
  then show ?thesis using assms by simp
qed

subsection \<open>How far an apply has come\<close>

definition mark_life :: "time \<Rightarrow> time option \<times> time option \<Rightarrow> time option \<times> time option" where
  "mark_life t l =
     (case l of (m, Some c) \<Rightarrow> l | (m, None) \<Rightarrow> (Some (case m of None \<Rightarrow> t | Some s \<Rightarrow> s), None))"

definition sweep_life :: "int \<Rightarrow> source_poll list \<Rightarrow> time option \<times> time option \<Rightarrow> time option \<times> time option" where
  "sweep_life N ps l =
     (case l of
        (Some s, None) \<Rightarrow>
          if N \<le> int (length (filter (\<lambda>p. sp_success p \<and> s \<le> sp_started_at p) ps)) then (Some s, Some s) else l
      | _ \<Rightarrow> l)"

definition pending_poll :: "PollResult \<Rightarrow> int \<Rightarrow> database \<Rightarrow> database \<Rightarrow> bool" where
  "pending_poll r pid d0 d \<longleftrightarrow>
     Success r \<and> pid \<notin> sp_poll_id ` set (polls_of (res_Source r) d0) \<and>
     (\<exists>row. polls_of (res_Source r) d = polls_of (res_Source r) d0 @ [row] \<and> \<not> sp_success row \<and>
        sp_poll_id row = pid \<and> sp_source row = res_Source r \<and> sp_started_at row = res_StartedAt r)"

definition seen_or :: "bool \<Rightarrow> (time option \<times> time option) option \<Rightarrow> (time option \<times> time option) option" where
  "seen_or b l = (if b then Some (None, None) else l)"

definition swept_lives :: "int \<Rightarrow> PollResult \<Rightarrow> database \<Rightarrow> database \<Rightarrow> bool" where
  "swept_lives N r d0 d \<longleftrightarrow>
     (\<forall>iid. life_of (res_Source r) d iid = seen_or (observed_in r iid)
        (map_option (sweep_life N (polls_of (res_Source r) d0) \<circ> mark_life (res_StartedAt r)) (life_of (res_Source r) d0 iid)))"

fun reached :: "int \<Rightarrow> PollResult \<Rightarrow> database \<Rightarrow> activity \<Rightarrow> database \<Rightarrow> bool" where
  "reached N r d0 (Beginning r') d \<longleftrightarrow>
     r' = r \<and> polls_of (res_Source r) d = polls_of (res_Source r) d0 \<and> life_of (res_Source r) d = life_of (res_Source r) d0"
| "reached N r d0 (Upserting r' pid ids incs) d \<longleftrightarrow>
     r' = r \<and> pending_poll r pid d0 d \<and> ids @ map inc_IncidentID incs = map inc_IncidentID (res_Incidents r) \<and>
     set incs \<subseteq> set (res_Incidents r) \<and>
     (\<forall>iid. life_of (res_Source r) d iid = seen_or (iid \<in> set ids) (life_of (res_Source r) d0 iid))"
| "reached N r d0 (Marking r' pid ids) d \<longleftrightarrow>
     r' = r \<and> pending_poll r pid d0 d \<and> ids = map inc_IncidentID (res_Incidents r) \<and>
     (\<forall>iid. life_of (res_Source r) d iid = seen_or (observed_in r iid) (life_of (res_Source r) d0 iid))"
| "reached N r d0 (Sweeping r' pid) d \<longleftrightarrow>
     r' = r \<and> pending_poll r pid d0 d \<and>
     (\<forall>iid. life_of (res_Source r) d iid =
        seen_or (observed_in r iid) (map_option (mark_life (res_StartedAt r)) (life_of (res_Source r) d0 iid)))"
| "reached N r d0 (Recording r' pid cleared) d \<longleftrightarrow>
     r' = r \<and> pending_poll r pid d0 d \<and>
     swept_lives N r d0 d"
| "reached N r d0 (Succeeding r' pid) d \<longleftrightarrow> r' = r \<and> pending_poll r pid d0 d \<and> swept_lives N r d0 d"
| "reached N r d0 (Failing r' pid e) d \<longleftrightarrow> r' = r \<and> pending_poll r pid d0 d"
| "reached N r d0 (Finished e) d \<longleftrightarrow>
     (if e = None \<and> Success r
      then
        (\<exists>row. polls_of (res_Source r) d = polls_of (res_Source r) d0 @ [row] \<and> sp_success row \<and>
           sp_started_at row = res_StartedAt r) \<and>
        swept_lives N r d0 d
      else
        filter sp_success (polls_of (res_Source r) d) = filter sp_success (polls_of (res_Source r) d0) \<and>
        (\<not> Success r \<longrightarrow> life_of (res_Source r) d = life_of (res_Source r) d0))"

lemma reached_cong:
  assumes "polls_of (res_Source r) d' = polls_of (res_Source r) d"
    "\<And>iid. life_of (res_Source r) d' iid = life_of (res_Source r) d iid"
  shows "reached N r d0 a d' = reached N r d0 a d"
proof -
  have "life_of (res_Source r) d' = life_of (res_Source r) d" using assms(2) by (rule ext)
  then show ?thesis
    using assms(1) by (cases a) (simp_all add: pending_poll_def swept_lives_def)
qed

lemma life_of_cong: "incidents d' = incidents d \<Longrightarrow> life_of src d' iid = life_of src d iid"
  using find_incident_cong [of d' d src iid] by (simp add: life_of_def)

lemma polls_of_cong: "source_polls d' = source_polls d \<Longrightarrow> polls_of src d' = polls_of src d"
  by (simp add: polls_of_def)

lemma pending_cong: "source_polls d' = source_polls d \<Longrightarrow> pending_poll r pid d0 d' = pending_poll r pid d0 d"
  by (simp add: pending_poll_def polls_of_def)

lemma life_of_upsert:
  assumes "UpsertIncident fault inc pid ot d = (None, d')"
  shows "life_of src d' iid = seen_or (src = inc_Source inc \<and> iid = inc_IncidentID inc) (life_of src d iid)"
  by (simp add: life_of_def seen_or_def UpsertIncident_effect(4) [OF assms] find_incident_upsert life_def split: option.split)

lemma life_of_mark:
  assumes "MarkMissing fault src ot ids d = (None, d')"
  shows "life_of src d' iid = (if iid \<in> set ids then life_of src d iid else map_option (mark_life ot) (life_of src d iid))"
  using MarkMissing_find [OF assms, of src iid]
  by (cases "find_incident src iid d") (auto simp: life_of_def life_def mark_life_def split: option.split)

lemma life_of_sweep:
  assumes "SweepCleared fault src N d = (Inr cl, d')"
  shows "life_of src d' iid = map_option (sweep_life N (polls_of src d)) (life_of src d iid)"
proof (cases "find_incident src iid d")
  case (Some r)
  have "misses d src t = length (filter (\<lambda>p. sp_success p \<and> t \<le> sp_started_at p) (polls_of src d))" for t
    by (simp add: misses_def polls_of_def conj_commute conj_left_commute)
  moreover have "ir_source r = src" using find_incident_SomeD [OF Some] by simp
  ultimately show ?thesis
    using SweepCleared_find [OF assms, of src iid] Some
    by (cases "ir_missing_since r"; cases "ir_cleared_at r")
      (simp_all add: life_of_def life_def sweep_life_def sweepable_def)
qed (use SweepCleared_find [OF assms, of src iid] in \<open>simp add: life_of_def\<close>)

lemma polls_of_update:
  assumes "\<And>p. sp_source (f p) = sp_source p"
  shows "polls_of src (d\<lparr>source_polls := update_where q f (source_polls d)\<rparr>) = update_where q f (polls_of src d)"
proof -
  have "filter (\<lambda>p. sp_source p = src) (update_where q f ps) = update_where q f (filter (\<lambda>p. sp_source p = src) ps)" for ps
    by (induction ps) (simp_all add: update_where_def assms)
  then show ?thesis by (simp add: polls_of_def)
qed

lemma pending_update:
  assumes "pending_poll r pid d0 d" "\<And>p. sp_source (f p) = sp_source p" "\<And>p. sp_started_at (f p) = sp_started_at p"
  shows "\<exists>row. polls_of (res_Source r) (d\<lparr>source_polls := update_where (\<lambda>p. sp_poll_id p = pid) f (source_polls d)\<rparr>) =
      polls_of (res_Source r) d0 @ [f row] \<and> sp_started_at (f row) = res_StartedAt r \<and> \<not> sp_success row"
proof -
  obtain row where row: "polls_of (res_Source r) d = polls_of (res_Source r) d0 @ [row]" "\<not> sp_success row"
    "sp_poll_id row = pid" "sp_started_at row = res_StartedAt r"
    using assms(1) by (auto simp: pending_poll_def)
  have "update_where (\<lambda>p. sp_poll_id p = pid) f (polls_of (res_Source r) d0) = polls_of (res_Source r) d0"
    by (rule update_where_none) (use assms(1) in \<open>force simp: pending_poll_def\<close>)
  then show ?thesis
    using row assms(3) by (intro exI [of _ row]) (simp add: polls_of_update [of f, OF assms(2)] update_append, simp add: update_where_def)
qed

lemma pending_polls: "pending_poll r pid d0 d \<Longrightarrow> filter sp_success (polls_of (res_Source r) d) = filter sp_success (polls_of (res_Source r) d0)"
  by (auto simp: pending_poll_def)

lemma sweep_pending:
  assumes "pending_poll r pid d0 d"
  shows "sweep_life N (polls_of (res_Source r) d) = sweep_life N (polls_of (res_Source r) d0)"
proof -
  have "filter (\<lambda>p. sp_success p \<and> s \<le> sp_started_at p) (polls_of (res_Source r) d) =
      filter (\<lambda>p. sp_success p \<and> s \<le> sp_started_at p) (polls_of (res_Source r) d0)" for s
    using assms by (auto simp: pending_poll_def)
  then show ?thesis by (intro ext) (auto simp: sweep_life_def split: option.split)
qed

lemma advance_reaches:
  assumes "reached N r d0 a d" "lifecycle_ok d"
    and src: "list_all (\<lambda>i. inc_Source i = res_Source r) (res_Incidents r)"
  shows "reached N r d0 (fst (advance N fault (a, d))) (snd (advance N fault (a, d)))"
proof (cases a)
  case (Beginning r')
  then have r': "r' = r" and here: "polls_of (res_Source r) d = polls_of (res_Source r) d0"
      "life_of (res_Source r) d = life_of (res_Source r) d0"
    using assms(1) by simp_all
  have life: "life_of (res_Source r) (d\<lparr>source_polls := ps, seq_poll := n\<rparr>) = life_of (res_Source r) d" for ps n
    by (rule ext, rule life_of_cong) simp
  show ?thesis
  proof (cases "Success r")
    case False
    show ?thesis
    proof (cases rule: recordPoll_cases [of fault r False "pollErrorString (res_Err r)" d])
      case (failed e)
      then show ?thesis using False Beginning r' here by (simp add: RecordPoll_def)
    next
      case (stored row)
      then show ?thesis using False Beginning r' here by (simp add: RecordPoll_def polls_of_def life)
    qed
  next
    case True
    show ?thesis
    proof (cases rule: recordPoll_cases [of fault r False pending_error d])
      case (failed e)
      then show ?thesis using True Beginning r' here by (simp add: RecordPollPending_def)
    next
      case (stored row)
      have "seq_poll d \<notin> sp_poll_id ` set (source_polls d)"
        using assms(2) fresh_id by (simp add: lifecycle_ok_def)
      then have "seq_poll d \<notin> sp_poll_id ` set (polls_of (res_Source r) d0)"
        unfolding here(1) [symmetric] by (auto simp: polls_of_def)
      then have "pending_poll r (seq_poll d) d0 (d\<lparr>source_polls := source_polls d @ [row], seq_poll := seq_poll d + 1\<rparr>)"
        using stored True here(1) by (simp add: pending_poll_def polls_of_def)
      then show ?thesis
        using True Beginning r' stored here(2) by (simp add: RecordPollPending_def life seen_or_def)
    qed
  qed
next
  case (Upserting r' pid ids incs)
  show ?thesis
  proof (cases incs)
    case Nil
    have "(iid \<in> set ids) = observed_in r iid" for iid
      using assms(1) Upserting Nil by (simp add: observed_in_def)
    then show ?thesis using Upserting Nil assms(1) by simp
  next
    case (Cons inc rest)
    obtain e d1 where u: "UpsertIncident fault inc pid (res_StartedAt r) d = (e, d1)" by fastforce
    have p: "pending_poll r pid d0 d1"
      using pending_cong [OF UpsertIncident_polls, of r pid d0 fault inc pid "res_StartedAt r" d] u assms(1) Upserting
      by simp
    show ?thesis
    proof (cases e)
      case (Some m)
      then show ?thesis using Upserting Cons u p assms(1) by simp
    next
      case None
      have "inc_Source inc = res_Source r"
        using src assms(1) Upserting Cons by (auto simp: list_all_iff)
      then have "life_of (res_Source r) d1 iid = seen_or (iid \<in> set (ids @ [inc_IncidentID inc])) (life_of (res_Source r) d0 iid)" for iid
        using life_of_upsert [of fault inc pid "res_StartedAt r" d d1 "res_Source r" iid] u None assms(1) Upserting
        by (simp add: seen_or_def)
      then show ?thesis using Upserting Cons u p None assms(1) by simp
    qed
  qed
next
  case (Marking r' pid ids)
  obtain e d1 where m: "MarkMissing fault (res_Source r) (res_StartedAt r) ids d = (e, d1)" by fastforce
  have p: "pending_poll r pid d0 d1"
    using pending_cong [OF MarkMissing_polls, of r pid d0 fault "res_Source r" "res_StartedAt r" ids d] m assms(1) Marking
    by simp
  show ?thesis
  proof (cases e)
    case (Some x)
    then show ?thesis using Marking m p assms(1) by simp
  next
    case None
    have "iid \<in> set ids \<longleftrightarrow> observed_in r iid" for iid
      using assms(1) Marking by (simp add: observed_in_def)
    then have "life_of (res_Source r) d1 iid =
        seen_or (observed_in r iid) (map_option (mark_life (res_StartedAt r)) (life_of (res_Source r) d0 iid))" for iid
      using life_of_mark [of fault "res_Source r" "res_StartedAt r" ids d d1 iid] m None assms(1) Marking
      by (simp add: seen_or_def)
    then show ?thesis using Marking m p None assms(1) by simp
  qed
next
  case (Sweeping r' pid)
  obtain res d1 where s: "SweepCleared fault (res_Source r) N d = (res, d1)" by fastforce
  have p: "pending_poll r pid d0 d1"
    using pending_cong [OF SweepCleared_polls, of r pid d0 fault "res_Source r" N d] s assms(1) Sweeping by simp
  show ?thesis
  proof (cases res)
    case (Inl x)
    then show ?thesis using Sweeping s p assms(1) by simp
  next
    case (Inr cl)
    have "swept_lives N r d0 d1"
      unfolding swept_lives_def
    proof
      fix iid
      have "sweep_life N (polls_of (res_Source r) d) = sweep_life N (polls_of (res_Source r) d0)"
        by (rule sweep_pending [of r pid]) (use assms(1) Sweeping in simp)
      then show "life_of (res_Source r) d1 iid = seen_or (observed_in r iid)
          (map_option (sweep_life N (polls_of (res_Source r) d0) \<circ> mark_life (res_StartedAt r)) (life_of (res_Source r) d0 iid))"
        using life_of_sweep [of fault "res_Source r" N d cl d1 iid] s Inr assms(1) Sweeping
        by (simp add: seen_or_def option.map_comp sweep_life_def)
    qed
    then show ?thesis using Sweeping s p Inr assms(1) by simp
  qed
next
  case (Recording r' pid cleared)
  obtain e d1 where c: "RecordClearedEvents fault cleared pid d = (e, d1)" by fastforce
  have rows: "incidents d1 = incidents d" "source_polls d1 = source_polls d"
    using RecordClearedEvents_rows [of fault cleared pid d] c by simp_all
  have "reached N r d0 (Succeeding r pid) d1"
    using assms(1) Recording pending_cong [OF rows(2), of r pid d0] life_of_cong [OF rows(1)] by (simp add: swept_lives_def)
  then show ?thesis using Recording c assms(1) by (simp split: option.split)
next
  case (Succeeding r' pid)
  then have p: "r' = r" "pending_poll r pid d0 d" "swept_lives N r d0 d" using assms(1) by simp_all
  show ?thesis
  proof (cases "fault (MarkSucceededStmt pid) d")
    case (Some e)
    then show ?thesis
      using Succeeding p pending_polls by (simp add: finish_apply_def MarkPollSucceeded_def) (simp add: pending_poll_def)
  next
    case None
    let ?d1 = "d\<lparr>source_polls := update_where (\<lambda>p. sp_poll_id p = pid) (\<lambda>p. p\<lparr>sp_success := True, sp_error := None\<rparr>) (source_polls d)\<rparr>"
    have "life_of (res_Source r) ?d1 iid = life_of (res_Source r) d iid" for iid by (rule life_of_cong) simp
    then have "swept_lives N r d0 ?d1" using p(3) by (simp add: swept_lives_def)
    moreover have "\<exists>row. polls_of (res_Source r) ?d1 = polls_of (res_Source r) d0 @ [row] \<and> sp_success row \<and> sp_started_at row = res_StartedAt r"
      using pending_update [OF p(2), of "\<lambda>p. p\<lparr>sp_success := True, sp_error := None\<rparr>"] by auto
    moreover have "Success r" using p(2) by (simp add: pending_poll_def)
    ultimately show ?thesis using Succeeding None by (simp add: finish_apply_def MarkPollSucceeded_def)
  qed
next
  case (Failing r' pid e)
  then have p: "r' = r" "pending_poll r pid d0 d" using assms(1) by simp_all
  then have succ: "Success r" by (simp add: pending_poll_def)
  have "filter sp_success (polls_of (res_Source r) (snd (MarkPollFailed fault pid e d))) = filter sp_success (polls_of (res_Source r) d0)"
  proof (cases "fault (MarkFailedStmt pid) d")
    case (Some x)
    then show ?thesis using pending_polls [OF p(2)] by (simp add: MarkPollFailed_def)
  next
    case None
    then show ?thesis
      using pending_update [OF p(2), of "\<lambda>p. p\<lparr>sp_success := False, sp_error := nullif_empty e\<rparr>"]
      by (auto simp: MarkPollFailed_def)
  qed
  moreover obtain x where "fst (failPollApply fault pid e d) = Some x"
    using failPollApply_error [of fault pid e d] by blast
  ultimately show ?thesis using Failing succ by (simp add: failPollApply_snd)
next
  case (Finished e)
  then show ?thesis using assms by simp
qed

lemma finished_phase:
  assumes fin: "reached N r d0 (Finished None) d" and succ: "Success r"
    and fresh: "fresh_poll r d0" and ok: "lifecycle_ok d0"
  shows "phase_of (res_Source r) d iid = next_phase N (observed_in r iid) (phase_of (res_Source r) d0 iid)"
proof -
  let ?L = "polls_of (res_Source r) d0" and ?t = "res_StartedAt r"
  obtain row where row: "polls_of (res_Source r) d = ?L @ [row]" "sp_success row" "sp_started_at row = ?t"
    and lives: "swept_lives N r d0 d"
    using fin succ by auto
  have life: "life_of (res_Source r) d iid =
      seen_or (observed_in r iid) (map_option (sweep_life N ?L \<circ> mark_life ?t) (life_of (res_Source r) d0 iid))"
    using lives by (simp add: swept_lives_def)
  have none: "filter (\<lambda>p. sp_success p \<and> ?t \<le> sp_started_at p) ?L = []"
    using fresh by (auto simp: fresh_poll_def polls_of_def list_all_iff filter_empty_conv)
  show ?thesis
  proof (cases "observed_in r iid")
    case True
    then show ?thesis using life by (simp add: phase_of_life seen_or_def next_phase_def)
  next
    case unseen: False
    show ?thesis
    proof (cases "find_incident (res_Source r) iid d0")
      case None
      then have "life_of (res_Source r) d0 iid = None" by (simp add: life_of_def)
      then show ?thesis using life unseen by (simp add: phase_of_life seen_or_def next_phase_def)
    next
      case (Some old)
      then have l0: "life_of (res_Source r) d0 iid = Some (life old)" by (simp add: life_of_def)
      consider c where "ir_cleared_at old = Some c"
        | "ir_cleared_at old = None" "ir_missing_since old = None"
        | s where "ir_cleared_at old = None" "ir_missing_since old = Some s" by blast
      then show ?thesis
      proof cases
        case (1 c)
        then show ?thesis
          using life l0 unseen by (cases "ir_missing_since old")
            (simp_all add: phase_of_life seen_or_def next_phase_def life_def mark_life_def sweep_life_def)
      next
        case 2
        then show ?thesis
          using life l0 unseen row none
          by (simp add: phase_of_life seen_or_def next_phase_def life_def mark_life_def sweep_life_def)
      next
        case (3 s)
        have "s \<le> ?t"
          using missing_before [OF _ fresh Some 3(2)] ok by (simp add: lifecycle_ok_def less_imp_le)
        then show ?thesis
          using life l0 unseen row 3
          by (simp add: phase_of_life seen_or_def next_phase_def life_def mark_life_def sweep_life_def)
      qed
    qed
  qed
qed

lemma skipped_phase:
  assumes "reached N r d0 (Finished e) d" "\<not> Success r"
  shows "phase_of (res_Source r) d iid = phase_of (res_Source r) d0 iid"
proof -
  have count: "filter (\<lambda>p. sp_success p \<and> t \<le> sp_started_at p) ps = filter (\<lambda>p. sp_success p \<and> t \<le> sp_started_at p) qs"
    if "filter sp_success ps = filter sp_success qs" for t ps qs
    using arg_cong [OF that, of "filter (\<lambda>p. t \<le> sp_started_at p)"] unfolding filter_filter .
  have same: "life_phase ps l = life_phase qs l" if "filter sp_success ps = filter sp_success qs" for ps qs l
  proof (cases "\<exists>t. l = Some (Some t, None)")
    case True
    then show ?thesis using count [OF that] by (elim exE) (simp only: life_phase.simps)
  next
    case False
    then show ?thesis by (cases "(ps, l)" rule: life_phase.cases) simp_all
  qed
  have "filter sp_success (polls_of (res_Source r) d) = filter sp_success (polls_of (res_Source r) d0)"
    and life: "life_of (res_Source r) d = life_of (res_Source r) d0"
    using assms by simp_all
  from same [OF this(1)] show ?thesis unfolding phase_of_life life .
qed

section \<open>The interface of the other processes\<close>

text \<open>
  What the ingester needs of whatever else writes to its database, and what it has then: its invariant at
  every moment, and the machine as its result.
\<close>

locale tolerated =
  fixes other :: "database \<Rightarrow> database \<Rightarrow> bool" and src :: string
  assumes other_ok: "other d d' \<Longrightarrow> lifecycle_ok d \<Longrightarrow> lifecycle_ok d'"
    and other_polls: "other d d' \<Longrightarrow> set (source_polls d) \<subseteq> set (source_polls d')"
    and other_incidents: "other d d' \<Longrightarrow> incident_key ` set (incidents d) \<subseteq> incident_key ` set (incidents d')"
    and other_log: "other d d' \<Longrightarrow> polls_of src d' = polls_of src d"
    and other_life: "other d d' \<Longrightarrow> life_of src d' iid = life_of src d iid"
begin

lemma interleaved_ok:
  assumes "interleaved other N s t" "held (fst s) (snd s)" "lifecycle_ok (snd s)"
  shows "held (fst t) (snd t) \<and> lifecycle_ok (snd t)"
  using assms
proof (induction rule: interleaved.induct)
  case begun
  then show ?case by simp
next
  case (own s1 fault)
  then show ?case using advance_keeps [of "fst s1" "snd s1" N fault] by simp
next
  case (others a d d')
  then show ?case using held_mono [OF _ other_polls [OF others.hyps(2)] other_incidents [OF others.hyps(2)]] other_ok
    by simp
qed

lemma interleaved_reaches:
  assumes "interleaved other N (Beginning r, d0) t" "lifecycle_ok d0" "res_Source r = src"
    and "list_all (\<lambda>i. inc_Source i = res_Source r) (res_Incidents r)"
  shows "reached N r d0 (fst t) (snd t)"
  using assms(1)
proof (induction rule: interleaved.induct)
  case begun
  then show ?case by simp
next
  case (own s1 fault)
  have "lifecycle_ok (snd s1)" using interleaved_ok [OF own.hyps] assms(2) by simp
  then show ?case using advance_reaches [of N r d0 "fst s1" "snd s1" fault] own.IH assms(4) by simp
next
  case (others a d d')
  have "polls_of (res_Source r) d' = polls_of (res_Source r) d"
    "life_of (res_Source r) d' iid = life_of (res_Source r) d iid" for iid
    using other_log [OF others.hyps(2)] other_life [OF others.hyps(2)] assms(3) by simp_all
  from reached_cong [OF this] show ?case using others.IH by simp
qed

end

definition interleaved_apply ::
  "(database \<Rightarrow> database \<Rightarrow> bool) \<Rightarrow> int \<Rightarrow> string \<Rightarrow> database \<Rightarrow> PollResult \<Rightarrow> database \<Rightarrow> bool" where
  "interleaved_apply other N src d r d' \<longleftrightarrow>
     lifecycle_ok d \<and> res_Source r = src \<and> fresh_poll r d \<and>
     interleaved other N (Beginning r, d) (Finished None, d')"

sublocale tolerated \<subseteq> lives: incident_lifecycle N "phase_of src" "interleaved_apply other N src" Success observed_in for N
proof unfold_locales
  fix d d' :: database and r and i
  assume a: "interleaved_apply other N src d r d'"
  then have run: "interleaved other N (Beginning r, d) (Finished None, d')" and ok: "lifecycle_ok d"
    and src: "res_Source r = src" and fresh: "fresh_poll r d"
    by (simp_all add: interleaved_apply_def)
  have "list_all (\<lambda>i. inc_Source i = res_Source r) (res_Incidents r)" using fresh by (simp add: fresh_poll_def)
  from interleaved_reaches [OF run ok src this] have r: "reached N r d (Finished None) d'" by simp
  show "lifecycle_step N (phase_of src d i) (observed_in r i) (phase_of src d' i)" if "Success r"
    using finished_phase [OF r that fresh ok] src by (simp add: lifecycle_step_iff)
  show "phase_of src d' i = phase_of src d i" if "\<not> Success r"
    using skipped_phase [OF r that] src by simp
qed

interpretation processes: tolerated "background env" SourceName
proof unfold_locales
  fix d d' iid
  assume "background env d d'"
  then have h: "harmless d d'" by (rule background_harmless)
  have s: "SourceName \<noteq> sdr_source" by (simp add: SourceName_def sdr_source_def)
  show "lifecycle_ok d \<Longrightarrow> lifecycle_ok d'" "set (source_polls d) \<subseteq> set (source_polls d')"
    "incident_key ` set (incidents d) \<subseteq> incident_key ` set (incidents d')"
    "polls_of SourceName d' = polls_of SourceName d" "life_of SourceName d' iid = life_of SourceName d iid"
    using h s by (simp_all add: harmless_def)
qed

section \<open>The ingester among the other processes\<close>

lemma reached_uncounted:
  "reached N r d0 a d \<Longrightarrow> a \<noteq> Finished None \<or> \<not> Success r \<Longrightarrow>
   filter sp_success (polls_of (res_Source r) d) = filter sp_success (polls_of (res_Source r) d0)"
  by (cases a) (auto dest: pending_polls)

lemma ends_sometime: "\<exists>m out. ends N fault m (a, d) out"
proof (cases a)
  case (Beginning r)
  have "(advance N fault ^^ (length (res_Incidents r) + 6 + k)) (Beginning r, d) = map_prod Finished id (Apply fault N r d)" for k
    by (simp add: apply_steps_reach map_prod_def split_beta)
  then show ?thesis unfolding ends_def Beginning by blast
next
  case (Upserting r pid ids incs)
  show ?thesis unfolding Upserting by (intro exI) (rule ends_Upserting)
next
  case (Marking r pid ids)
  show ?thesis unfolding Marking by (intro exI) (rule ends_Marking)
next
  case (Sweeping r pid)
  show ?thesis unfolding Sweeping by (intro exI) (rule ends_Sweeping)
next
  case (Recording r pid cleared)
  show ?thesis unfolding Recording by (intro exI) (rule ends_Recording)
next
  case (Succeeding r pid)
  show ?thesis unfolding Succeeding by (intro exI) (rule ends_Succeeding)
next
  case (Failing r pid e)
  show ?thesis unfolding Failing by (intro exI) (rule ends_Failing)
next
  case (Finished e)
  show ?thesis unfolding Finished by (intro exI) (rule ends_Finished)
qed

text \<open>
  C11. Whatever the other processes do between the calls of an apply (passes of the dispatch worker, sweeps of
  the janitor, checks of the canary, new keys, backfills, requests to the API), and whatever statements
  fail: at every moment the tables keep their integrity, no poll of the source counts as successful that
  did not before, unless the apply has finished without an error, and the apply can still finish.
\<close>

theorem interleaved_apply_safe:
  assumes "interleaved (background env) N (Beginning r, d0) (a, d)" "lifecycle_ok d0"
    "res_Source r = SourceName" "list_all (\<lambda>i. inc_Source i = SourceName) (res_Incidents r)"
  shows "lifecycle_ok d \<and>
    (a = Finished None \<and> Success r \<or>
     filter sp_success (polls_of SourceName d) = filter sp_success (polls_of SourceName d0)) \<and>
    (\<exists>n e d'. (advance N fault ^^ n) (a, d) = (Finished e, d'))"
proof (intro conjI)
  show "lifecycle_ok d" using processes.interleaved_ok [OF assms(1)] assms(2) by simp
  have "reached N r d0 a d" using processes.interleaved_reaches [OF assms(1,2,3)] assms(3,4) by simp
  then show "a = Finished None \<and> Success r \<or>
      filter sp_success (polls_of SourceName d) = filter sp_success (polls_of SourceName d0)"
    using reached_uncounted [of N r d0 a d] assms(3) by auto
  obtain m out where "ends N fault m (a, d) out" using ends_sometime by blast
  then have "(advance N fault ^^ (m + 0)) (a, d) = map_prod Finished id out" unfolding ends_def by blast
  then show "\<exists>n e d'. (advance N fault ^^ n) (a, d) = (Finished e, d')" by (cases out) auto
qed

text \<open>
  C4. Polls that are applied one after the other while the other processes run between any two of their calls
  move every incident of the source as the machine does on the authoritative polls alone: an incident is
  active, missing or cleared as if the ingester had had the database to itself.
\<close>

theorem interleaved_polls_run_machine:
  assumes "steps (interleaved_apply (background env) N SourceName) d rs d'"
  shows "phase_of SourceName d' iid =
    run_phase N (map (\<lambda>r. observed_in r iid) (filter Success rs)) (phase_of SourceName d iid)"
  by (rule processes.lives.run_refines [OF assms])

lemma interleaved_own: "interleaved other N s ((advance N fault ^^ n) s)"
  by (induction n) (auto intro: interleaved.intros)

lemma swept_apply: "interleaved_apply (background sample_router) 1 SourceName showing_db (sample_result 160 [])
   (runSDRSweep no_faults 60 500 (snd (Apply no_faults 1 (sample_result 160 []) showing_db)))"
proof -
  let ?r = "sample_result 160 []"
  have fin: "fst (Apply no_faults 1 ?r showing_db) = None" by code_simp
  have src: "res_Source ?r = SourceName" "fresh_poll ?r showing_db" by code_simp+
  have "interleaved (background sample_router) 1 (Beginning ?r, showing_db)
      (Finished None, snd (Apply no_faults 1 ?r showing_db))"
    using interleaved_own [of "background sample_router" 1 "(Beginning ?r, showing_db)" "length (res_Incidents ?r) + 6 + 0" no_faults]
    unfolding apply_steps_reach fin .
  then show ?thesis
    using src showing_db_facts(1) by (auto simp: interleaved_apply_def intro: interleaved.others background.routine_step routine.sdr_sweep)
qed

theorem interleaved_polls_run_machine_witness:
  "phase_of SourceName (runSDRSweep no_faults 60 500 (snd (Apply no_faults 1 (sample_result 160 []) showing_db))) ''F1'' = Missing 1"
proof -
  have run: "steps (interleaved_apply (background sample_router) 1 SourceName) showing_db [sample_result 160 []]
      (runSDRSweep no_faults 60 500 (snd (Apply no_faults 1 (sample_result 160 []) showing_db)))"
    using swept_apply by (rule steps_cons) (rule steps_nil)
  have "run_phase 1 (map (\<lambda>r. observed_in r ''F1'') (filter Success [sample_result 160 []])) Seen = Missing 1"
    by code_simp
  then show ?thesis
    using interleaved_polls_run_machine [OF run, of "''F1''"] showing_db_facts(2) by (simp add: SourceName_def)
qed

theorem interleaved_apply_safe_witness:
  "lifecycle_ok (runSDRSweep no_faults 60 500 (snd (advance 1 no_faults (Beginning (sample_result 160 []), showing_db))))"
proof -
  let ?s = "(Beginning (sample_result 160 []), showing_db)"
  have "interleaved (background sample_router) 1 ?s (fst (advance 1 no_faults ?s), snd (advance 1 no_faults ?s))"
    unfolding prod.collapse by (rule interleaved.own [OF interleaved.begun])
  then have "interleaved (background sample_router) 1 ?s
      (fst (advance 1 no_faults ?s), runSDRSweep no_faults 60 500 (snd (advance 1 no_faults ?s)))"
    by (rule interleaved.others) (rule background.routine_step [OF routine.sdr_sweep])
  moreover have "res_Source (sample_result 160 []) = SourceName"
    "list_all (\<lambda>i. inc_Source i = SourceName) (res_Incidents (sample_result 160 []))"
    by code_simp+
  ultimately show ?thesis using interleaved_apply_safe showing_db_facts(1) by blast
qed

end
