(* ===== verification/Request_Reads.thy ===== *)
theory Request_Reads
  imports Concurrency
begin

text \<open>
  Requests as sequences of queries (\<^verbatim>\<open>GetIncidentDetail\<close> and \<^verbatim>\<open>ListActiveIncidents\<close> of
  \<^verbatim>\<open>internal/store/store.go\<close>, with the handlers of \<^verbatim>\<open>internal/api\<close> that call them). The queries of one
  request run outside any transaction, each on the tables as it finds them: between two of them the
  ingester, the dispatch worker and the other processes go on. What such a torn answer still promises.
\<close>

section \<open>What a running service never takes back\<close>

definition interval_of :: "incident_unit \<Rightarrow> string \<times> string \<times> string \<times> string" where
  "interval_of u = (iu_source u, iu_incident_id u, iu_unit u, iu_status u)"

definition intervals :: "database \<Rightarrow> (string \<times> string \<times> string \<times> string) set" where
  "intervals d = interval_of ` set (incident_units d)"

text \<open>Each named unit of a row has an interval with its status in the history of the incident.\<close>

definition row_recorded :: "(string \<times> string \<times> string \<times> string) set \<Rightarrow> incident_row \<Rightarrow> bool" where
  "row_recorded K r \<longleftrightarrow>
     list_all (\<lambda>u. unit_Unit u = [] \<or> (ir_source r, ir_incident_id r, unit_Unit u, unit_Status u) \<in> K) (ir_units r)"

definition recorded :: "database \<Rightarrow> bool" where
  "recorded d \<longleftrightarrow> list_all (row_recorded (intervals d)) (incidents d)"

text \<open>
  A change that removes no incident, no interval and no event, and leaves every snapshot recorded.
\<close>

definition grows :: "database \<Rightarrow> database \<Rightarrow> bool" where
  "grows d d' \<longleftrightarrow>
     (recorded d \<longrightarrow> recorded d') \<and> intervals d \<subseteq> intervals d' \<and>
     set (incident_events d) \<subseteq> set (incident_events d') \<and>
     incident_key ` set (incidents d) \<subseteq> incident_key ` set (incidents d')"

lemma grows_refl [simp]: "grows d d"
  by (simp add: grows_def)

lemma grows_trans: "grows d d1 \<Longrightarrow> grows d1 d2 \<Longrightarrow> grows d d2"
  unfolding grows_def by (metis order.trans)

lemma row_recorded_mono: "row_recorded K r \<Longrightarrow> K \<subseteq> L \<Longrightarrow> row_recorded L r"
  by (auto simp: row_recorded_def list_all_iff)

lemma recorded_mono:
  "list_all (row_recorded (intervals d)) rs \<Longrightarrow> intervals d \<subseteq> intervals d' \<Longrightarrow> list_all (row_recorded (intervals d')) rs"
  by (auto simp: list_all_iff intro: row_recorded_mono)

lemma intervals_cong: "incident_units d' = incident_units d \<Longrightarrow> intervals d' = intervals d"
  by (simp add: intervals_def)

text \<open>A change that leaves the incidents and their histories alone.\<close>

lemma grows_same:
  assumes "incidents d' = incidents d" "incident_units d' = incident_units d" "incident_events d' = incident_events d"
  shows "grows d d'"
  using assms by (simp add: grows_def recorded_def intervals_cong [OF assms(2)])

lemma grows_events:
  assumes "d' = d\<lparr>incident_events := incident_events d @ es, seq_event := n\<rparr>"
  shows "grows d d'"
  by (simp add: assms grows_def recorded_def intervals_def)

text \<open>A change row by row that leaves the keys and the units.\<close>

lemma grows_map:
  assumes "incidents d' = map f (incidents d)" "incident_units d' = incident_units d"
    "incident_events d' = incident_events d"
    and "\<And>r. incident_key (f r) = incident_key r" "\<And>r. ir_units (f r) = ir_units r"
  shows "grows d d'"
proof -
  have "row_recorded K (f r) = row_recorded K r" for K r
    using assms(4) [of r] assms(5) [of r] by (simp add: row_recorded_def incident_key_def)
  then have "recorded d' = recorded d"
    by (simp add: recorded_def assms(1) intervals_cong [OF assms(2)] list_all_iff)
  moreover have "incident_key ` set (incidents d') = incident_key ` set (incidents d)"
    by (simp add: assms(1,4) image_image)
  ultimately show ?thesis by (simp add: grows_def intervals_cong [OF assms(2)] assms(3))
qed

lemma update_as_map: "update_where q f xs = map (\<lambda>r. if q r then f r else r) xs"
  by (simp add: update_where_def)

lemma grows_update:
  assumes "\<And>r. ir_source (f r) = ir_source r" "\<And>r. ir_incident_id (f r) = ir_incident_id r" "\<And>r. ir_units (f r) = ir_units r"
  shows "grows d (d\<lparr>incidents := update_where q f (incidents d)\<rparr>)"
  by (rule grows_map [of _ "\<lambda>r. if q r then f r else r"]) (simp_all add: update_as_map assms incident_key_def)

section \<open>The calls of an apply\<close>

lemma sync_unit_intervals:
  assumes "sync_unit fault pu inc pid ot u d = Inr d'"
  shows "intervals d \<subseteq> intervals d' \<and>
    (unit_Unit u = [] \<or> (inc_Source inc, inc_IncidentID inc, unit_Unit u, unit_Status u) \<in> intervals d')"
proof -
  let ?l = "latest_interval (inc_Source inc) (inc_IncidentID inc) (unit_Unit u) d"
  have ext: "intervals (extend_interval i pid ot d) = intervals d" for i
  proof -
    have "map interval_of (incident_units (extend_interval i pid ot d)) = map interval_of (incident_units d)"
      by (simp add: extend_interval_def update_as_map interval_of_def)
    from arg_cong [OF this, of set] show ?thesis by (simp add: intervals_def)
  qed
  consider "unit_Unit u = []" "d' = d" | "unit_Unit u \<noteq> []" "d' = insertUnitInterval inc u pid ot d"
    | r where "unit_Unit u \<noteq> []" "?l = Some r" "iu_status r = unit_Status u" "d' = extend_interval (iu_id r) pid ot d"
    using assms by (auto simp: sync_unit_def Let_def split: option.splits if_splits)
  then show ?thesis
  proof cases
    case 2
    then show ?thesis by (auto simp: insertUnitInterval_def intervals_def interval_of_def)
  next
    case 3
    then have "r \<in> set (incident_units d)" "interval_of r = (inc_Source inc, inc_IncidentID inc, unit_Unit u, unit_Status u)"
      using latest_interval_in [OF 3(2)] 3(3) by (auto simp: interval_of_def)
    then have "(inc_Source inc, inc_IncidentID inc, unit_Unit u, unit_Status u) \<in> intervals d"
      unfolding intervals_def by (metis image_eqI)
    then show ?thesis using 3(4) ext by simp
  qed simp
qed

lemma sync_units_intervals:
  "sync_units fault pu inc pid ot us d = Inr d' \<Longrightarrow>
   intervals d \<subseteq> intervals d' \<and>
   list_all (\<lambda>u. unit_Unit u = [] \<or> (inc_Source inc, inc_IncidentID inc, unit_Unit u, unit_Status u) \<in> intervals d') us"
proof (induction us arbitrary: d)
  case (Cons u us)
  then obtain d1 where d1: "sync_unit fault pu inc pid ot u d = Inr d1"
    "sync_units fault pu inc pid ot us d1 = Inr d'"
    by (auto split: sum.splits)
  show ?case using sync_unit_intervals [OF d1(1)] Cons.IH [OF d1(2)] by auto
qed simp

lemma UpsertIncident_grows: "grows d (snd (UpsertIncident fault inc pid ot d))"
proof (cases "UpsertIncident fault inc pid ot d")
  case (Pair e d')
  show ?thesis
  proof (cases e)
    case (Some m)
    then show ?thesis using Pair UpsertIncident_failed by fastforce
  next
    case None
    let ?d1 = "upsertIncidentSnapshot inc pid ot d"
    from Pair None have "UpsertIncident fault inc pid ot d = (None, d')" by simp
    then obtain d2 where d2: "syncUnitHistory fault (loadPriorIncident (inc_Source inc) (inc_IncidentID inc) d) inc pid ot ?d1 = Inr d2"
      "writeUpsertEvent fault (loadPriorIncident (inc_Source inc) (inc_IncidentID inc) d) inc pid ot d2 = Inr d'"
      by (rule UpsertIncident_committed)
    have ev: "grows d2 d'"
      using writeUpsertEvent_frame [OF d2(2)] by (auto split: option.splits intro: grows_events)
    note s = sync_units_intervals [OF d2(1) [unfolded syncUnitHistory_def Let_def]]
    have u1: "intervals ?d1 = intervals d" by (rule intervals_cong) (simp add: upsertIncidentSnapshot_frame)
    have fr: "incidents d2 = incidents ?d1" "incident_events d2 = incident_events d"
      using sync_units_frame [OF d2(1) [unfolded syncUnitHistory_def Let_def]] by (auto simp: upsertIncidentSnapshot_frame)
    have new: "row_recorded (intervals d2) (inserted_row i inc pid ot)" for i
      using s by (simp add: row_recorded_def inserted_row_def)
    have old: "row_recorded (intervals d2) (conflict_row inc pid ot r)"
      if "ir_source r = inc_Source inc" "ir_incident_id r = inc_IncidentID inc" for r
      using s that by (simp add: row_recorded_def conflict_row_def)
    have "recorded d2" if "recorded d"
    proof -
      have "list_all (row_recorded (intervals d2)) (incidents d)"
        using recorded_mono [of d "incidents d" d2] that s u1 by (simp add: recorded_def)
      then show ?thesis
        unfolding recorded_def fr(1) upsertIncidentSnapshot_def
        using new old by (auto simp: list_all_iff update_as_map split: option.split)
    qed
    moreover have "map incident_key (update_where q (conflict_row inc pid ot) rows) = map incident_key rows" for q rows
      by (rule map_update_where) simp
    note keys = arg_cong [OF this, of set]
    have "incident_key ` set (incidents d) \<subseteq> incident_key ` set (incidents d2)"
      unfolding fr(1) upsertIncidentSnapshot_def using keys by (auto split: option.split)
    ultimately have "grows d d2" using s u1 fr(2) by (simp add: grows_def)
    then show ?thesis using ev Pair grows_trans by simp
  qed
qed

lemma MarkMissing_grows: "grows d (snd (MarkMissing fault src ot ids d))"
  by (auto simp: MarkMissing_def split: option.split intro!: grows_update)

lemma SweepCleared_grows: "grows d (snd (SweepCleared fault src N d))"
  by (auto simp: SweepCleared_def Let_def split: option.split intro!: grows_update)

lemma RecordClearedEvents_grows: "grows d (snd (RecordClearedEvents fault cleared pid d))"
  by (auto simp: RecordClearedEvents_def split: option.split sum.split dest!: write_cleared_frame intro: grows_events)

lemma polls_grow: "grows d (snd (recordPoll fault r s m d))" "grows d (snd (MarkPollSucceeded fault pid d))"
  "grows d (snd (MarkPollFailed fault pid e d))"
  by (auto simp: recordPoll_def MarkPollSucceeded_def MarkPollFailed_def Let_def split: option.split intro: grows_same)

lemma advance_grows: "grows d (snd (advance N fault (a, d)))"
proof (cases a)
  case (Beginning r)
  then show ?thesis
    using polls_grow(1) [of d fault r]
    by (auto simp: RecordPoll_def RecordPollPending_def split: prod.split sum.split) (metis snd_conv)+
next
  case (Upserting r pid ids incs)
  then show ?thesis
    using UpsertIncident_grows [of d fault _ pid "res_StartedAt r"]
    by (cases incs) (auto split: prod.split option.split, (metis snd_conv)+)
next
  case (Marking r pid ids)
  then show ?thesis
    using MarkMissing_grows [of d fault "res_Source r" "res_StartedAt r" ids] by (auto split: prod.split option.split)
next
  case (Sweeping r pid)
  then show ?thesis
    using SweepCleared_grows [of d fault "res_Source r" N] by (auto split: prod.split sum.split)
next
  case (Recording r pid cleared)
  then show ?thesis
    using RecordClearedEvents_grows [of d fault cleared pid] by (auto split: prod.split option.split)
next
  case (Succeeding r pid)
  then show ?thesis using polls_grow(2) by (simp add: finish_apply_snd)
next
  case (Failing r pid e)
  then show ?thesis using polls_grow(3) by (simp add: failPollApply_snd)
qed simp


section \<open>The other processes\<close>

lemma upsert_sdr_grows:
  assumes "list_all (\<lambda>u. unit_Unit u = [] \<or> (ir_source new, ir_incident_id new, unit_Unit u, unit_Status u) \<in> K) (ir_units new)"
    and "list_all (row_recorded K) (incidents d)"
  shows "list_all (row_recorded K) (incidents (snd (upsert_sdr new d)))"
proof -
  have "row_recorded K new" "row_recorded K (sdr_conflict_row new r)" for r
    using assms(1) by (simp_all add: row_recorded_def sdr_conflict_row_def)
  then show ?thesis
    using assms(2) by (auto simp: upsert_sdr_def list_all_iff set_update_where split: option.split)
qed

lemma insert_sdr_units_intervals:
  "insert_sdr_units ps iid now pid us d = Inr d' \<Longrightarrow>
   intervals d \<subseteq> intervals d' \<and>
   list_all (\<lambda>u. (sdr_source, iid, eu_UnitName u, ''Dispatched'') \<in> intervals d') us \<and>
   incident_events d' = incident_events d \<and> incidents d' = incidents d"
proof (induction us arbitrary: d)
  case (Cons u us)
  let ?d = "d\<lparr>incident_units := incident_units d @
                 [\<lparr>iu_id = seq_unit d, iu_source = sdr_source, iu_incident_id = iid,
                   iu_unit = eu_UnitName u, iu_status = ''Dispatched'', iu_first_observed_at = now,
                   iu_last_observed_at = now, iu_first_poll_id = pid, iu_last_poll_id = pid\<rparr>],
               seq_unit := seq_unit d + 1\<rparr>"
  have "insert_sdr_units ps iid now pid us ?d = Inr d'" using Cons.prems by (auto split: option.splits)
  moreover have "intervals ?d = insert (sdr_source, iid, eu_UnitName u, ''Dispatched'') (intervals d)"
    by (simp add: intervals_def interval_of_def)
  ultimately show ?case using Cons.IH [of ?d] by auto
qed simp

lemma insertIncident_grows:
  assumes "insertIncident ps row p g d = Inr (i, d')"
  shows "grows d d'"
  using assms
proof (cases rule: insertIncident_elim)
  case (1 d1 d2)
  let ?new = "sdr_row (seq_incident d) row p g (ps_insert_now ps) (seq_poll d)"
  let ?iid = "sdr_incident_id (tr_ID row)"
  have new: "ir_source ?new = sdr_source" "ir_incident_id ?new = ?iid" "ir_missing_since ?new = None"
    "ir_units ?new = incidentUnitsJSON (pd_Units p)"
    by (simp_all add: sdr_row_def)
  have d2: "d2 = snd (upsert_sdr ?new d1)" using 1(2) by simp
  have d1: "incidents d1 = incidents d" "incident_units d1 = incident_units d" "incident_events d1 = incident_events d"
    by (simp_all add: 1(1))
  have fr: "incident_units d2 = incident_units d" "incident_events d2 = incident_events d"
    using upsert_sdr_frame [of ?new d1] d1 d2 by auto
  note us = insert_sdr_units_intervals [OF 1(3)]
  have sub: "intervals d \<subseteq> intervals d'" using us intervals_cong [OF fr(1)] by simp
  have "list_all (\<lambda>u. unit_Unit u = [] \<or> (ir_source ?new, ir_incident_id ?new, unit_Unit u, unit_Status u) \<in> intervals d') (ir_units ?new)"
    unfolding new using us by (auto simp: incidentUnitsJSON_def list_all_iff)
  from upsert_sdr_grows [OF this, of d1] have "recorded d'" if "recorded d"
    using that recorded_mono [OF _ sub] us d1 d2 by (simp add: recorded_def)
  moreover have "incident_key ` set (incidents d) \<subseteq> incident_key ` set (incidents d')"
    using upsert_sdr_rows(1) [OF new(3), of d1] us d1 d2 by simp
  ultimately show ?thesis using sub us fr by (simp add: grows_def)
qed

lemma sweeps_grow: "grows d (runRawSweep fault retention now d)" "grows d (runSDRSweep fault window now d)"
proof -
  have g: "grows d d'" if "sweeps_rows f d d'" "\<And>r. ir_units (f r) = ir_units r" for f d'
    using that by (intro grows_map [of _ f]) (simp_all add: sweeps_rows_def)
  have "ir_units (dropped c now r) = ir_units r" "ir_units (sdr_cleared c now r) = ir_units r" for c r
    by (simp_all add: dropped_def sdr_cleared_def)
  then show "grows d (runRawSweep fault retention now d)" "grows d (runSDRSweep fault window now d)"
    using runRawSweep_rows [of now retention d fault] runSDRSweep_rows [of now window d fault] g by auto
qed

interpretation growing: kept grows
  by unfold_locales (auto simp: sweeps_grow intro: grows_trans grows_same insertIncident_grows)

text \<open>
  A step of the running service: a call of an apply, wherever the apply stands, or a routine step of another
  process. The whole system has the backfills too, an operator's tool.
\<close>

inductive service :: "'b router_env \<Rightarrow> int \<Rightarrow> database \<Rightarrow> database \<Rightarrow> bool" for env N where
  apply_call: "service env N d (snd (advance N fault (a, d)))"
| beside: "routine env d d' \<Longrightarrow> service env N d d'"

inductive operated :: "'b router_env \<Rightarrow> int \<Rightarrow> database \<Rightarrow> database \<Rightarrow> bool" for env N where
  served: "service env N d d' \<Longrightarrow> operated env N d d'"
| mended: "list_all (known_row d) rows \<Longrightarrow> backfill_rows fault rc rows (empty_summary, d) = Inr (s, d') \<Longrightarrow>
    operated env N d d'"

lemma service_grows: "service env N d d' \<Longrightarrow> grows d d'"
  by (induction rule: service.induct) (simp_all add: advance_grows growing.kept_routine)

text \<open>A backfill replaces intervals, and still leaves every snapshot recorded.\<close>

lemma interval_history: "(src, iid, n, st) \<in> intervals d \<longleftrightarrow> (n, st) \<in> (\<lambda>f. (fst f, fst (snd f))) ` set (history (src, iid) d)"
  by (auto simp: intervals_def interval_of_def history_def unit_facts_def image_iff)

lemma backfill_row_recorded:
  assumes "backfill_row fault rc row (s, d) = Inr (s', d')" "recorded d"
  shows "recorded d'"
proof -
  have "row_recorded (intervals d') (patch_row rc row r)" if r: "row_recorded (intervals d) r" for r
  proof (cases "incident_key r = incident_key row \<and> payload_units rc row \<noteq> None")
    case True
    then obtain units where u: "payload_units rc row = Some units" by blast
    have "history (ir_source r, ir_incident_id r) d' = rebuilt_history row units"
      using backfill_row_history [OF assms(1), of "incident_key r"] True u by (simp add: incident_key_def)
    moreover have "ir_units (patch_row rc row r) = units" using True u by (simp add: patch_row_def)
    moreover have "ir_source (patch_row rc row r) = ir_source r" "ir_incident_id (patch_row rc row r) = ir_incident_id r"
      using patch_row_key(1) [of rc row r] by (simp_all add: incident_key_def)
    ultimately show ?thesis
      by (auto simp: row_recorded_def interval_history rebuilt_history_def list_all_iff image_iff)
  next
    case False
    then have "patch_row rc row r = r" by (auto simp: patch_row_def split: option.split)
    moreover have "history (incident_key r) d' = history (incident_key r) d"
      using backfill_row_history [OF assms(1), of "incident_key r"] False by (auto split: option.splits)
    ultimately show ?thesis
      using r by (simp add: row_recorded_def interval_history incident_key_def)
  qed
  then show ?thesis
    using assms(2) by (simp add: recorded_def backfill_row_incidents [OF assms(1)] list_all_iff)
qed

lemma backfill_rows_recorded:
  "backfill_rows fault rc rows (s, d) = Inr (s', d') \<Longrightarrow> recorded d \<Longrightarrow> recorded d'"
proof (induction rows arbitrary: s d)
  case (Cons row rows)
  then obtain s1 d1 where "backfill_row fault rc row (s, d) = Inr (s1, d1)"
    "backfill_rows fault rc rows (s1, d1) = Inr (s', d')"
    by (auto split: sum.splits)
  then show ?case using backfill_row_recorded Cons by blast
qed simp

lemma operated_recorded: "operated env N d d' \<Longrightarrow> recorded d \<Longrightarrow> recorded d'"
  by (induction rule: operated.induct) (auto dest: service_grows backfill_rows_recorded simp: grows_def)

lemma empty_recorded: "recorded empty_db"
  by (simp add: recorded_def empty_db_def)

lemma reached_recorded: "(operated env N)\<^sup>*\<^sup>* empty_db d \<Longrightarrow> recorded d"
  by (induction rule: rtranclp_induct) (simp_all add: empty_recorded operated_recorded)

text \<open>
  C12. At every moment of the system's life, from empty tables on, each unit that the snapshot of an incident
  names has an interval with its status in the history of that incident, whatever the processes do, whatever
  fails and wherever the ingester stands.
\<close>

theorem snapshots_recorded:
  assumes "(operated env N)\<^sup>*\<^sup>* empty_db d" "r \<in> set (incidents d)" "u \<in> set (ir_units r)" "unit_Unit u \<noteq> []"
  shows "\<exists>h \<in> set (incident_units d). iu_source h = ir_source r \<and> iu_incident_id h = ir_incident_id r \<and>
    iu_unit h = unit_Unit u \<and> iu_status h = unit_Status u"
proof -
  have "row_recorded (intervals d) r" using reached_recorded [OF assms(1)] assms(2) by (simp add: recorded_def list_all_iff)
  then have "(ir_source r, ir_incident_id r, unit_Unit u, unit_Status u) \<in> intervals d"
    using assms(3,4) by (auto simp: row_recorded_def list_all_iff)
  then show ?thesis by (auto simp: intervals_def interval_of_def)
qed

section \<open>A request, query by query\<close>

text \<open>
  A request stands between two of its queries, or has its answer. Each query finds its own tables, its own
  clock and faults of its own; the other processes may have moved on since the query before.
\<close>

inductive torn ::
  "(database \<Rightarrow> database \<Rightarrow> bool) \<Rightarrow> (faults \<Rightarrow> time \<Rightarrow> database \<Rightarrow> 'q \<Rightarrow> 'q) \<Rightarrow> 'q \<times> database \<Rightarrow> 'q \<times> database \<Rightarrow> bool"
  for moves query s where
  received: "torn moves query s s"
| asked: "torn moves query s (q, d) \<Longrightarrow> torn moves query s (query fault now d q, d)"
| meanwhile: "torn moves query s (q, d) \<Longrightarrow> moves d d' \<Longrightarrow> torn moves query s (q, d')"

subsection \<open>The detail of one incident\<close>

datatype detail_query =
    AskMeta
  | AskIncident StalenessMeta
  | AskUnits StalenessMeta IncidentDetail
  | AskEvents StalenessMeta IncidentDetail "UnitObservation list"
  | Detailed "error + IncidentDetailResult"

fun query_detail :: "string \<Rightarrow> string \<Rightarrow> faults \<Rightarrow> time \<Rightarrow> database \<Rightarrow> detail_query \<Rightarrow> detail_query" where
  "query_detail src iid fault now d AskMeta =
     (case activeStalenessMeta fault now d of Inl e \<Rightarrow> Detailed (Inl e) | Inr m \<Rightarrow> AskIncident m)"
| "query_detail src iid fault now d (AskIncident m) =
     (case getIncident fault src iid d of
        Inl e \<Rightarrow> Detailed (Inl e)
      | Inr None \<Rightarrow>
          Detailed (Inr \<lparr>dr_Meta = m, dr_Incident = None, dr_UnitHistory = [], dr_Events = []\<rparr>)
      | Inr (Some incident) \<Rightarrow> AskUnits m incident)"
| "query_detail src iid fault now d (AskUnits m incident) =
     (case getUnitHistory fault src iid d of
        Inl e \<Rightarrow> Detailed (Inl e) | Inr units \<Rightarrow> AskEvents m incident units)"
| "query_detail src iid fault now d (AskEvents m incident units) =
     (case getIncidentEvents fault src iid d of
        Inl e \<Rightarrow> Detailed (Inl e)
      | Inr events \<Rightarrow>
          Detailed (Inr \<lparr>dr_Meta = m, dr_Incident = Some incident, dr_UnitHistory = units, dr_Events = events\<rparr>))"
| "query_detail src iid fault now d (Detailed x) = Detailed x"

text \<open>What the handler makes of the outcome.\<close>

definition answer_detail ::
  "api_env \<Rightarrow> http_request \<Rightarrow> error + IncidentDetailResult \<Rightarrow> payload http_response" where
  "answer_detail env r outcome =
     (case outcome of
        Inl e \<Rightarrow> writeError 500 ''query incident detail''
      | Inr result \<Rightarrow>
          (case dr_Incident result of
             None \<Rightarrow> writeError 404 ''incident not found''
           | Some inc \<Rightarrow> writeJSON 200 (Body (DetailPayload (build_detail (ap_cfg env) (hr_now r) result inc)))))"

lemma detail_queries: "(query_detail src iid fault now d ^^ 4) AskMeta = Detailed (GetIncidentDetail fault now src iid d)"
proof -
  have f: "(f ^^ 4) x = f (f (f (f x)))" for f :: "'a \<Rightarrow> 'a" and x by (simp add: eval_nat_numeral)
  show ?thesis
    unfolding f GetIncidentDetail_def by (simp split: sum.split option.split)
qed

text \<open>
  The four queries of a detail request make up its handler: asked of tables that nothing changes in
  between, they end with the outcome from which the handler builds its answer.
\<close>

theorem detail_handler_in_queries:
  assumes "src \<noteq> []" "iid \<noteq> []"
  shows "\<exists>outcome.
    (query_detail src iid (ap_faults env) (hr_now r) (sv_db s) ^^ 4) AskMeta = Detailed outcome \<and>
    incidentDetailHandler env src iid r s = (answer_detail env r outcome, s)"
  using assms
  by (simp add: detail_queries incidentDetailHandler_def answer_detail_def split: sum.split option.split)


subsection \<open>What a torn answer promises\<close>

definition tracked :: "IncidentDetail \<Rightarrow> UnitObservation list \<Rightarrow> bool" where
  "tracked incident units \<longleftrightarrow>
     list_all (\<lambda>u. unit_Unit u = [] \<or> list_ex (\<lambda>h. uo_Unit h = unit_Unit u \<and> uo_Status h = unit_Status u) units)
       (de_Units incident)"

text \<open>What a request knows, once it has begun over the tables \<^verbatim>\<open>d0\<close> and while the tables grow.\<close>

fun informed :: "string \<Rightarrow> string \<Rightarrow> database \<Rightarrow> database \<Rightarrow> detail_query \<Rightarrow> bool" where
  "informed src iid d0 d AskMeta = grows d0 d"
| "informed src iid d0 d (AskIncident m) = grows d0 d"
| "informed src iid d0 d (AskUnits m inc) =
     (grows d0 d \<and> de_Source inc = src \<and> de_IncidentID inc = iid \<and>
      list_all (\<lambda>u. unit_Unit u = [] \<or> (src, iid, unit_Unit u, unit_Status u) \<in> intervals d) (de_Units inc))"
| "informed src iid d0 d (AskEvents m inc units) =
     (grows d0 d \<and> de_Source inc = src \<and> de_IncidentID inc = iid \<and> tracked inc units)"
| "informed src iid d0 d (Detailed outcome) =
     (case outcome of
        Inl e \<Rightarrow> True
      | Inr res \<Rightarrow>
          (case dr_Incident res of
             None \<Rightarrow> find_incident src iid d0 = None
           | Some inc \<Rightarrow>
               de_Source inc = src \<and> de_IncidentID inc = iid \<and> tracked inc (dr_UnitHistory res) \<and>
               list_all (\<lambda>e. ev_source e = src \<and> ev_incident_id e = iid \<longrightarrow> ev_id e \<in> ie_ID ` set (dr_Events res))
                 (incident_events d0)))"

lemma history_tracks:
  assumes "getUnitHistory fault src iid d = Inr units"
    and "list_all (\<lambda>u. unit_Unit u = [] \<or> (src, iid, unit_Unit u, unit_Status u) \<in> intervals d) (de_Units inc)"
  shows "tracked inc units"
proof -
  have units: "(\<lambda>h. (uo_Unit h, uo_Status h)) ` set units =
      (\<lambda>u. (iu_unit u, iu_status u)) ` {u \<in> set (incident_units d). iu_source u = src \<and> iu_incident_id u = iid}"
    using assms(1) by (auto simp: getUnitHistory_def read_query_def image_image split: option.splits)
  have "list_ex (\<lambda>h. uo_Unit h = n \<and> uo_Status h = st) units" if i: "(src, iid, n, st) \<in> intervals d" for n st
  proof -
    have "(n, st) \<in> (\<lambda>h. (uo_Unit h, uo_Status h)) ` set units"
      using i unfolding units by (auto simp: intervals_def interval_of_def)
    then show ?thesis by (auto simp: list_ex_iff)
  qed
  then show ?thesis using assms(2) by (auto simp: tracked_def list_all_iff)
qed

lemma query_informed:
  assumes "informed src iid d0 d q" "recorded d0"
  shows "informed src iid d0 d (query_detail src iid fault now d q)"
proof (cases q)
  case AskMeta
  then show ?thesis using assms(1) by (simp split: sum.split)
next
  case (AskIncident m)
  have d: "recorded d" "incident_key ` set (incidents d0) \<subseteq> incident_key ` set (incidents d)"
    using assms AskIncident by (simp_all add: grows_def)
  show ?thesis
  proof (cases "find_incident src iid d")
    case None
    have "find_incident src iid d0 = None"
      unfolding find_incident_None using subsetD [OF d(2)] None [unfolded find_incident_None] by (rule contrapos_nn [rotated])
    then show ?thesis using None AskIncident by (simp add: getIncident_def read_query_def split: option.split)
  next
    case (Some r)
    then have r: "r \<in> set (incidents d)" "ir_source r = src" "ir_incident_id r = iid"
      using find_incident_SomeD by blast+
    then have "row_recorded (intervals d) r" using d(1) by (simp add: recorded_def list_all_iff)
    then show ?thesis
      using Some r assms(1) AskIncident by (simp add: getIncident_def read_query_def row_recorded_def split: option.split)
  qed
next
  case (AskUnits m inc)
  then show ?thesis
    using assms(1) history_tracks by (auto split: sum.split)
next
  case (AskEvents m inc units)
  then show ?thesis
    using assms(1)
    by (auto simp: getIncidentEvents_def read_query_def list_all_iff grows_def image_iff split: option.split)
next
  case (Detailed outcome)
  then show ?thesis using assms(1) by simp
qed

lemma grown_informed:
  assumes "informed src iid d0 d q" "grows d d'"
  shows "informed src iid d0 d' q"
  using assms(1)
proof (cases q)
  case (AskUnits m inc)
  then show ?thesis
    using assms grows_trans [OF _ assms(2), of d0] by (auto simp: list_all_iff grows_def)
qed (use grows_trans [OF _ assms(2), of d0] in auto)

locale watched =
  fixes moves :: "database \<Rightarrow> database \<Rightarrow> bool"
  assumes moves_grow: "moves d d' \<Longrightarrow> grows d d'"
begin

lemma torn_informed:
  assumes "torn moves (query_detail src iid) (AskMeta, d0) (q, d)" "recorded d0"
  shows "informed src iid d0 d q"
  using assms(1)
proof (induction "(q, d)" arbitrary: q d rule: torn.induct)
  case received
  then show ?case by simp
next
  case (asked q d fault now)
  then show ?case using query_informed assms(2) by blast
next
  case (meanwhile q d d')
  then show ?case using grown_informed moves_grow by blast
qed

end

interpretation running: watched "service env N" for env N
  by unfold_locales (rule service_grows)


text \<open>
  C13. A torn answer about an incident, whatever the running service does between the four queries of the
  request: an incident that was there when the request began is never reported as not found; the unit
  history in the answer has an interval with the unit and the status of each unit the answer's snapshot
  names; and every event of the incident from before the request is in the answer.
\<close>

theorem torn_detail_consistent:
  assumes "(operated env N)\<^sup>*\<^sup>* empty_db d0"
    and "torn (service env N) (query_detail src iid) (AskMeta, d0) (Detailed (Inr result), d)"
  shows "case dr_Incident result of
      None \<Rightarrow> find_incident src iid d0 = None
    | Some incident \<Rightarrow>
        de_Source incident = src \<and> de_IncidentID incident = iid \<and> tracked incident (dr_UnitHistory result) \<and>
        list_all (\<lambda>e. ev_source e = src \<and> ev_incident_id e = iid \<longrightarrow> ev_id e \<in> ie_ID ` set (dr_Events result))
          (incident_events d0)"
  using running.torn_informed [OF assms(2) reached_recorded [OF assms(1)]] by simp


subsection \<open>The list of active incidents\<close>

datatype feed_query =
    AskPolls
  | AskActive StalenessMeta
  | Listed "error + ActiveIncidentsResult"

fun query_feed :: "postgis \<Rightarrow> ActiveIncidentFilter \<Rightarrow> faults \<Rightarrow> time \<Rightarrow> database \<Rightarrow> feed_query \<Rightarrow> feed_query" where
  "query_feed pg f fault now d AskPolls =
     (case activeStalenessMeta fault now d of Inl e \<Rightarrow> Listed (Inl e) | Inr m \<Rightarrow> AskActive m)"
| "query_feed pg f fault now d (AskActive m) =
     (case read_query fault ''active incidents'' d
             (newest_first (filter (filter_accepts pg f) (active_incidents d))) of
        Inl e \<Rightarrow> Listed (Inl e)
      | Inr rows \<Rightarrow>
          Listed (Inr \<lparr>ar_Meta = m,
            ar_Incidents =
              map (\<lambda>r. active_row (success_of (ir_source r) d) (epoch_seconds (now - ir_last_seen_at r)) r) rows\<rparr>))"
| "query_feed pg f fault now d (Listed x) = Listed x"

lemma feed_queries: "(query_feed pg f fault now d ^^ 2) AskPolls = Listed (ListActiveIncidents fault pg now f d)"
proof -
  have f: "(g ^^ 2) x = g (g x)" for g :: "'a \<Rightarrow> 'a" and x by (simp add: eval_nat_numeral)
  show ?thesis
    unfolding f ListActiveIncidents_def by (simp split: sum.split)
qed

text \<open>What the tables hold of the incidents a torn list shows.\<close>

fun listed_known :: "database \<Rightarrow> feed_query \<Rightarrow> bool" where
  "listed_known d (Listed (Inr feed)) = (ai_key ` set (ar_Incidents feed) \<subseteq> incident_key ` set (incidents d))"
| "listed_known d _ = True"

lemma query_listed:
  assumes "listed_known d q"
  shows "listed_known d (query_feed pg f fault now d q)"
proof (cases q)
  case (AskActive m)
  show ?thesis
    unfolding AskActive by (auto simp: read_query_def active_incidents_def split: option.split)
qed (use assms in \<open>simp_all split: sum.split\<close>)

lemma torn_moves: "torn moves query (q0, d0) (q, d) \<Longrightarrow> moves\<^sup>*\<^sup>* d0 d"
  by (induction "(q, d)" arbitrary: q d rule: torn.induct) (auto intro: rtranclp.rtrancl_into_rtrancl)

definition keys_grow :: "database \<Rightarrow> database \<Rightarrow> bool" where
  "keys_grow d d' \<longleftrightarrow> incident_key ` set (incidents d) \<subseteq> incident_key ` set (incidents d')"

lemma operated_keys: "operated env N d d' \<Longrightarrow> keys_grow d d'"
proof (induction rule: operated.induct)
  case (served d d')
  from service_grows [OF this] show ?case by (simp add: grows_def keys_grow_def)
next
  case (mended d rows fault rc s d')
  have "incident_key (fold (patch_row rc) rows r) = incident_key r" for r
    by (induction rows arbitrary: r) simp_all
  then show ?case
    by (simp add: keys_grow_def backfill_rows_effect(1) [OF mended(2)] image_image)
qed

lemma operated_later_keys: "(operated env N)\<^sup>*\<^sup>* d d' \<Longrightarrow> keys_grow d d'"
proof (induction rule: rtranclp_induct)
  case (step d1 d2)
  from step(3) operated_keys [OF step(2)] show ?case unfolding keys_grow_def by (rule order.trans)
qed (simp add: keys_grow_def)

lemma service_operated: "(service env N)\<^sup>*\<^sup>* d d' \<Longrightarrow> (operated env N)\<^sup>*\<^sup>* d d'"
  by (rule mono_rtranclp [THEN mp]) (auto intro: operated.served)

lemma torn_listed:
  assumes "torn moves (query_feed pg f) (AskPolls, d0) (q, d)" "\<And>d d'. moves d d' \<Longrightarrow> keys_grow d d'"
  shows "listed_known d q"
  using assms(1)
proof (induction "(q, d)" arbitrary: q d rule: torn.induct)
  case (meanwhile q d d')
  have "listed_known d q" by (rule meanwhile.hyps(2))
  then show ?case using assms(2) [OF meanwhile.hyps(3)]
    by (cases "(d', q)" rule: listed_known.cases) (auto simp: keys_grow_def)
qed (simp_all add: query_listed)

text \<open>
  An incident that a list of active incidents has shown is found ever after: a later request for its
  detail is not answered with not found, whatever the service does during the two requests and the whole
  system, backfills included, between them.
\<close>

theorem listed_then_found:
  assumes "(operated env N)\<^sup>*\<^sup>* empty_db d0"
    and "torn (service env N) (query_feed pg f) (AskPolls, d0) (Listed (Inr feed), d1)"
    and "i \<in> set (ar_Incidents feed)" and "(operated env N)\<^sup>*\<^sup>* d1 d2"
    and "torn (service env N) (query_detail (ai_Source i) (ai_IncidentID i)) (AskMeta, d2) (Detailed (Inr result), d3)"
  shows "dr_Incident result \<noteq> None"
proof -
  have "listed_known d1 (Listed (Inr feed))"
    by (rule torn_listed [OF assms(2)]) (rule operated_keys [OF operated.served])
  then have "ai_key i \<in> incident_key ` set (incidents d2)"
    using assms(3) operated_later_keys [OF assms(4)] by (auto simp: keys_grow_def)
  then have known: "find_incident (ai_Source i) (ai_IncidentID i) d2 \<noteq> None"
    by (simp add: find_incident_None ai_key_def)
  have "(operated env N)\<^sup>*\<^sup>* empty_db d2"
    using assms(1) service_operated [OF torn_moves [OF assms(2)]] assms(4) by (meson rtranclp_trans)
  from running.torn_informed [OF assms(5) reached_recorded [OF this]] known show ?thesis
    by (auto split: option.splits)
qed

section \<open>Concrete runs\<close>

definition raw_incident :: Incident where "raw_incident = sample_incident\<lparr>inc_Raw := ''{}''\<rparr>"

definition raw_db :: database where "raw_db = snd (Apply no_faults 1 (sample_result 100 [raw_incident]) empty_db)"

lemma advance_moves: "(service env N)\<^sup>*\<^sup>* d (snd ((advance N fault ^^ n) (a, d)))"
proof (induction n)
  case (Suc n)
  then show ?case
    using service.apply_call [of env N "snd ((advance N fault ^^ n) (a, d))" fault "fst ((advance N fault ^^ n) (a, d))"]
    by (simp add: rtranclp.rtrancl_into_rtrancl)
qed simp

lemma Apply_moves: "(service env N)\<^sup>*\<^sup>* d (snd (Apply fault N r d))"
  using advance_moves [where env = env and N = N and d = d and n = "length (res_Incidents r) + 6 + 0" and a = "Beginning r" and fault = fault]
  unfolding apply_steps_reach by simp

lemma raw_reached: "(operated env 1)\<^sup>*\<^sup>* empty_db raw_db"
  unfolding raw_db_def by (rule service_operated) (rule Apply_moves)

theorem snapshots_recorded_witness:
  "\<exists>h \<in> set (incident_units raw_db). iu_unit h = ''E1'' \<and> iu_status h = ''Dispatched''"
proof -
  have "map ir_units (incidents raw_db) = [inc_Units sample_incident]" by code_simp
  then obtain r where r: "r \<in> set (incidents raw_db)" "ir_units r = inc_Units sample_incident" by auto
  let ?u = "\<lparr>unit_Unit = ''E1'', unit_Status = ''Dispatched'', unit_UnitType = ''Engine''\<rparr>"
  have "?u \<in> set (ir_units r)" unfolding r(2) by (simp add: sample_incident_def)
  from snapshots_recorded [OF raw_reached r(1) this] show ?thesis by auto
qed

text \<open>A request whose incident is read before a change of the tables and its histories after it.\<close>

definition split_detail :: "database \<Rightarrow> database \<Rightarrow> detail_query" where
  "split_detail d d' =
     (let ask = query_detail SourceName ''F1'' no_faults 500 in ask d' (ask d' (ask d (ask d AskMeta))))"

lemma torn_later: "torn moves query s (q, d) \<Longrightarrow> moves\<^sup>*\<^sup>* d d' \<Longrightarrow> torn moves query s (q, d')"
  by (rotate_tac, induction rule: rtranclp_induct) (auto intro: torn.meanwhile)

lemma split_torn:
  assumes "moves\<^sup>*\<^sup>* d d'"
  shows "torn moves (query_detail SourceName ''F1'') (AskMeta, d) (split_detail d d', d')"
  unfolding split_detail_def Let_def by (intro torn.asked torn_later [OF _ assms] torn.received)

definition enroute_db :: database where
  "enroute_db = snd (Apply no_faults 1 (sample_result 160
     [raw_incident\<lparr>inc_Units := [\<lparr>unit_Unit = ''E1'', unit_Status = ''Enroute'', unit_UnitType = ''Engine''\<rparr>]\<rparr>]) raw_db)"

lemma split_runs:
  "case split_detail raw_db enroute_db of
     Detailed (Inr res) \<Rightarrow> map uo_Status (dr_UnitHistory res) = [''Dispatched'', ''Enroute''] | _ \<Rightarrow> False"
  by code_simp

theorem torn_detail_consistent_witness:
  "\<exists>result incident. split_detail raw_db enroute_db = Detailed (Inr result) \<and> dr_Incident result = Some incident \<and>
     tracked incident (dr_UnitHistory result) \<and> map uo_Status (dr_UnitHistory result) = [''Dispatched'', ''Enroute'']"
proof -
  obtain result where res: "split_detail raw_db enroute_db = Detailed (Inr result)"
    "map uo_Status (dr_UnitHistory result) = [''Dispatched'', ''Enroute'']"
    using split_runs by (auto split: detail_query.splits sum.splits)
  have moves: "(service sample_router 1)\<^sup>*\<^sup>* raw_db enroute_db"
    unfolding enroute_db_def by (rule Apply_moves)
  have "find_incident SourceName ''F1'' raw_db \<noteq> None" by code_simp
  then show ?thesis
    using torn_detail_consistent [OF raw_reached split_torn [OF moves, unfolded res(1)]] res by (auto split: option.splits)
qed

text \<open>With a backfill between the same two queries the answer's snapshot and history contradict each other.\<close>

definition mended_db :: database where
  "mended_db = snd (backfill_units no_faults sample_raw_codec raw_db)"

lemma mended_runs:
  "case split_detail raw_db mended_db of
     Detailed (Inr res) \<Rightarrow> (case dr_Incident res of Some inc \<Rightarrow> \<not> tracked inc (dr_UnitHistory res) | None \<Rightarrow> False) | _ \<Rightarrow> False"
  "db_ok raw_db"
  by code_simp+

lemma mended_step: "operated env 1 raw_db mended_db"
proof (cases "backfill_rows no_faults sample_raw_codec (candidates sample_raw_codec raw_db) (empty_summary, raw_db)")
  case (Inl e)
  have "map_sum id bf_rowsUpdated (fst (backfill_units no_faults sample_raw_codec raw_db)) = Inr 1" by code_simp
  then show ?thesis using Inl by (simp add: backfill_units_def no_faults_def)
next
  case (Inr sd)
  then show ?thesis
    using operated.mended [OF candidates_known [OF mended_runs(2)], where fault = no_faults and s = "fst sd" and d' = "snd sd"]
    by (simp add: mended_db_def backfill_units_def no_faults_def split_beta)
qed

theorem backfill_tears_detail:
  "\<exists>d0 d result incident. (operated env 1)\<^sup>*\<^sup>* empty_db d0 \<and>
     torn (operated env 1) (query_detail SourceName ''F1'') (AskMeta, d0) (Detailed (Inr result), d) \<and>
     dr_Incident result = Some incident \<and> \<not> tracked incident (dr_UnitHistory result)"
proof -
  obtain result incident where r: "split_detail raw_db mended_db = Detailed (Inr result)"
    "dr_Incident result = Some incident" "\<not> tracked incident (dr_UnitHistory result)"
    using mended_runs(1) by (auto split: detail_query.splits sum.splits option.splits)
  have "(operated env 1)\<^sup>*\<^sup>* raw_db mended_db" by (rule r_into_rtranclp) (rule mended_step)
  from split_torn [OF this] show ?thesis using raw_reached r by metis
qed

theorem listed_then_found_witness:
  "\<exists>result. split_detail mended_db mended_db = Detailed (Inr result) \<and> dr_Incident result \<noteq> None"
proof -
  let ?pg = "\<lparr>pg_overlaps = (\<lambda>_ _ _. True), pg_dwithin = (\<lambda>_ _ _. True)\<rparr>"
  let ?ask = "query_feed ?pg no_filter no_faults 500 raw_db"
  have "case ?ask (?ask AskPolls) of
      Listed (Inr feed) \<Rightarrow> map ai_key (ar_Incidents feed) = [(SourceName, ''F1'')] | _ \<Rightarrow> False"
    by code_simp
  then obtain feed i where feed: "?ask (?ask AskPolls) = Listed (Inr feed)" "ar_Incidents feed = [i]"
    "ai_Source i = SourceName" "ai_IncidentID i = ''F1''"
    by (auto simp: ai_key_def split: feed_query.splits sum.splits)
  have list: "torn (service sample_router 1) (query_feed ?pg no_filter) (AskPolls, raw_db) (Listed (Inr feed), raw_db)"
    unfolding feed(1) [symmetric] by (intro torn.asked torn.received)
  have "case split_detail mended_db mended_db of Detailed (Inr res) \<Rightarrow> True | _ \<Rightarrow> False" by code_simp
  then obtain result where res: "split_detail mended_db mended_db = Detailed (Inr result)"
    by (auto split: detail_query.splits sum.splits)
  have "torn (service sample_router 1) (query_detail (ai_Source i) (ai_IncidentID i)) (AskMeta, mended_db) (Detailed (Inr result), mended_db)"
    using split_torn [of "service sample_router 1" mended_db mended_db] by (simp add: feed(3,4) res)
  moreover have "(operated sample_router 1)\<^sup>*\<^sup>* raw_db mended_db" by (rule r_into_rtranclp) (rule mended_step)
  ultimately show ?thesis using listed_then_found [OF raw_reached list] res feed(2) by simp
qed

theorem detail_handler_in_queries_witness:
  "\<exists>outcome. (query_detail SourceName ''F1'' no_faults (hr_now sample_request) showing_db ^^ 4) AskMeta = Detailed outcome \<and>
     incidentDetailHandler sample_env SourceName ''F1'' sample_request sample_server =
       (answer_detail sample_env sample_request outcome, sample_server)"
  using detail_handler_in_queries [of SourceName "''F1''" sample_env sample_request sample_server]
  by (simp add: SourceName_def sample_env_faults sample_server_def)

end
