(* ===== verification/Worker_Crew.thy ===== *)
theory Worker_Crew
  imports Dispatch_Worker Transcripts
begin

text \<open>
  Several workers on one queue (\<^verbatim>\<open>processNext\<close>, \<^verbatim>\<open>lockNextTranscript\<close> of
  \<^verbatim>\<open>internal/dispatch/parser/worker.go\<close>): a pass takes a row with \<^verbatim>\<open>FOR UPDATE SKIP LOCKED\<close> and holds it until its
  transaction ends. The two halves of a pass are steps of their own here, so that the passes of different
  workers, uploads and whatever else happens to the other tables can come between them.
\<close>

section \<open>The halves of a pass\<close>

definition pass_on ::
  "Worker \<Rightarrow> pass \<Rightarrow> transcriptRow \<Rightarrow> database \<Rightarrow> (processOutcome \<times> int \<times> error option) option \<times> database" where
  "pass_on w ps row d =
     (if staleCapture w ps (tr_CapturedAt row)
      then apfst Some (commit_tx ps outcomeStaleCapture (tr_ID row) d (markTranscriptParsed ps (tr_ID row) None d))
      else
        (case ParseTranscript (tr_DisplayText row) (tr_VerificationConfidence row) of
           None \<Rightarrow> (None, d)
         | Some (Inl reason) \<Rightarrow>
             apfst Some (commit_tx ps outcomeGateFailed (tr_ID row) d (markTranscriptParsed ps (tr_ID row) None d))
         | Some (Inr parsed) \<Rightarrow> apfst Some (process_parsed w ps row parsed d)))"

lemma processNext_halves:
  "processNext w ps d =
     (case ps_faults ps BeginParse d of
        Some e \<Rightarrow> (Some (outcomeNoRows, 0, Some (''begin dispatch parse tx: '' @ e)), d)
      | None \<Rightarrow>
          (case lockNextTranscript ps d of
             Inl e \<Rightarrow> (Some (outcomeNoRows, 0, Some e), d)
           | Inr None \<Rightarrow> apfst Some (commit_tx ps outcomeNoRows 0 d (Inr d))
           | Inr (Some row) \<Rightarrow> pass_on w ps row d))"
  unfolding processNext_def pass_on_def by (rule refl)

lemma pass_on_cases:
  assumes "pass_on w ps (row_of t) d = (res, d')"
  obtains (panicked) "res = None" "d' = d"
    | (failed) oc i m where "res = Some (oc, i, Some m)" "only_cache d d'"
    | (finished) oc f where "res = Some (oc, dt_id t, None)" "oc \<notin> {outcomeNoRows, outcomeGeocodeRetry}"
        "finishing f" "touches (dt_id t) f d d'"
    | (retried) "res = Some (outcomeGeocodeRetry, dt_id t, None)" "attempts_of t + 1 < wk_maxGeocodeAttempts w"
        "touches (dt_id t) (\<lambda>x. x\<lparr>dt_geocode_attempts := Some (attempts_of t + 1)\<rparr>) d d'"
proof -
  note on_panic = that(1) and on_failed = that(2) and on_finished = that(3) and on_retried = that(4)
  have row: "tr_ID (row_of t) = dt_id t" by (simp add: row_of_def)
  have skip: ?thesis if "apfst Some (commit_tx ps oc (dt_id t) d (markTranscriptParsed ps (dt_id t) None d)) = (res, d')"
      "oc \<notin> {outcomeNoRows, outcomeGeocodeRetry}" for oc
  proof -
    obtain oc' i e where c: "commit_tx ps oc (dt_id t) d (markTranscriptParsed ps (dt_id t) None d) = ((oc', i, e), d')"
      "res = Some (oc', i, e)"
    proof -
      obtain x d1 where "commit_tx ps oc (dt_id t) d (markTranscriptParsed ps (dt_id t) None d) = (x, d1)" by fastforce
      moreover obtain oc' i e where "x = (oc', i, e)" by (cases x)
      ultimately show thesis using \<open>apfst Some _ = (res, d')\<close> by (intro that) auto
    qed
    show ?thesis
      using c(1)
    proof (cases rule: skip_cases)
      case (1 m)
      then show ?thesis by (intro on_failed [of oc' i m]) (use c(2) in simp_all)
    next
      case (2 f)
      then show ?thesis by (intro on_finished [of oc f]) (use c(2) that(2) in simp_all)
    qed
  qed
  let ?parse = "ParseTranscript (tr_DisplayText (row_of t)) (tr_VerificationConfidence (row_of t))"
  consider "staleCapture w ps (tr_CapturedAt (row_of t))"
    | "\<not> staleCapture w ps (tr_CapturedAt (row_of t))" "?parse = None"
    | reason where "\<not> staleCapture w ps (tr_CapturedAt (row_of t))" "?parse = Some (Inl reason)"
    | parsed where "\<not> staleCapture w ps (tr_CapturedAt (row_of t))" "?parse = Some (Inr parsed)"
    by (metis option.exhaust sum.exhaust)
  then show ?thesis
  proof cases
    case 1
    then have "apfst Some (commit_tx ps outcomeStaleCapture (dt_id t) d (markTranscriptParsed ps (dt_id t) None d)) = (res, d')"
      using assms row by (simp add: pass_on_def)
    then show ?thesis by (rule skip) simp
  next
    case 2
    then show ?thesis using assms by (intro on_panic) (simp_all add: pass_on_def)
  next
    case (3 reason)
    then have "apfst Some (commit_tx ps outcomeGateFailed (dt_id t) d (markTranscriptParsed ps (dt_id t) None d)) = (res, d')"
      using assms row by (simp add: pass_on_def)
    then show ?thesis by (rule skip) simp
  next
    case (4 parsed)
    obtain oc i e where r: "process_parsed w ps (row_of t) parsed d = ((oc, i, e), d')" "res = Some (oc, i, e)"
      using 4 assms by (cases "process_parsed w ps (row_of t) parsed d") (auto simp: pass_on_def)
    show ?thesis
      using r(1)
    proof (cases rule: process_parsed_cases)
      case (failed m)
      then show ?thesis using r(2) on_failed by blast
    next
      case (finished f)
      then show ?thesis using r(2) on_finished by blast
    next
      case retried
      then show ?thesis using r(2) on_retried by blast
    qed
  qed
qed

section \<open>The crew\<close>

text \<open>\<^verbatim>\<open>Down\<close> is a worker whose process the parser's panic has ended; its lock is gone with its connection.\<close>

datatype hand = Free | Holding transcriptRow | Down

record crew =
  cw_hands :: "hand list"
  cw_db :: database
  cw_done :: "(processOutcome \<times> int) list"

fun held_id :: "hand \<Rightarrow> int list" where
  "held_id (Holding row) = [tr_ID row]"
| "held_id _ = []"

definition held_ids :: "hand list \<Rightarrow> int list" where
  "held_ids hs = concat (map held_id hs)"

inductive crew_step :: "Worker \<Rightarrow> crew \<Rightarrow> crew \<Rightarrow> bool" for w where
  takes: "i < length (cw_hands c) \<Longrightarrow> cw_hands c ! i = Free \<Longrightarrow> ps_locked ps = held_ids (cw_hands c) \<Longrightarrow>
    ps_faults ps BeginParse (cw_db c) = None \<Longrightarrow> lockNextTranscript ps (cw_db c) = Inr (Some row) \<Longrightarrow>
    crew_step w c (c\<lparr>cw_hands := (cw_hands c)[i := Holding row]\<rparr>)"
| ends: "i < length (cw_hands c) \<Longrightarrow> cw_hands c ! i = Holding row \<Longrightarrow>
    pass_on w ps row (cw_db c) = (Some (oc, j, e), d') \<Longrightarrow>
    crew_step w c (c\<lparr>cw_hands := (cw_hands c)[i := Free], cw_db := d',
      cw_done := (if e = None then (oc, j) # cw_done c else cw_done c)\<rparr>)"
| panics: "i < length (cw_hands c) \<Longrightarrow> cw_hands c ! i = Holding row \<Longrightarrow>
    pass_on w ps row (cw_db c) = (None, d') \<Longrightarrow>
    crew_step w c (c\<lparr>cw_hands := (cw_hands c)[i := Down], cw_db := d'\<rparr>)"
| uploads: "crew_step w c (c\<lparr>cw_db := snd (InsertDispatchTranscript fault now input (cw_db c))\<rparr>)"
| elsewhere: "dispatch_transcripts d' = dispatch_transcripts (cw_db c) \<Longrightarrow> seq_transcript d' = seq_transcript (cw_db c) \<Longrightarrow>
    crew_step w c (c\<lparr>cw_db := d'\<rparr>)"

definition final :: "processOutcome \<times> int \<Rightarrow> bool" where
  "final x \<longleftrightarrow> fst x \<notin> {outcomeNoRows, outcomeGeocodeRetry}"

definition retries :: "int \<Rightarrow> (processOutcome \<times> int) list \<Rightarrow> nat" where
  "retries j xs = length (filter (\<lambda>x. x = (outcomeGeocodeRetry, j)) xs)"

text \<open>
  Every held row is the current state of a waiting transcript, no two workers hold the same, what is done is no
  longer waiting, and a waiting transcript carries its retries.
\<close>

definition table_ok :: "database \<Rightarrow> bool" where
  "table_ok d \<longleftrightarrow>
     distinct (map dt_id (dispatch_transcripts d)) \<and> list_all (\<lambda>t. dt_id t < seq_transcript d) (dispatch_transcripts d)"

definition waiting_row :: "database \<Rightarrow> transcriptRow \<Rightarrow> bool" where
  "waiting_row d row \<longleftrightarrow> (\<exists>t \<in> set (dispatch_transcripts d). queued t \<and> row = row_of t)"

definition hands_ok :: "database \<Rightarrow> hand list \<Rightarrow> bool" where
  "hands_ok d hs \<longleftrightarrow> distinct (held_ids hs) \<and> (\<forall>row. Holding row \<in> set hs \<longrightarrow> waiting_row d row)"

definition done_ok :: "Worker \<Rightarrow> database \<Rightarrow> (processOutcome \<times> int) list \<Rightarrow> bool" where
  "done_ok w d xs \<longleftrightarrow>
     (\<forall>x \<in> set (filter final xs). \<exists>t \<in> set (dispatch_transcripts d). dt_id t = snd x \<and> \<not> queued t) \<and>
     (\<forall>t \<in> set (dispatch_transcripts d). queued t \<longrightarrow> int (retries (dt_id t) xs) \<le> attempts_of t) \<and>
     (\<forall>j. seq_transcript d \<le> j \<longrightarrow> retries j xs = 0) \<and>
     (\<forall>j. retries j xs = 0 \<or> int (retries j xs) < wk_maxGeocodeAttempts w) \<and>
     distinct (map snd (filter final xs))"

definition crew_ok :: "Worker \<Rightarrow> crew \<Rightarrow> bool" where
  "crew_ok w c \<longleftrightarrow> table_ok (cw_db c) \<and> hands_ok (cw_db c) (cw_hands c) \<and> done_ok w (cw_db c) (cw_done c)"

section \<open>Each transcript once\<close>

lemma held_ids_split:
  assumes "i < length hs"
  shows "held_ids (hs[i := h]) = held_ids (take i hs) @ held_id h @ held_ids (drop (Suc i) hs)"
    "held_ids hs = held_ids (take i hs) @ held_id (hs ! i) @ held_ids (drop (Suc i) hs)"
proof -
  show "held_ids (hs[i := h]) = held_ids (take i hs) @ held_id h @ held_ids (drop (Suc i) hs)"
    using assms by (simp add: held_ids_def upd_conv_take_nth_drop)
  have "map held_id hs = map held_id (take i hs @ hs ! i # drop (Suc i) hs)"
    using id_take_nth_drop [OF assms] by simp
  then show "held_ids hs = held_ids (take i hs) @ held_id (hs ! i) @ held_ids (drop (Suc i) hs)"
    by (simp add: held_ids_def)
qed

lemma held_ids_member: "Holding row \<in> set hs \<Longrightarrow> tr_ID row \<in> set (held_ids hs)"
  by (force simp: held_ids_def)

lemma holding_update: "Holding row \<in> set (hs[i := h]) \<Longrightarrow> Holding row \<in> set hs \<or> h = Holding row"
  using set_update_subset_insert [of hs i h] by auto

lemma holding_elsewhere:
  assumes "i < length hs" "distinct (held_ids hs)" "hs ! i = Holding row" "held_id h = []"
  shows "distinct (held_ids (hs[i := h]))" "tr_ID row \<notin> set (held_ids (hs[i := h]))"
  using assms(2) held_ids_split(1) [OF assms(1), of h] held_ids_split(2) [OF assms(1)] assms(3,4) by auto

lemma waiting_touched:
  assumes "waiting_row d row" "touches j f d d'" "tr_ID row \<noteq> j"
  shows "waiting_row d' row"
proof -
  obtain t where t: "t \<in> set (dispatch_transcripts d)" "queued t" "row = row_of t"
    using assms(1) by (auto simp: waiting_row_def)
  then have "dt_id t \<noteq> j" using assms(3) by (simp add: row_of_def)
  then have "t \<in> set (dispatch_transcripts d')" using t(1) assms(2) by (force simp: set_update_where)
  then show ?thesis using t by (auto simp: waiting_row_def)
qed

lemma table_touched: "table_ok d \<Longrightarrow> touches j f d d' \<Longrightarrow> seq_transcript d' = seq_transcript d \<Longrightarrow> (\<And>t. dt_id (f t) = dt_id t) \<Longrightarrow> table_ok d'"
  by (simp add: table_ok_def update_ids list_all_update_where)

lemma mark_seq:
  "markTranscriptParsed ps i x d = Inr d' \<Longrightarrow> seq_transcript d' = seq_transcript d"
  "markTranscriptParsedAfterGeocodeAttempts ps i x n d = Inr d' \<Longrightarrow> seq_transcript d' = seq_transcript d"
  "recordTranscriptGeocodeAttempt ps i n d = Inr d' \<Longrightarrow> seq_transcript d' = seq_transcript d"
  by (auto simp: markTranscriptParsed_def markTranscriptParsedAfterGeocodeAttempts_def
      recordTranscriptGeocodeAttempt_def update_transcript_def split: option.splits)

lemma insertIncident_seq:
  assumes "insertIncident ps row p g d = Inr (i, d')"
  shows "seq_transcript d' = seq_transcript d"
  using assms
proof (cases rule: insertIncident_elim)
  case (1 d1 d2)
  then show ?thesis
    using insert_sdr_units_frame [OF 1(3)]
      upsert_sdr_frame [of "sdr_row (seq_incident d) row p g (ps_insert_now ps) (seq_poll d)" d1] by auto
qed

lemma commit_tx_seq:
  "seq_transcript d = n \<Longrightarrow> (\<And>x. res = Inr x \<Longrightarrow> seq_transcript x = n) \<Longrightarrow> seq_transcript (snd (commit_tx ps oc i d res)) = n"
  by (auto simp: commit_tx_def split: sum.split option.split)

lemma process_parsed_seq: "seq_transcript (snd (process_parsed w ps row p d)) = seq_transcript d"
proof -
  obtain r d1 where g: "geocode_pass ps (pd_LocationText p) d = (r, d1)" by fastforce
  have d1: "seq_transcript d1 = seq_transcript d"
    using geocode_pass_frame [OF g] by (auto simp: only_cache_def)
  show ?thesis
  proof (cases r)
    case (Inl e)
    then show ?thesis
      using g d1 mark_seq by (auto simp: process_parsed_def Let_def intro!: commit_tx_seq)
  next
    case (Inr geo)
    have "seq_transcript x = seq_transcript d" if "(case insertIncident ps row p geo d1 of Inl e \<Rightarrow> Inl e
        | Inr (dbid, d2) \<Rightarrow> markTranscriptParsed ps (tr_ID row) (Some dbid) d2) = Inr x" for x
      using that insertIncident_seq mark_seq(1) d1 by (fastforce split: sum.splits)
    then show ?thesis
      using g d1 Inr by (auto simp: process_parsed_def Let_def intro!: commit_tx_seq)
  qed
qed

lemma pass_on_seq: "seq_transcript (snd (pass_on w ps row d)) = seq_transcript d"
  using mark_seq(1) process_parsed_seq
  by (auto simp: pass_on_def intro!: commit_tx_seq split: option.split sum.split)

lemma hands_take:
  assumes "hands_ok d hs" "i < length hs" "hs ! i = Free" "next_transcript (held_ids hs) d = Some t"
  shows "hands_ok d (hs[i := Holding (row_of t)])"
proof -
  have t: "t \<in> set (dispatch_transcripts d)" "queued t" "dt_id t \<notin> set (held_ids hs)"
    using next_transcriptD [OF assms(4)] by auto
  have "distinct (held_ids (hs[i := Holding (row_of t)]))"
    using assms(1) held_ids_split(1) [OF assms(2), of "Holding (row_of t)"] held_ids_split(2) [OF assms(2)] assms(3) t(3)
    by (auto simp: hands_ok_def row_of_def)
  then show ?thesis
    using assms(1) t by (auto simp: hands_ok_def waiting_row_def dest!: holding_update)
qed

lemma hands_let_go:
  assumes "hands_ok d hs" "i < length hs" "hs ! i = Holding (row_of t)" "held_id h = []"
    "dispatch_transcripts d' = dispatch_transcripts d \<or> touches (dt_id t) f d d'"
  shows "hands_ok d' (hs[i := h])"
proof -
  have row: "tr_ID (row_of t) = dt_id t" by (simp add: row_of_def)
  have new: "distinct (held_ids (hs[i := h]))" "dt_id t \<notin> set (held_ids (hs[i := h]))"
    using holding_elsewhere [OF assms(2) _ assms(3,4)] assms(1) row by (auto simp: hands_ok_def)
  have "waiting_row d' row" if r: "Holding row \<in> set (hs[i := h])" for row
  proof -
    have "Holding row \<in> set hs" using holding_update [OF r] assms(4) by auto
    then have w: "waiting_row d row" using assms(1) by (simp add: hands_ok_def)
    have ne: "tr_ID row \<noteq> dt_id t" using held_ids_member [OF r] new(2) by auto
    show ?thesis
      using assms(5) waiting_touched [OF w _ ne] w by (auto simp: waiting_row_def)
  qed
  then show ?thesis using new(1) by (simp add: hands_ok_def)
qed

lemma retries_Cons: "retries j (x # xs) = (if x = (outcomeGeocodeRetry, j) then 1 else 0) + retries j xs"
  by (simp add: retries_def)

lemma same_transcript:
  assumes "table_ok d" "t \<in> set (dispatch_transcripts d)" "u \<in> set (dispatch_transcripts d)" "dt_id t = dt_id u"
  shows "t = u"
  using assms by (meson distinct_map inj_onD table_ok_def)

lemma done_final:
  assumes "done_ok w d xs" "table_ok d" "t \<in> set (dispatch_transcripts d)" "queued t"
    and "oc \<notin> {outcomeNoRows, outcomeGeocodeRetry}" "finishing f" "touches (dt_id t) f d d'"
    "seq_transcript d' = seq_transcript d"
  shows "done_ok w d' ((oc, dt_id t) # xs)"
proof -
  have gone: "dt_id (f u) = dt_id u" "\<not> queued (f u)" for u
    using assms(6) by (simp_all add: finishing_def queued_def)
  have rows: "set (dispatch_transcripts d') = (\<lambda>r. if dt_id r = dt_id t then f r else r) ` set (dispatch_transcripts d)"
    by (simp add: assms(7) set_update_where)
  have kept: "\<exists>u \<in> set (dispatch_transcripts d'). dt_id u = j \<and> \<not> queued u"
    if ex: "\<exists>u \<in> set (dispatch_transcripts d). dt_id u = j \<and> \<not> queued u" for j
  proof -
    obtain u where "u \<in> set (dispatch_transcripts d)" "dt_id u = j" "\<not> queued u" using ex by blast
    then show ?thesis
      unfolding rows by (intro bexI [of _ "if dt_id u = dt_id t then f u else u"]) (auto simp: gone)
  qed
  have here: "\<exists>u \<in> set (dispatch_transcripts d'). dt_id u = dt_id t \<and> \<not> queued u"
    unfolding rows by (intro bexI [of _ "f t"]) (use assms(3) in \<open>auto simp: gone\<close>)
  have fresh: "dt_id t \<notin> snd ` set (filter final xs)"
  proof
    assume "dt_id t \<in> snd ` set (filter final xs)"
    then obtain x where x: "x \<in> set (filter final xs)" "snd x = dt_id t" by auto
    then obtain u where "u \<in> set (dispatch_transcripts d)" "dt_id u = dt_id t" "\<not> queued u"
      using assms(1) unfolding done_ok_def by metis
    then show False using same_transcript [OF assms(2) _ assms(3)] assms(4) by blast
  qed
  have "int (retries (dt_id u) xs) \<le> attempts_of u" if "u \<in> set (dispatch_transcripts d')" "queued u" for u
    using that gone assms(1) unfolding rows done_ok_def by (auto split: if_splits)
  moreover have "retries j ((oc, dt_id t) # xs) = retries j xs" for j
    using assms(5) by (auto simp: retries_Cons)
  moreover have "final (oc, dt_id t)" using assms(5) by (simp add: final_def)
  ultimately show ?thesis
    using assms(1,8) kept here fresh by (simp add: done_ok_def)
qed

lemma done_retry:
  assumes "done_ok w d xs" "table_ok d" "t \<in> set (dispatch_transcripts d)" "queued t"
    and "attempts_of t + 1 < wk_maxGeocodeAttempts w"
    and "touches (dt_id t) (\<lambda>x. x\<lparr>dt_geocode_attempts := Some (attempts_of t + 1)\<rparr>) d d'"
    "seq_transcript d' = seq_transcript d"
  shows "done_ok w d' ((outcomeGeocodeRetry, dt_id t) # xs)"
proof -
  let ?f = "\<lambda>x. x\<lparr>dt_geocode_attempts := Some (attempts_of t + 1)\<rparr>"
  have f: "dt_id (?f u) = dt_id u" "queued (?f u) = queued u" "attempts_of (?f u) = attempts_of t + 1" for u
    by (simp_all add: queued_def attempts_of_def)
  have rows: "set (dispatch_transcripts d') = (\<lambda>r. if dt_id r = dt_id t then ?f r else r) ` set (dispatch_transcripts d)"
    by (simp add: assms(6) set_update_where)
  have kept: "\<exists>u \<in> set (dispatch_transcripts d'). dt_id u = j \<and> \<not> queued u"
    if ex: "\<exists>u \<in> set (dispatch_transcripts d). dt_id u = j \<and> \<not> queued u" for j
  proof -
    obtain u where "u \<in> set (dispatch_transcripts d)" "dt_id u = j" "\<not> queued u" using ex by blast
    then show ?thesis
      unfolding rows by (intro bexI [of _ "if dt_id u = dt_id t then ?f u else u"]) (auto simp: f)
  qed
  have count: "int (retries (dt_id t) xs) \<le> attempts_of t" using assms(1,3,4) by (simp add: done_ok_def)
  have old: "int (retries (dt_id u) xs) \<le> attempts_of u" if "u \<in> set (dispatch_transcripts d)" "queued u" for u
    using assms(1) that by (simp add: done_ok_def)
  have 1: "int (retries (dt_id u) ((outcomeGeocodeRetry, dt_id t) # xs)) \<le> attempts_of u"
    if u: "u \<in> set (dispatch_transcripts d')" "queued u" for u
  proof -
    obtain v where v: "v \<in> set (dispatch_transcripts d)" "u = (if dt_id v = dt_id t then ?f v else v)"
      using u(1) unfolding rows by blast
    show ?thesis
      using v u(2) count old [of v] f [of v] by (cases "dt_id v = dt_id t") (auto simp: retries_Cons)
  qed
  have "dt_id t < seq_transcript d" using assms(2,3) by (simp add: table_ok_def list_all_iff)
  then have 2: "\<forall>j. seq_transcript d' \<le> j \<longrightarrow> retries j ((outcomeGeocodeRetry, dt_id t) # xs) = 0"
    using assms(1,7) by (auto simp: done_ok_def retries_Cons)
  have 3: "\<forall>j. retries j ((outcomeGeocodeRetry, dt_id t) # xs) = 0 \<or>
      int (retries j ((outcomeGeocodeRetry, dt_id t) # xs)) < wk_maxGeocodeAttempts w"
    using assms(1,5) count by (auto simp: done_ok_def retries_Cons)
  have "\<not> final (outcomeGeocodeRetry, dt_id t)" by (simp add: final_def)
  then show ?thesis using assms(1) kept 1 2 3 by (simp add: done_ok_def)
qed

lemma done_same:
  "done_ok w d xs \<Longrightarrow> dispatch_transcripts d' = dispatch_transcripts d \<Longrightarrow> seq_transcript d' = seq_transcript d \<Longrightarrow> done_ok w d' xs"
  by (simp add: done_ok_def)

lemma crew_step_ok: "crew_step w c c' \<Longrightarrow> crew_ok w c \<Longrightarrow> crew_ok w c'"
proof (induction rule: crew_step.induct)
  case (takes i c ps row)
  obtain t where t: "next_transcript (held_ids (cw_hands c)) (cw_db c) = Some t" "row = row_of t"
    using takes.hyps(3,5) by (auto simp: lockNextTranscript_def split: option.splits)
  then show ?case
    using takes.prems hands_take [OF _ takes.hyps(1,2) t(1)] by (simp add: crew_ok_def)
next
  case (ends i c row ps oc j e d')
  have hands: "hands_ok (cw_db c) (cw_hands c)" and table: "table_ok (cw_db c)"
    and fin: "done_ok w (cw_db c) (cw_done c)" using ends.prems by (simp_all add: crew_ok_def)
  have "waiting_row (cw_db c) row" using hands ends.hyps(1,2) nth_mem by (fastforce simp: hands_ok_def)
  then obtain t where t: "t \<in> set (dispatch_transcripts (cw_db c))" "queued t" "row = row_of t"
    by (auto simp: waiting_row_def)
  have sq: "seq_transcript d' = seq_transcript (cw_db c)" using pass_on_seq [of w ps row "cw_db c"] ends.hyps(3) by simp
  note go = hands_let_go [OF hands ends.hyps(1) ends.hyps(2) [unfolded t(3)], of Free d']
  show ?case
    using ends.hyps(3) [unfolded t(3)]
  proof (cases rule: pass_on_cases)
    case (failed oc' i' m)
    then have ts: "dispatch_transcripts d' = dispatch_transcripts (cw_db c)" using only_cache_transcripts by blast
    then show ?thesis
      using failed(1) go [of id] table done_same [OF fin ts sq] sq by (simp add: crew_ok_def table_ok_def)
  next
    case (finished oc' f)
    have "table_ok d'" by (rule table_touched [OF table finished(4) sq]) (use finished(3) in \<open>simp add: finishing_def\<close>)
    then show ?thesis
      using finished(1,4) go [of f] done_final [OF fin table t(1,2) finished(2,3,4) sq] by (simp add: crew_ok_def)
  next
    case retried
    have "table_ok d'" by (rule table_touched [OF table retried(3) sq]) simp
    then show ?thesis
      using retried(1,3) go done_retry [OF fin table t(1,2) retried(2,3) sq] by (auto simp: crew_ok_def)
  qed simp_all
next
  case (panics i c row ps d')
  have hands: "hands_ok (cw_db c) (cw_hands c)" using panics.prems by (simp add: crew_ok_def)
  have "waiting_row (cw_db c) row" using hands panics.hyps(1,2) nth_mem by (fastforce simp: hands_ok_def)
  then obtain t where t: "row = row_of t" by (auto simp: waiting_row_def)
  have "d' = cw_db c"
    using panics.hyps(3) [unfolded t] by (cases rule: pass_on_cases) simp_all
  then show ?case
    using panics.prems hands_let_go [OF hands panics.hyps(1) panics.hyps(2) [unfolded t], of Down d' id]
    by (simp add: crew_ok_def)
next
  case (uploads c fault now input)
  let ?d = "cw_db c" and ?d' = "snd (InsertDispatchTranscript fault now input (cw_db c))"
  consider "?d' = ?d" | t where "queued t" "dt_id t = seq_transcript ?d" "attempts_of t = 0"
    "?d' = ?d\<lparr>dispatch_transcripts := dispatch_transcripts ?d @ [t], seq_transcript := seq_transcript ?d + 1\<rparr>"
  proof (cases "?d' = ?d")
    case False
    then obtain t where t: "new_transcript (seq_transcript ?d) now input = Inr t"
      "?d' = ?d\<lparr>dispatch_transcripts := dispatch_transcripts ?d @ [t], seq_transcript := seq_transcript ?d + 1\<rparr>"
      by (auto simp: InsertDispatchTranscript_def split: option.splits sum.splits)
    then have "queued t" "dt_id t = seq_transcript ?d" "attempts_of t = 0"
      by (auto simp: new_transcript_def queued_def attempts_of_def split: sum.splits)
    then show thesis using t(2) that(2) by blast
  qed blast
  then show ?case
  proof cases
    case 1
    then show ?thesis using uploads.prems by simp
  next
    case (2 t)
    have "table_ok ?d'" "hands_ok ?d' (cw_hands c)"
      using uploads.prems 2 by (auto simp: crew_ok_def table_ok_def hands_ok_def waiting_row_def list_all_iff)
    moreover have "done_ok w ?d' (cw_done c)"
      using uploads.prems 2 by (auto simp: crew_ok_def done_ok_def)
    ultimately show ?thesis by (simp add: crew_ok_def)
  qed
next
  case (elsewhere d' c)
  then show ?case
    by (auto simp: crew_ok_def table_ok_def hands_ok_def waiting_row_def done_ok_def)
qed

text \<open>The start: nobody holds anything, nothing is done.\<close>

definition fresh_crew :: "nat \<Rightarrow> database \<Rightarrow> crew" where
  "fresh_crew n d = \<lparr>cw_hands = replicate n Free, cw_db = d, cw_done = []\<rparr>"

lemma fresh_crew_ok:
  assumes "table_ok d" "list_all (\<lambda>t. 0 \<le> attempts_of t) (dispatch_transcripts d)"
  shows "crew_ok w (fresh_crew n d)"
proof -
  have "held_ids (replicate n Free) = []" by (simp add: held_ids_def)
  then show ?thesis
    using assms by (simp add: crew_ok_def fresh_crew_def hands_ok_def done_ok_def retries_def list_all_iff)
qed

text \<open>
  C26. However many workers share the queue, and however their passes, the uploads and the other processes
  interleave, whatever fails: no two workers hold the same transcript at a time, what they hold is still waiting, each
  transcript is finished (inserted, rejected, given up) by at most one pass, and a transient geocoding failure is
  retried fewer times than the cap.
\<close>

theorem crew_finishes_once:
  assumes "(crew_step w)\<^sup>*\<^sup>* (fresh_crew n d) c" "table_ok d"
    "list_all (\<lambda>t. 0 \<le> attempts_of t) (dispatch_transcripts d)"
  shows "distinct (held_ids (cw_hands c)) \<and>
    (\<forall>row. Holding row \<in> set (cw_hands c) \<longrightarrow> waiting_row (cw_db c) row) \<and>
    distinct (map snd (filter final (cw_done c))) \<and>
    (\<forall>j. retries j (cw_done c) = 0 \<or> int (retries j (cw_done c)) < wk_maxGeocodeAttempts w)"
proof -
  have "crew_ok w c"
    using assms(1)
    by (induction rule: rtranclp_induct) (blast intro: fresh_crew_ok [OF assms(2,3)] crew_step_ok)+
  then show ?thesis by (simp add: crew_ok_def hands_ok_def done_ok_def)
qed

theorem crew_finishes_once_witness:
  "\<exists>c. (crew_step sample_worker)\<^sup>*\<^sup>* (fresh_crew 2 (sample_queue ''x'')) c \<and> held_ids (cw_hands c) = [1] \<and>
     distinct (held_ids (cw_hands c))"
proof -
  let ?c = "fresh_crew 2 (sample_queue ''x'')" and ?row = "row_of (sample_transcript 1 ''x'')"
  have free: "cw_hands ?c = [Free, Free]" by (simp add: fresh_crew_def numeral_2_eq_2)
  have "lockNextTranscript sample_pass (sample_queue ''x'') = Inr (Some ?row)"
    using sample_queue_facts(1) [of "''x''"] by (simp add: lockNextTranscript_def sample_pass_def no_faults_def)
  then have "crew_step sample_worker ?c (?c\<lparr>cw_hands := (cw_hands ?c)[0 := Holding ?row]\<rparr>)"
    by (intro crew_step.takes [of 0 ?c sample_pass])
      (simp_all add: free held_ids_def fresh_crew_def sample_pass_def no_faults_def)
  then have run: "(crew_step sample_worker)\<^sup>*\<^sup>* ?c (?c\<lparr>cw_hands := (cw_hands ?c)[0 := Holding ?row]\<rparr>)" by blast
  have ids: "held_ids (cw_hands (?c\<lparr>cw_hands := (cw_hands ?c)[0 := Holding ?row]\<rparr>)) = [1]"
    by (simp add: free held_ids_def row_of_def sample_transcript_def)
  have "table_ok (sample_queue ''x'')" "list_all (\<lambda>t. 0 \<le> attempts_of t) (dispatch_transcripts (sample_queue ''x''))"
    by (simp_all add: table_ok_def sample_queue_def sample_transcript_def attempts_of_def)
  then show ?thesis using crew_finishes_once [OF run] run ids by blast
qed

end
