(* ===== verification/Spec2Isabelle.thy ===== *)
theory Spec2Isabelle
  imports Lifecycle Phxfire_Client Source_Status Dispatch_Worker Access Store_Reads Transcripts Retention Ingester
    Canary Backfill Parser_Loops Programs Apply_Steps Concurrency Request_Reads Worker_Crew
begin

text \<open>
  A model of phoenix-feed, a feed of public safety incidents of the Phoenix area, and the theorems that
  make it correct. Names follow the Go sources under \<^verbatim>\<open>src/\<close>; a theory's first block says which files it models.

  \<^bold>\<open>The program.\<close> Several processes share one Postgres database and nothing else.
  \<^item> The ingester polls the fire department's map server and applies each result: it records the poll, upserts
    what it observed, marks what it did not, clears what has been missing long enough.
  \<^item> The API serves the active incidents, details, statistics and health, takes uploads of radio transcripts
    from an administrator, and limits the rate of its clients.
  \<^item> The dispatch parser takes uploaded transcripts from the table, parses and geocodes them, and inserts the
    dispatches as incidents of a second source.
  \<^item> The canary checks the contract of the map server; the janitor drops old payloads and clears stale
    radio incidents; the key generator and the backfill run by hand.

  \<^bold>\<open>Which theory models what.\<close>
  \<^item> \<^verbatim>\<open>Go_Prelude\<close>, \<^verbatim>\<open>Go_Text\<close>, \<^verbatim>\<open>Regex\<close>: the parts of Go and of its standard library the program uses (strings,
    times, \<^verbatim>\<open>float64\<close>, number, time and duration parsing, leftmost-first regular expressions) and the generic
    facts the other theories share.
  \<^item> \<^verbatim>\<open>Feed_Model\<close>, \<^verbatim>\<open>Database\<close>: the types of \<^verbatim>\<open>internal/model\<close>; the tables of \<^verbatim>\<open>db/\<close> as one record \<^verbatim>\<open>database\<close> of lists
    of rows with their sequences. \<^verbatim>\<open>db_ok\<close> is its integrity: primary keys, unique indexes, foreign keys.
  \<^item> \<^verbatim>\<open>Phxfire_Codes\<close>, \<^verbatim>\<open>Phxfire_Parse\<close>, \<^verbatim>\<open>Phxfire_Client\<close>: \<^verbatim>\<open>internal/source/phxfire\<close>. The state is the record
    \<^verbatim>\<open>Client\<close>; \<^verbatim>\<open>Poll\<close> classifies one answer as success, degraded or failure. The locale \<^verbatim>\<open>source_interface\<close> is
    \<^verbatim>\<open>internal/source\<close>, interpreted on this client.
  \<^item> \<^verbatim>\<open>Delta\<close>, \<^verbatim>\<open>Incident_Store\<close>: the writes of \<^verbatim>\<open>internal/store\<close> (poll audit, upsert transaction with unit history and
    events, missing and cleared marks).
  \<^item> \<^verbatim>\<open>Lifecycle\<close>: \<^verbatim>\<open>internal/lifecycle\<close>. \<^verbatim>\<open>Apply\<close> against the abstract machine \<^verbatim>\<open>lifecycle_step\<close> (unknown, seen,
    missing \<open>k\<close>, cleared), through the locale \<^verbatim>\<open>incident_lifecycle\<close>. \<^verbatim>\<open>Apply_Steps\<close>: the same, call by call.
  \<^item> \<^verbatim>\<open>Poll_Meta\<close>, \<^verbatim>\<open>Source_Status\<close>, \<^verbatim>\<open>Store_Reads\<close>: the reads of the store, the judgement of a source, the health page.
  \<^item> \<^verbatim>\<open>Feed_API\<close>, \<^verbatim>\<open>Admin_API\<close>, \<^verbatim>\<open>OpenAPI\<close>, \<^verbatim>\<open>Router\<close>: the handlers, middlewares and routes of \<^verbatim>\<open>internal/api\<close>; a
    handler maps a request and a \<^verbatim>\<open>server\<close> (tables and rate limits) to a response and a server.
    \<^verbatim>\<open>Access\<close>: \<^verbatim>\<open>internal/auth\<close>, \<^verbatim>\<open>internal/ratelimit\<close>, the API keys and the middlewares that use them.
  \<^item> \<^verbatim>\<open>Transcripts\<close>, \<^verbatim>\<open>Dispatch_Parser\<close>, \<^verbatim>\<open>Parser_Loops\<close>, \<^verbatim>\<open>Geocode\<close>, \<^verbatim>\<open>Dispatch_Worker\<close>: the transcript table,
    the text parser and its loops, the cached geocoder (locale \<^verbatim>\<open>address_cache\<close>, interpreted on the Postgres
    cache), and the worker's passes, batches and rounds.
  \<^item> \<^verbatim>\<open>Retention\<close>, \<^verbatim>\<open>Canary\<close>, \<^verbatim>\<open>Backfill\<close>, \<^verbatim>\<open>Config\<close>, \<^verbatim>\<open>Ingester\<close>, \<^verbatim>\<open>Programs\<close>: the sweeps and the janitor, the canary,
    the backfill, the configuration, the ingester's loop, and the \<^verbatim>\<open>main\<close> functions.
  \<^item> \<^verbatim>\<open>Worker_Crew\<close>: several workers on one queue, the pass split where its transaction takes the row.
    \<^verbatim>\<open>Concurrency\<close>: all processes on one database. The locale \<^verbatim>\<open>kept\<close> says when a relation holds of every step of the
    processes beside the ingester, \<^verbatim>\<open>tolerated\<close> what the ingester needs of them; both are interpreted on the models.
  \<^item> \<^verbatim>\<open>Request_Reads\<close>: the detail and the list of incidents as sequences of queries (\<^verbatim>\<open>query_detail\<close>, \<^verbatim>\<open>query_feed\<close>), with
    steps of the service between them (\<^verbatim>\<open>torn\<close>); the locale \<^verbatim>\<open>watched\<close> is what an answer needs of those steps.
\<close>

text \<open>
  \<^bold>\<open>How the code is modelled.\<close> An error is a value (\<^verbatim>\<open>Inl\<close>); a panic of the text parser is \<^verbatim>\<open>None\<close>. Every statement
  and transaction boundary asks a fault function whether it fails, so each theorem that leaves \<^verbatim>\<open>fault\<close> free covers
  every combination of database errors; a failed transaction leaves the tables as they were. The clock readings, the
  random draws and the answers of other services are arguments. A loop that runs until its process is
  stopped is a function of the list of its rounds.

  \<^bold>\<open>What the theorems show.\<close>
  \<^item> The lifecycle: applying polls refines the machine; failed and degraded polls change nothing; the clearing comes
    one miss later than the documents say; a failed write of the events loses them.
  \<^item> The upstream: only a complete, confirmed snapshot counts as a success; a frozen upstream is detected; the
    unit syntax round-trips; the history of a unit follows its snapshots; a delta is a patch.
  \<^item> The feed: what it lists is what the machine calls seen or missing; statistics agree with it;
    filters are well formed; requests write nothing but uploads; administration routes are closed without a token.
  \<^item> The transcripts: an acknowledged upload waits in the queue; a pass inserts what it parsed; undisturbed rounds
    drain the queue; of several workers at most one finishes a transcript; parser loops end; one known text makes the parser panic
    and blocks the queue.
  \<^item> The surroundings: pacing and backoff, retention, the canary's verdict, the backfill, keys and limits, health, the
    configuration that takes effect, the OpenAPI document against the code.
  \<^item> The whole: an upload reaches the feed; in any interleaving of the processes the tables keep their
    integrity and the incidents of the map server live as if the ingester were alone; every stored snapshot is covered
    by the unit history; an answer put together from queries at different moments still does not miss an incident, a unit
    or an earlier event, unless a backfill runs between two of them.

  \<^bold>\<open>Bounds and fuel.\<close> \<^verbatim>\<open>find_all\<close> runs on one more than the length of the text, \<^verbatim>\<open>channel_end\<close> and \<^verbatim>\<open>skip_markers\<close> on the
  length of what is left; \<^verbatim>\<open>Parser_Loops\<close> shows that more fuel changes nothing and that each satisfies the equation of its
  loop. \<^verbatim>\<open>Run_drains_queue\<close> asks for as many rounds as there is work queued, at most five per transcript. An
  apply ends after six calls more than its poll has incidents.

  \<^bold>\<open>Arguments and hypotheses.\<close> JSON decoding, HTML unescaping, SHA-256, HTTP, the URL library, the rate buckets, the
  router library's answer to an unrouted request and the middlewares it provides are arguments; what a theorem needs
  of one is a hypothesis with an instance in its witness. Distances of the radius filter and the points of the tables are
  coordinates, since every writer sets them. Characters are U+0000 to U+00FF. A transaction is one step: two of them
  are not interleaved statement by statement, and each sees the tables as the last one left them.

  \<^bold>\<open>Not modelled.\<close> Interleavings within a transaction: every one that writes an incident or its histories first locks the
  row of that incident (\<^verbatim>\<open>FOR UPDATE\<close> in the upsert, the update itself elsewhere) and reads them after, so that on one
  incident they come one after the other; what the backfill has read before its transaction is an argument of it.
  Logging, signals and the HTTP server; the rounding of floating-point arithmetic; the order of the
  migrations and \<^verbatim>\<open>VACUUM\<close>; the web client, the uploader script, deployment and documents, which are not Go or not part
  of the service. Compile-time guards, test seams (\<^verbatim>\<open>WithURL\<close>, \<^verbatim>\<open>withNow\<close>) and copies of tables have no behaviour of
  their own.
\<close>

end
